(* ===== verification/Prelude.thy ===== *)
theory Prelude
  imports Main "HOL-Library.Word"
begin

text \<open>
  Shared vocabulary of the development: the machine-integer types of the C++ sources, the
  result type that models std::expected, the collections of simplification rules that the
  component theories extend, and generic facts about lists, options, words and
  integers in memory.
\<close>

section \<open>Types and collections\<close>

type_synonym u8 = "8 word"
type_synonym u16 = "16 word"
type_synonym u32 = "32 word"
type_synonym u64 = "64 word"

text \<open>\<open>Result<T, E>\<close> of bme_core.hpp is std::expected: \<open>Inl\<close> is the error, \<open>Inr\<close> the value.\<close>

type_synonym ('e, 'a) result = "'e + 'a"

named_theorems bme_defs \<open>definitions of operations that proofs unfold together\<close>
named_theorems chars \<open>facts about character classes and digits\<close>
named_theorems addr \<open>facts about 64-bit addresses and sizes\<close>

section \<open>Lists\<close>

lemma takeWhile_all_append:
  "(\<forall>x\<in>set xs. P x) \<Longrightarrow> (ys = [] \<or> \<not> P (hd ys)) \<Longrightarrow> takeWhile P (xs @ ys) = xs"
  by (induction xs) (auto simp: takeWhile_eq_Nil_iff)

lemma dropWhile_all_append:
  "(\<forall>x\<in>set xs. P x) \<Longrightarrow> (ys = [] \<or> \<not> P (hd ys)) \<Longrightarrow> dropWhile P (xs @ ys) = ys"
  by (induction xs) (auto simp: dropWhile_eq_self_iff)

lemma dropWhile_Nil_iff [simp]: "dropWhile P xs = [] \<longleftrightarrow> (\<forall>x\<in>set xs. P x)"
  by (induction xs) auto

lemma length_concat_pairs: "(\<And>x. length (f x) = n) \<Longrightarrow> length (concat (map f xs)) = n * length xs"
  by (induction xs) auto

lemma filter_positions: "filter P xs = map ((!) xs) (filter (\<lambda>i. P (xs ! i)) [0..<length xs])"
  by (subst map_nth[of xs, symmetric], subst filter_map) (simp add: comp_def)

lemma sorted_wrt_snoc:
  "sorted_wrt R (xs @ [x]) \<longleftrightarrow> sorted_wrt R xs \<and> (\<forall>y\<in>set xs. R y x)"
  by (auto simp: sorted_wrt_append)

section \<open>Words\<close>

lemma unat_lt_2p: "unat (w :: 'a::len word) < 2 ^ LENGTH('a)"
  by (rule unsigned_less)

lemma unat_drop_bit: "unat (drop_bit n (w :: 'a::len word)) = unat w div 2 ^ n"
  by (subst unat_drop_bit_eq) (rule drop_bit_eq_div)

lemma word_of_nat_unat [simp]: "word_of_nat (unat w) = w"
  by simp

text \<open>Addresses: arithmetic on natural numbers where it does not wrap.\<close>

lemma unat_word_of_nat [addr]: "n < 2 ^ LENGTH('a) \<Longrightarrow> unat (word_of_nat n :: 'a::len word) = n"
  by (simp add: unsigned_of_nat take_bit_nat_eq_self)

lemma unat_add_nat [addr]:
  "unat x + n < 2 ^ LENGTH('a) \<Longrightarrow> unat (x + word_of_nat n :: 'a::len word) = unat x + n"
  by (metis unat_word_of_nat of_nat_add word_of_nat_unat)

lemma unat_diff [addr]: "y \<le> x \<Longrightarrow> unat (x - y :: 'a::len word) = unat x - unat y"
  by (simp add: unat_sub)

lemma unat_Suc_less [addr]: "x < y \<Longrightarrow> unat (x + 1 :: 'a::len word) = Suc (unat x)"
  using unat_add_nat[of x 1] unat_lt_2p[of y] by (simp add: word_less_nat_alt)

section \<open>Integers in memory\<close>

unbundle bit_operations_syntax

text \<open>Little-endian bytes of the low \<open>n\<close> bytes of a value, and the value of such bytes.\<close>

definition le_bytes :: "nat \<Rightarrow> u64 \<Rightarrow> u8 list" where
  "le_bytes n w = map (\<lambda>i. ucast (drop_bit (8 * i) w)) [0..<n]"

fun le_value :: "u8 list \<Rightarrow> u64" where
  "le_value [] = 0"
| "le_value (b # bs) = ucast b OR push_bit 8 (le_value bs)"

lemma length_le_bytes [simp]: "length (le_bytes n w) = n"
  by (simp add: le_bytes_def)

lemma bit_le_value: "bit (le_value bs) i \<longleftrightarrow> i < 64 \<and> i div 8 < length bs \<and> bit (bs ! (i div 8)) (i mod 8)"
proof (induction bs arbitrary: i)
  case (Cons b bs)
  show ?case
  proof (cases "i < 8")
    case True
    then show ?thesis by (auto simp: bit_simps)
  next
    case False
    then have "i div 8 = Suc ((i - 8) div 8)" "(i - 8) mod 8 = i mod 8" by (simp_all add: le_div_geq le_mod_geq)
    then show ?thesis using False Cons.IH[of "i - 8"] by (auto simp: bit_simps dest: bit_imp_le_length)
  qed
qed simp

lemma le_value_bytes: "le_value (le_bytes n w) = take_bit (8 * n) w"
proof (rule bit_word_eqI)
  fix i
  have "8 * (i div 8) + i mod 8 = i" "i div 8 < n \<longleftrightarrow> i < 8 * n" by (simp_all add: less_mult_imp_div_less div_less_iff_less_mult mult.commute)
  moreover assume "i < LENGTH(64)"
  ultimately show "bit (le_value (le_bytes n w)) i = bit (take_bit (8 * n) w) i"
    by (auto simp: bit_le_value le_bytes_def bit_simps)
qed

lemma le_value_u64 [simp]: "le_value (le_bytes 8 w) = w"
proof -
  have "take_bit 64 w = w" by (rule bit_word_eqI) (simp add: bit_simps)
  then show ?thesis by (simp add: le_value_bytes)
qed

section \<open>Interfaces\<close>

text \<open>
  A printer and the parser that reads its output back. The seed parsers, the code parser and the
  clipboard encoder are interpretations.
\<close>

locale text_codec =
  fixes valid :: "'a \<Rightarrow> bool"
    and encode :: "'a \<Rightarrow> 's"
    and decode :: "'s \<Rightarrow> ('e, 'a) result"
  assumes decode_encode: "valid v \<Longrightarrow> decode (encode v) = Inr v"
begin

lemma encode_inj: "valid v \<Longrightarrow> valid w \<Longrightarrow> encode v = encode w \<longleftrightarrow> v = w"
  by (metis decode_encode sum.inject(2))

lemma decode_all: "(\<forall>v\<in>set vs. valid v) \<Longrightarrow> map (decode \<circ> encode) vs = map Inr vs"
  by (simp add: decode_encode)

lemma decode_onto: "valid v \<Longrightarrow> \<exists>s. decode s = Inr v"
  using decode_encode by blast

end

end
