(* ===== verification/Text.thy ===== *)
theory Text
  imports Prelude
begin

text \<open>
  The text layer: the character classes and std::from_chars of the C++ standard library as far
  as the sources use them, and the helpers of src/src/util.hpp (ASCII case-insensitive
  comparison and trimming).
\<close>

section \<open>Character classes of the C locale\<close>

definition isspace :: "char \<Rightarrow> bool" where
  "isspace c \<longleftrightarrow> c = CHR '' '' \<or> (9 \<le> (of_char c :: nat) \<and> (of_char c :: nat) \<le> 13)"

text \<open>The value of a digit in bases up to 16: \<open>0-9\<close>, then \<open>a-f\<close> or \<open>A-F\<close>.\<close>

definition digit_value :: "char \<Rightarrow> nat option" where
  "digit_value c =
     (let n = of_char c :: nat
      in if 48 \<le> n \<and> n \<le> 57 then Some (n - 48)
         else if 65 \<le> n \<and> n \<le> 70 then Some (n - 55)
         else if 97 \<le> n \<and> n \<le> 102 then Some (n - 87)
         else None)"

definition is_digit_in :: "nat \<Rightarrow> char \<Rightarrow> bool" where
  "is_digit_in base c = (case digit_value c of None \<Rightarrow> False | Some d \<Rightarrow> d < base)"

definition isxdigit :: "char \<Rightarrow> bool" where
  "isxdigit c = is_digit_in 16 c"

section \<open>std::from_chars for unsigned integers\<close>

datatype errc = invalid_argument | result_out_of_range

fun digits_value :: "nat \<Rightarrow> string \<Rightarrow> nat \<Rightarrow> nat" where
  "digits_value base [] acc = acc"
| "digits_value base (c # cs) acc =
     digits_value base cs (acc * base + (case digit_value c of None \<Rightarrow> 0 | Some d \<Rightarrow> d))"

text \<open>
  \<open>from_chars base bits s\<close> is std::from_chars into an unsigned integer of the given width: the
  longest prefix of digits is the pattern (no sign and no \<open>0x\<close> prefix), an empty pattern is
  \<open>invalid_argument\<close>, a value that does not fit is \<open>result_out_of_range\<close>, and otherwise the
  value is returned with the text from the returned pointer on.
\<close>

definition from_chars :: "nat \<Rightarrow> nat \<Rightarrow> string \<Rightarrow> (errc, nat \<times> string) result" where
  "from_chars base bits s =
     (let digits = takeWhile (is_digit_in base) s; value = digits_value base digits 0
      in if digits = [] then Inl invalid_argument
         else if value < 2 ^ bits then Inr (value, dropWhile (is_digit_in base) s)
         else Inl result_out_of_range)"

text \<open>
  The test every caller makes: no error code, and the returned pointer is the end of the text.
\<close>

definition from_chars_all :: "nat \<Rightarrow> nat \<Rightarrow> string \<Rightarrow> nat option" where
  "from_chars_all base bits s =
     (case from_chars base bits s of Inl _ \<Rightarrow> None
      | Inr (value, rest) \<Rightarrow> if rest = [] then Some value else None)"

section \<open>util.hpp\<close>

definition lowercase :: "char \<Rightarrow> char" where
  "lowercase c = (let n = of_char c :: nat in if 65 \<le> n \<and> n \<le> 90 then char_of (n + 32) else c)"

definition ascii_case_insensitive_equal :: "string \<Rightarrow> string \<Rightarrow> bool" where
  "ascii_case_insensitive_equal left right =
     list_all2 (\<lambda>l r. lowercase l = lowercase r) left right"

definition ltrim :: "(char \<Rightarrow> bool) \<Rightarrow> string \<Rightarrow> string" where
  "ltrim predicate input = dropWhile predicate input"

definition rtrim :: "(char \<Rightarrow> bool) \<Rightarrow> string \<Rightarrow> string" where
  "rtrim predicate input = rev (dropWhile predicate (rev input))"

definition trim :: "(char \<Rightarrow> bool) \<Rightarrow> string \<Rightarrow> string" where
  "trim predicate input = rtrim predicate (ltrim predicate input)"

text \<open>The overloads on views narrow the view by the number of characters that match.\<close>

definition ltrim_view :: "(char \<Rightarrow> bool) \<Rightarrow> string \<Rightarrow> string" where
  "ltrim_view predicate input = drop (length (takeWhile predicate input)) input"

definition rtrim_view :: "(char \<Rightarrow> bool) \<Rightarrow> string \<Rightarrow> string" where
  "rtrim_view predicate input = take (length input - length (takeWhile predicate (rev input))) input"

definition trim_view :: "(char \<Rightarrow> bool) \<Rightarrow> string \<Rightarrow> string" where
  "trim_view predicate input = rtrim_view predicate (ltrim_view predicate input)"

section \<open>Facts\<close>

text \<open>Both kinds of overloads trim alike.\<close>

lemma trim_view_eq: "ltrim_view P s = ltrim P s" "rtrim_view P s = rtrim P s" "trim_view P s = trim P s"
proof -
  show left: "ltrim_view P s = ltrim P s" for s by (simp add: ltrim_view_def ltrim_def dropWhile_eq_drop)
  show right: "rtrim_view P s = rtrim P s" for s
    by (simp add: rtrim_view_def rtrim_def dropWhile_eq_drop drop_rev)
  show "trim_view P s = trim P s" by (simp add: trim_view_def trim_def left right)
qed

lemma is_digit_in_value: "is_digit_in base c \<longleftrightarrow> (\<exists>d. digit_value c = Some d \<and> d < base)"
  by (auto simp: is_digit_in_def split: option.splits)

lemma digit_value_less: "digit_value c = Some d \<Longrightarrow> d < 16"
  by (auto simp: digit_value_def Let_def split: if_splits)

lemma digit_not_space [chars]: "is_digit_in base c \<Longrightarrow> \<not> isspace c"
  by (auto simp: is_digit_in_value digit_value_def isspace_def Let_def split: if_splits)

lemma digits_value_acc: "digits_value base s acc = acc * base ^ length s + digits_value base s 0"
proof (induction s arbitrary: acc)
  case Nil
  then show ?case by simp
next
  case (Cons c cs)
  let ?d = "case digit_value c of None \<Rightarrow> 0 | Some d \<Rightarrow> d"
  show ?case
    using Cons[of "acc * base + ?d"] Cons[of ?d] by (simp add: algebra_simps)
qed

lemma digits_value_append:
  "digits_value base (s @ t) acc = digits_value base t (digits_value base s acc)"
  by (induction s arbitrary: acc) auto

lemma digits_value_bound:
  "\<forall>c\<in>set s. is_digit_in base c \<Longrightarrow> digits_value base s 0 < base ^ length s"
proof (induction s)
  case Nil
  then show ?case by simp
next
  case (Cons c cs)
  then obtain d where d: "digit_value c = Some d" "d < base"
    by (auto simp: is_digit_in_value)
  have IH: "digits_value base cs 0 < base ^ length cs" using Cons by simp
  have "digits_value base (c # cs) 0 = d * base ^ length cs + digits_value base cs 0"
    using digits_value_acc[of base cs d] d by simp
  also have "\<dots> < (d + 1) * base ^ length cs" using IH by simp
  also have "\<dots> \<le> base * base ^ length cs" using d by (intro mult_right_mono) auto
  finally show ?case by simp
qed

lemma from_chars_all_iff:
  "from_chars_all base bits s = Some v \<longleftrightarrow>
     s \<noteq> [] \<and> (\<forall>c\<in>set s. is_digit_in base c) \<and> v = digits_value base s 0 \<and> v < 2 ^ bits"
  by (cases "\<forall>c\<in>set s. is_digit_in base c")
    (auto simp: from_chars_all_def from_chars_def Let_def takeWhile_eq_all_conv[THEN iffD2])

end
