(* ===== verification/Machine.thy ===== *)
theory Machine
  imports Text
begin

text \<open>
  The data model of src/src/bme_core.hpp: registers, outcomes, execution events, history rows
  and traces, the limits and flag masks (bme_core.hpp and os.hpp), and the name and backend
  tables of bme_core.cpp. Fixed-size arrays are lists; \<open>wf_registers\<close> states their lengths.
\<close>

unbundle bit_operations_syntax

section \<open>Constants\<close>

definition DEFAULT_MAX_STEPS :: nat where "DEFAULT_MAX_STEPS = 50000"
definition MAX_STEPS_LIMIT :: nat where "MAX_STEPS_LIMIT = 1000000"
definition DEFAULT_FPU_CONTROL_WORD :: u16 where "DEFAULT_FPU_CONTROL_WORD = 0x037F"
definition DEFAULT_MXCSR :: u32 where "DEFAULT_MXCSR = 0x1F80"
definition GPR_COUNT :: nat where "GPR_COUNT = 16"

definition CF :: u64 where "CF = 1"
definition PF :: u64 where "PF = 4"
definition AF :: u64 where "AF = 16"
definition ZF :: u64 where "ZF = 64"
definition SF :: u64 where "SF = 128"
definition DF :: u64 where "DF = 1024"
definition OF :: u64 where "OF = 2048"

definition RFLAGS_STATUS_MASK :: u64 where
  "RFLAGS_STATUS_MASK = CF OR PF OR AF OR ZF OR SF OR DF OR OF"
definition RFLAGS_TRAP_FLAG :: u64 where "RFLAGS_TRAP_FLAG = 0x100"
definition RFLAGS_RESUME_FLAG :: u64 where "RFLAGS_RESUME_FLAG = 0x10000"
definition RFLAGS_INTERRUPT_FLAG :: u64 where "RFLAGS_INTERRUPT_FLAG = 0x200"
definition RFLAGS_RESERVED_BIT1 :: u64 where "RFLAGS_RESERVED_BIT1 = 0x2"
definition MXCSR_DEFINED_MASK :: u64 where "MXCSR_DEFINED_MASK = 0xFFFF"
definition MXCSR_FALLBACK_MASK :: u32 where "MXCSR_FALLBACK_MASK = 0xFFBF"

definition SCRATCH_STACK_BYTES :: u64 where "SCRATCH_STACK_BYTES = 0x10000"
definition SCRATCH_STACK_HEADROOM :: u64 where "SCRATCH_STACK_HEADROOM = 0x100"
definition SCRATCH_DATA_BYTES :: u64 where "SCRATCH_DATA_BYTES = 0x10000"
definition SCRATCH_DATA_RESERVE_BASE :: u64 where "SCRATCH_DATA_RESERVE_BASE = 0x10000000"

section \<open>Enumerations\<close>

datatype Reg =
  RAX | RBX | RCX | RDX | RSI | RDI | RBP | RSP
  | R8 | R9 | R10 | R11 | R12 | R13 | R14 | R15 | RIP | RFLAGS

definition ALL_REGS :: "Reg list" where
  "ALL_REGS = [RAX, RBX, RCX, RDX, RSI, RDI, RBP, RSP,
     R8, R9, R10, R11, R12, R13, R14, R15, RIP, RFLAGS]"

text \<open>The underlying value of the enumerator, as in \<open>(std::size_t)reg\<close>.\<close>

fun reg_index :: "Reg \<Rightarrow> nat" where
  "reg_index RAX = 0" | "reg_index RBX = 1" | "reg_index RCX = 2" | "reg_index RDX = 3"
| "reg_index RSI = 4" | "reg_index RDI = 5" | "reg_index RBP = 6" | "reg_index RSP = 7"
| "reg_index R8 = 8" | "reg_index R9 = 9" | "reg_index R10 = 10" | "reg_index R11 = 11"
| "reg_index R12 = 12" | "reg_index R13 = 13" | "reg_index R14 = 14" | "reg_index R15 = 15"
| "reg_index RIP = 16" | "reg_index RFLAGS = 17"

datatype Outcome = Idle | Error | Finished | Faulted | AbortedCap | Stopped

datatype FaultAccess = AccessNone | Read | Write | Execute | Unknown

datatype DisasmSyntax = Intel | ATT

datatype DisasmBackend = Zydis | Bddisasm | Capstone | Xed

fun backend_index :: "DisasmBackend \<Rightarrow> nat" where
  "backend_index Zydis = 0" | "backend_index Bddisasm = 1"
| "backend_index Capstone = 2" | "backend_index Xed = 3"

text \<open>The order of the enumerators, which the backend tables and the History tabs follow.\<close>

instantiation DisasmBackend :: linorder
begin

definition less_eq_DisasmBackend :: "DisasmBackend \<Rightarrow> DisasmBackend \<Rightarrow> bool" where
  "less_eq_DisasmBackend a b \<longleftrightarrow> backend_index a \<le> backend_index b"

definition less_DisasmBackend :: "DisasmBackend \<Rightarrow> DisasmBackend \<Rightarrow> bool" where
  "less_DisasmBackend a b \<longleftrightarrow> backend_index a < backend_index b"

instance
proof
  fix x y z :: DisasmBackend
  show "x < y \<longleftrightarrow> x \<le> y \<and> \<not> y \<le> x"
    by (auto simp: less_eq_DisasmBackend_def less_DisasmBackend_def)
  show "x \<le> x" by (simp add: less_eq_DisasmBackend_def)
  show "x \<le> y \<Longrightarrow> y \<le> z \<Longrightarrow> x \<le> z" by (simp add: less_eq_DisasmBackend_def)
  show "x \<le> y \<Longrightarrow> y \<le> x \<Longrightarrow> x = y"
    by (cases x; cases y) (simp_all add: less_eq_DisasmBackend_def)
  show "x \<le> y \<or> y \<le> x" by (auto simp: less_eq_DisasmBackend_def)
qed

end

datatype OutputFormat = TextFormat | JsonFormat

datatype ExecutionEventKind = Completed | EventFaulted

datatype HistoryRowKind = Reached | RowFaulted | NotReached | Data

section \<open>Structures\<close>

record TrackMask =
  track_gpr :: bool
  track_rip :: bool
  track_rflags :: bool
  track_xmm :: bool
  track_x87 :: bool

record GPRSeed =
  full :: string
  dword :: string
  word16 :: string
  byte_high :: string
  byte_low :: string

record FloatingEnvironmentSeed =
  seed_mxcsr :: string
  seed_fpu_control_word :: string

record Registers =
  gpr :: "u64 list"
  rip :: u64
  rflags :: u64
  xmm :: "(u64 \<times> u64) list"
  mxcsr :: u32
  st :: "u8 list list"
  fpu_control_word :: u16
  fpu_status_word :: u16
  fpu_tag_word_abridged :: u8

text \<open>The value-initialised structure \<open>Registers{}\<close>.\<close>

definition default_registers :: Registers where
  "default_registers =
     \<lparr>gpr = replicate 16 0, rip = 0, rflags = 0, xmm = replicate 16 (0, 0), mxcsr = DEFAULT_MXCSR,
      st = replicate 8 (replicate 10 0), fpu_control_word = DEFAULT_FPU_CONTROL_WORD,
      fpu_status_word = 0, fpu_tag_word_abridged = 0\<rparr>"

definition wf_registers :: "Registers \<Rightarrow> bool" where
  "wf_registers r \<longleftrightarrow> length (gpr r) = 16 \<and> length (xmm r) = 16 \<and> length (st r) = 8
     \<and> (\<forall>b\<in>set (st r). length b = 10)"

text \<open>\<open>Registers::operator[]\<close>, the const overload and, as an update, the reference overload.\<close>

definition reg_get :: "Registers \<Rightarrow> Reg \<Rightarrow> u64" where
  "reg_get r reg =
     (case reg of RIP \<Rightarrow> rip r | RFLAGS \<Rightarrow> rflags r | _ \<Rightarrow> gpr r ! reg_index reg)"

definition reg_set :: "Registers \<Rightarrow> Reg \<Rightarrow> u64 \<Rightarrow> Registers" where
  "reg_set r reg v =
     (case reg of RIP \<Rightarrow> r\<lparr>rip := v\<rparr> | RFLAGS \<Rightarrow> r\<lparr>rflags := v\<rparr>
      | _ \<Rightarrow> r\<lparr>gpr := (gpr r)[reg_index reg := v]\<rparr>)"

record ExecutionEvent =
  ev_rip :: u64
  ev_registers :: Registers
  ev_kind :: ExecutionEventKind

record HistoryRow =
  row_rip :: u64
  row_text :: string
  row_offset :: u64
  row_length :: u64
  row_kind :: HistoryRowKind
  row_event :: "nat option"

text \<open>\<open>struct CLI\<close>; the file name and the bytes are optional.\<close>

record CLI =
  cli_bytes :: "string option"
  cli_input_file :: "string option"
  cli_run :: bool
  cli_quick :: bool
  cli_format :: OutputFormat
  cli_pretty_json :: bool
  cli_syntax :: DisasmSyntax
  cli_backend :: DisasmBackend
  cli_max_steps :: nat
  cli_track :: TrackMask
  cli_seed_gpr :: "GPRSeed list"
  cli_seed_flags :: u64
  cli_seed_xmm :: "string list"
  cli_seed_st :: "string list"
  cli_seed_env :: FloatingEnvironmentSeed

definition empty_gpr_seed :: GPRSeed where
  "empty_gpr_seed = \<lparr>full = [], dword = [], word16 = [], byte_high = [], byte_low = []\<rparr>"

definition default_cli :: CLI where
  "default_cli =
     \<lparr>cli_bytes = None, cli_input_file = None, cli_run = False, cli_quick = False,
      cli_format = TextFormat, cli_pretty_json = False, cli_syntax = Intel, cli_backend = Zydis,
      cli_max_steps = DEFAULT_MAX_STEPS,
      cli_track = \<lparr>track_gpr = False, track_rip = False, track_rflags = False, track_xmm = False,
        track_x87 = False\<rparr>,
      cli_seed_gpr = replicate 16 empty_gpr_seed, cli_seed_flags = 0,
      cli_seed_xmm = replicate 16 [], cli_seed_st = replicate 8 [],
      cli_seed_env = \<lparr>seed_mxcsr = [], seed_fpu_control_word = []\<rparr>\<rparr>"

section \<open>Name tables of bme\_core.cpp\<close>

definition REG_NAMES :: "string list" where
  "REG_NAMES = [''RAX'', ''RBX'', ''RCX'', ''RDX'', ''RSI'', ''RDI'', ''RBP'', ''RSP'',
     ''R8'', ''R9'', ''R10'', ''R11'', ''R12'', ''R13'', ''R14'', ''R15'', ''RIP'', ''RFLAGS'']"

definition GPR_NAMES_32 :: "string list" where
  "GPR_NAMES_32 = [''EAX'', ''EBX'', ''ECX'', ''EDX'', ''ESI'', ''EDI'', ''EBP'', ''ESP'',
     ''R8D'', ''R9D'', ''R10D'', ''R11D'', ''R12D'', ''R13D'', ''R14D'', ''R15D'']"

definition GPR_NAMES_16 :: "string list" where
  "GPR_NAMES_16 = [''AX'', ''BX'', ''CX'', ''DX'', ''SI'', ''DI'', ''BP'', ''SP'',
     ''R8W'', ''R9W'', ''R10W'', ''R11W'', ''R12W'', ''R13W'', ''R14W'', ''R15W'']"

definition GPR_NAMES_8L :: "string list" where
  "GPR_NAMES_8L = [''AL'', ''BL'', ''CL'', ''DL'', ''SIL'', ''DIL'', ''BPL'', ''SPL'',
     ''R8B'', ''R9B'', ''R10B'', ''R11B'', ''R12B'', ''R13B'', ''R14B'', ''R15B'']"

definition GPR_NAMES_8H :: "string list" where
  "GPR_NAMES_8H = [''AH'', ''BH'', ''CH'', ''DH'']"

definition STATUS_FLAGS :: "(string \<times> u64) list" where
  "STATUS_FLAGS = [(''OF'', OF), (''DF'', DF), (''SF'', SF), (''ZF'', ZF), (''AF'', AF),
     (''PF'', PF), (''CF'', CF)]"

record BackendInfo =
  backend_label :: string
  backend_cli :: string
  intel_syntax :: bool
  att_syntax :: bool

definition BACKENDS :: "BackendInfo list" where
  "BACKENDS =
     [\<lparr>backend_label = ''Zydis'', backend_cli = ''zydis'', intel_syntax = True, att_syntax = True\<rparr>,
      \<lparr>backend_label = ''bddisasm'', backend_cli = ''bddisasm'', intel_syntax = True, att_syntax = False\<rparr>,
      \<lparr>backend_label = ''Capstone'', backend_cli = ''capstone'', intel_syntax = True, att_syntax = True\<rparr>,
      \<lparr>backend_label = ''XED'', backend_cli = ''xed'', intel_syntax = True, att_syntax = True\<rparr>]"

definition ALL_BACKENDS :: "DisasmBackend list" where
  "ALL_BACKENDS = [Zydis, Bddisasm, Capstone, Xed]"

definition backend_info :: "DisasmBackend \<Rightarrow> BackendInfo" where
  "backend_info backend = BACKENDS ! backend_index backend"

text \<open>\<open>(DisasmBackend)n\<close>, the cast from the underlying type, on the enumerators' values.\<close>

definition backend_of_index :: "nat \<Rightarrow> DisasmBackend" where
  "backend_of_index n = (if n = 0 then Zydis else if n = 1 then Bddisasm else if n = 2 then Capstone else Xed)"

fun find_index :: "('a \<Rightarrow> bool) \<Rightarrow> 'a list \<Rightarrow> nat" where
  "find_index P [] = 0"
| "find_index P (x # xs) = (if P x then 0 else Suc (find_index P xs))"

definition backend_from_cli :: "string \<Rightarrow> DisasmBackend" where
  "backend_from_cli name =
     (let found = find_index (\<lambda>info. backend_cli info = name) BACKENDS
      in if found = length BACKENDS then Zydis else backend_of_index found)"

definition backend_supports :: "DisasmBackend \<Rightarrow> DisasmSyntax \<Rightarrow> bool" where
  "backend_supports backend syntax =
     (let info = backend_info backend
      in if syntax = ATT then att_syntax info else intel_syntax info)"

section \<open>Facts\<close>

lemma reg_get_set_same [simp]:
  "wf_registers r \<Longrightarrow> reg_get (reg_set r reg v) reg = v"
  by (cases reg) (auto simp: reg_get_def reg_set_def wf_registers_def)

lemma reg_get_set_other [simp]:
  "reg \<noteq> reg' \<Longrightarrow> reg_get (reg_set r reg v) reg' = reg_get r reg'"
  by (cases reg; cases reg') (simp_all add: reg_get_def reg_set_def)

lemma wf_reg_set [simp]: "wf_registers (reg_set r reg v) = wf_registers r"
  by (cases reg) (simp_all add: reg_set_def wf_registers_def)

lemma wf_default_registers [simp]: "wf_registers default_registers"
  by (simp add: wf_registers_def default_registers_def)

lemma backend_supports_Intel [simp]: "backend_supports b Intel"
  by (cases b) (simp_all add: backend_supports_def backend_info_def BACKENDS_def Let_def)

lemma backend_supports_ATT [simp]: "backend_supports b ATT \<longleftrightarrow> b \<noteq> Bddisasm"
  by (cases b) (simp_all add: backend_supports_def backend_info_def BACKENDS_def Let_def)

lemma backend_of_index_index [simp]: "backend_of_index (backend_index b) = b"
  by (cases b) (simp_all add: backend_of_index_def)

lemma sorted_ALL_BACKENDS: "sorted_wrt (<) ALL_BACKENDS \<and> set ALL_BACKENDS = UNIV"
proof
  show "sorted_wrt (<) ALL_BACKENDS"
    by (simp add: ALL_BACKENDS_def less_DisasmBackend_def)
  show "set ALL_BACKENDS = UNIV"
    using DisasmBackend.exhaust by (auto simp: ALL_BACKENDS_def)
qed

lemma backend_from_cli_roundtrip: "backend_from_cli (backend_cli (backend_info b)) = b"
  by (cases b) (simp_all add: backend_from_cli_def backend_info_def BACKENDS_def backend_of_index_def Let_def)

end
