(* ===== verification/Cpu.thy ===== *)
theory Cpu
  imports Machine "HOL-Library.Product_Lexorder"
begin

text \<open>
  The processor fingerprint of src/src/cpu.hpp and src/src/cpu.cpp. \<open>CPUQuerySource\<close>, the virtual
  interface to \<open>cpuid\<close> and \<open>xgetbv\<close>, is the record \<open>CPUQuerySource\<close> of two functions;
  \<open>query_cpu_fingerprint\<close> is composed of one definition per block of the source, each passing the
  fingerprint on.
\<close>

section \<open>Data\<close>

datatype CPUCaptureScope = HostVisibleProcess

record CPUIDRegisters =
  eax :: u32
  ebx :: u32
  ecx :: u32
  edx :: u32

record CPUQuerySource =
  cpuid :: "u32 \<Rightarrow> u32 \<Rightarrow> CPUIDRegisters"
  xgetbv :: "u32 \<Rightarrow> u64"

record CPUIDRecord =
  rec_leaf :: u32
  rec_subleaf :: u32
  rec_registers :: CPUIDRegisters

record CPUFingerprint =
  capture_scope :: CPUCaptureScope
  execution_cpu_attributed :: bool
  vendor :: string
  brand :: string
  family :: "u32 option"
  model :: "u32 option"
  stepping :: "u32 option"
  maximum_basic_leaf :: u32
  maximum_extended_leaf :: u32
  physical_address_width :: "u8 option"
  linear_address_width :: "u8 option"
  hypervisor_present :: bool
  hypervisor_vendor :: string
  hypervisor_interface :: string
  cpuid_features :: "string list"
  xcr0_supported :: "u64 option"
  xss_supported :: "u64 option"
  xcr0 :: "u64 option"
  enabled_xstate :: "string list"
  raw_cpuid :: "CPUIDRecord list"

definition default_fingerprint :: CPUFingerprint where
  "default_fingerprint =
     \<lparr>capture_scope = HostVisibleProcess, execution_cpu_attributed = False, vendor = [], brand = [],
      family = None, model = None, stepping = None, maximum_basic_leaf = 0, maximum_extended_leaf = 0,
      physical_address_width = None, linear_address_width = None, hypervisor_present = False,
      hypervisor_vendor = [], hypervisor_interface = [], cpuid_features = [], xcr0_supported = None,
      xss_supported = None, xcr0 = None, enabled_xstate = [], raw_cpuid = []\<rparr>"

section \<open>Tables\<close>

definition CPUID_VENDOR_LEAF :: u32 where "CPUID_VENDOR_LEAF = 0"
definition CPUID_SIGNATURE_LEAF :: u32 where "CPUID_SIGNATURE_LEAF = 1"
definition CPUID_STRUCTURED_FEATURES_LEAF :: u32 where "CPUID_STRUCTURED_FEATURES_LEAF = 7"
definition CPUID_XSTATE_LEAF :: u32 where "CPUID_XSTATE_LEAF = 0xD"
definition CPUID_HYPERVISOR_LEAF :: u32 where "CPUID_HYPERVISOR_LEAF = 0x40000000"
definition CPUID_HYPERVISOR_INTERFACE :: u32 where "CPUID_HYPERVISOR_INTERFACE = 0x40000001"
definition CPUID_EXTENDED_LIMIT_LEAF :: u32 where "CPUID_EXTENDED_LIMIT_LEAF = 0x80000000"
definition CPUID_EXTENDED_FEATURES_LEAF :: u32 where "CPUID_EXTENDED_FEATURES_LEAF = 0x80000001"
definition CPUID_BRAND_FIRST_LEAF :: u32 where "CPUID_BRAND_FIRST_LEAF = 0x80000002"
definition CPUID_BRAND_LAST_LEAF :: u32 where "CPUID_BRAND_LAST_LEAF = 0x80000004"
definition CPUID_ADDRESS_WIDTH_LEAF :: u32 where "CPUID_ADDRESS_WIDTH_LEAF = 0x80000008"
definition CPUID_MAX_STRUCTURED_FEATURE_SUBLEAF :: u32 where "CPUID_MAX_STRUCTURED_FEATURE_SUBLEAF = 128"
definition CPUID_XSAVE_MASK :: u32 where "CPUID_XSAVE_MASK = 2 ^ 26"
definition CPUID_OSXSAVE_MASK :: u32 where "CPUID_OSXSAVE_MASK = 2 ^ 27"
definition CPUID_HYPERVISOR_MASK :: u32 where "CPUID_HYPERVISOR_MASK = 2 ^ 31"

datatype CPUIDRegister = EAX | EBX | ECX | EDX

type_synonym CPUIDFeatureDefinition = "u32 \<times> u32 \<times> CPUIDRegister \<times> nat \<times> string"

definition CPUID_FEATURES :: "CPUIDFeatureDefinition list" where
  "CPUID_FEATURES =
     [(CPUID_SIGNATURE_LEAF, 0, EDX, 0, ''fpu''),
      (CPUID_SIGNATURE_LEAF, 0, EDX, 4, ''tsc''),
      (CPUID_SIGNATURE_LEAF, 0, EDX, 5, ''msr''),
      (CPUID_SIGNATURE_LEAF, 0, EDX, 6, ''pae''),
      (CPUID_SIGNATURE_LEAF, 0, EDX, 8, ''cx8''),
      (CPUID_SIGNATURE_LEAF, 0, EDX, 9, ''apic''),
      (CPUID_SIGNATURE_LEAF, 0, EDX, 11, ''sep''),
      (CPUID_SIGNATURE_LEAF, 0, EDX, 12, ''mtrr''),
      (CPUID_SIGNATURE_LEAF, 0, EDX, 13, ''pge''),
      (CPUID_SIGNATURE_LEAF, 0, EDX, 15, ''cmov''),
      (CPUID_SIGNATURE_LEAF, 0, EDX, 19, ''clfsh''),
      (CPUID_SIGNATURE_LEAF, 0, EDX, 23, ''mmx''),
      (CPUID_SIGNATURE_LEAF, 0, EDX, 24, ''fxsr''),
      (CPUID_SIGNATURE_LEAF, 0, EDX, 25, ''sse''),
      (CPUID_SIGNATURE_LEAF, 0, EDX, 26, ''sse2''),
      (CPUID_SIGNATURE_LEAF, 0, EDX, 28, ''htt''),
      (CPUID_SIGNATURE_LEAF, 0, ECX, 0, ''sse3''),
      (CPUID_SIGNATURE_LEAF, 0, ECX, 1, ''pclmulqdq''),
      (CPUID_SIGNATURE_LEAF, 0, ECX, 3, ''monitor''),
      (CPUID_SIGNATURE_LEAF, 0, ECX, 5, ''vmx''),
      (CPUID_SIGNATURE_LEAF, 0, ECX, 6, ''smx''),
      (CPUID_SIGNATURE_LEAF, 0, ECX, 9, ''ssse3''),
      (CPUID_SIGNATURE_LEAF, 0, ECX, 12, ''fma''),
      (CPUID_SIGNATURE_LEAF, 0, ECX, 13, ''cx16''),
      (CPUID_SIGNATURE_LEAF, 0, ECX, 17, ''pcid''),
      (CPUID_SIGNATURE_LEAF, 0, ECX, 19, ''sse4_1''),
      (CPUID_SIGNATURE_LEAF, 0, ECX, 20, ''sse4_2''),
      (CPUID_SIGNATURE_LEAF, 0, ECX, 21, ''x2apic''),
      (CPUID_SIGNATURE_LEAF, 0, ECX, 22, ''movbe''),
      (CPUID_SIGNATURE_LEAF, 0, ECX, 23, ''popcnt''),
      (CPUID_SIGNATURE_LEAF, 0, ECX, 24, ''tsc_deadline''),
      (CPUID_SIGNATURE_LEAF, 0, ECX, 25, ''aes''),
      (CPUID_SIGNATURE_LEAF, 0, ECX, 26, ''xsave''),
      (CPUID_SIGNATURE_LEAF, 0, ECX, 27, ''osxsave''),
      (CPUID_SIGNATURE_LEAF, 0, ECX, 28, ''avx''),
      (CPUID_SIGNATURE_LEAF, 0, ECX, 29, ''f16c''),
      (CPUID_SIGNATURE_LEAF, 0, ECX, 30, ''rdrand''),
      (CPUID_SIGNATURE_LEAF, 0, ECX, 31, ''hypervisor''),
      (CPUID_STRUCTURED_FEATURES_LEAF, 0, EBX, 0, ''fsgsbase''),
      (CPUID_STRUCTURED_FEATURES_LEAF, 0, EBX, 2, ''sgx''),
      (CPUID_STRUCTURED_FEATURES_LEAF, 0, EBX, 3, ''bmi1''),
      (CPUID_STRUCTURED_FEATURES_LEAF, 0, EBX, 4, ''hle''),
      (CPUID_STRUCTURED_FEATURES_LEAF, 0, EBX, 5, ''avx2''),
      (CPUID_STRUCTURED_FEATURES_LEAF, 0, EBX, 7, ''smep''),
      (CPUID_STRUCTURED_FEATURES_LEAF, 0, EBX, 8, ''bmi2''),
      (CPUID_STRUCTURED_FEATURES_LEAF, 0, EBX, 9, ''erms''),
      (CPUID_STRUCTURED_FEATURES_LEAF, 0, EBX, 10, ''invpcid''),
      (CPUID_STRUCTURED_FEATURES_LEAF, 0, EBX, 11, ''rtm''),
      (CPUID_STRUCTURED_FEATURES_LEAF, 0, EBX, 14, ''mpx''),
      (CPUID_STRUCTURED_FEATURES_LEAF, 0, EBX, 16, ''avx512f''),
      (CPUID_STRUCTURED_FEATURES_LEAF, 0, EBX, 17, ''avx512dq''),
      (CPUID_STRUCTURED_FEATURES_LEAF, 0, EBX, 18, ''rdseed''),
      (CPUID_STRUCTURED_FEATURES_LEAF, 0, EBX, 19, ''adx''),
      (CPUID_STRUCTURED_FEATURES_LEAF, 0, EBX, 20, ''smap''),
      (CPUID_STRUCTURED_FEATURES_LEAF, 0, EBX, 21, ''avx512_ifma''),
      (CPUID_STRUCTURED_FEATURES_LEAF, 0, EBX, 23, ''clflushopt''),
      (CPUID_STRUCTURED_FEATURES_LEAF, 0, EBX, 24, ''clwb''),
      (CPUID_STRUCTURED_FEATURES_LEAF, 0, EBX, 25, ''intel_pt''),
      (CPUID_STRUCTURED_FEATURES_LEAF, 0, EBX, 28, ''avx512cd''),
      (CPUID_STRUCTURED_FEATURES_LEAF, 0, EBX, 29, ''sha''),
      (CPUID_STRUCTURED_FEATURES_LEAF, 0, EBX, 30, ''avx512bw''),
      (CPUID_STRUCTURED_FEATURES_LEAF, 0, EBX, 31, ''avx512vl''),
      (CPUID_STRUCTURED_FEATURES_LEAF, 0, ECX, 1, ''avx512_vbmi''),
      (CPUID_STRUCTURED_FEATURES_LEAF, 0, ECX, 2, ''umip''),
      (CPUID_STRUCTURED_FEATURES_LEAF, 0, ECX, 3, ''pku''),
      (CPUID_STRUCTURED_FEATURES_LEAF, 0, ECX, 4, ''ospke''),
      (CPUID_STRUCTURED_FEATURES_LEAF, 0, ECX, 5, ''waitpkg''),
      (CPUID_STRUCTURED_FEATURES_LEAF, 0, ECX, 6, ''avx512_vbmi2''),
      (CPUID_STRUCTURED_FEATURES_LEAF, 0, ECX, 7, ''cet_ss''),
      (CPUID_STRUCTURED_FEATURES_LEAF, 0, ECX, 8, ''gfni''),
      (CPUID_STRUCTURED_FEATURES_LEAF, 0, ECX, 9, ''vaes''),
      (CPUID_STRUCTURED_FEATURES_LEAF, 0, ECX, 10, ''vpclmulqdq''),
      (CPUID_STRUCTURED_FEATURES_LEAF, 0, ECX, 11, ''avx512_vnni''),
      (CPUID_STRUCTURED_FEATURES_LEAF, 0, ECX, 12, ''avx512_bitalg''),
      (CPUID_STRUCTURED_FEATURES_LEAF, 0, ECX, 14, ''avx512_vpopcntdq''),
      (CPUID_STRUCTURED_FEATURES_LEAF, 0, ECX, 16, ''la57''),
      (CPUID_STRUCTURED_FEATURES_LEAF, 0, ECX, 22, ''rdpid''),
      (CPUID_STRUCTURED_FEATURES_LEAF, 0, ECX, 25, ''cldemote''),
      (CPUID_STRUCTURED_FEATURES_LEAF, 0, ECX, 27, ''movdiri''),
      (CPUID_STRUCTURED_FEATURES_LEAF, 0, ECX, 28, ''movdir64b''),
      (CPUID_STRUCTURED_FEATURES_LEAF, 0, ECX, 29, ''enqcmd''),
      (CPUID_STRUCTURED_FEATURES_LEAF, 0, ECX, 30, ''sgx_lc''),
      (CPUID_STRUCTURED_FEATURES_LEAF, 0, ECX, 31, ''pks''),
      (CPUID_STRUCTURED_FEATURES_LEAF, 0, EDX, 4, ''fsrm''),
      (CPUID_STRUCTURED_FEATURES_LEAF, 0, EDX, 5, ''uintr''),
      (CPUID_STRUCTURED_FEATURES_LEAF, 0, EDX, 8, ''avx512_vp2intersect''),
      (CPUID_STRUCTURED_FEATURES_LEAF, 0, EDX, 10, ''md_clear''),
      (CPUID_STRUCTURED_FEATURES_LEAF, 0, EDX, 14, ''serialize''),
      (CPUID_STRUCTURED_FEATURES_LEAF, 0, EDX, 15, ''hybrid''),
      (CPUID_STRUCTURED_FEATURES_LEAF, 0, EDX, 16, ''tsxldtrk''),
      (CPUID_STRUCTURED_FEATURES_LEAF, 0, EDX, 18, ''pconfig''),
      (CPUID_STRUCTURED_FEATURES_LEAF, 0, EDX, 20, ''cet_ibt''),
      (CPUID_STRUCTURED_FEATURES_LEAF, 0, EDX, 22, ''amx_bf16''),
      (CPUID_STRUCTURED_FEATURES_LEAF, 0, EDX, 23, ''avx512_fp16''),
      (CPUID_STRUCTURED_FEATURES_LEAF, 0, EDX, 24, ''amx_tile''),
      (CPUID_STRUCTURED_FEATURES_LEAF, 0, EDX, 25, ''amx_int8''),
      (CPUID_STRUCTURED_FEATURES_LEAF, 0, EDX, 26, ''ibrs_ibpb''),
      (CPUID_STRUCTURED_FEATURES_LEAF, 0, EDX, 27, ''stibp''),
      (CPUID_STRUCTURED_FEATURES_LEAF, 0, EDX, 28, ''l1d_flush''),
      (CPUID_STRUCTURED_FEATURES_LEAF, 0, EDX, 29, ''ia32_arch_capabilities''),
      (CPUID_STRUCTURED_FEATURES_LEAF, 0, EDX, 30, ''ia32_core_capabilities''),
      (CPUID_STRUCTURED_FEATURES_LEAF, 0, EDX, 31, ''ssbd''),
      (CPUID_EXTENDED_FEATURES_LEAF, 0, ECX, 0, ''lahf_lm''),
      (CPUID_EXTENDED_FEATURES_LEAF, 0, ECX, 2, ''svm''),
      (CPUID_EXTENDED_FEATURES_LEAF, 0, ECX, 5, ''abm''),
      (CPUID_EXTENDED_FEATURES_LEAF, 0, ECX, 6, ''sse4a''),
      (CPUID_EXTENDED_FEATURES_LEAF, 0, ECX, 8, ''prefetchw''),
      (CPUID_EXTENDED_FEATURES_LEAF, 0, ECX, 11, ''xop''),
      (CPUID_EXTENDED_FEATURES_LEAF, 0, ECX, 16, ''fma4''),
      (CPUID_EXTENDED_FEATURES_LEAF, 0, ECX, 21, ''tbm''),
      (CPUID_EXTENDED_FEATURES_LEAF, 0, ECX, 22, ''topoext''),
      (CPUID_EXTENDED_FEATURES_LEAF, 0, EDX, 11, ''syscall''),
      (CPUID_EXTENDED_FEATURES_LEAF, 0, EDX, 20, ''nx''),
      (CPUID_EXTENDED_FEATURES_LEAF, 0, EDX, 22, ''mmxext''),
      (CPUID_EXTENDED_FEATURES_LEAF, 0, EDX, 25, ''fxsr_opt''),
      (CPUID_EXTENDED_FEATURES_LEAF, 0, EDX, 26, ''pdpe1gb''),
      (CPUID_EXTENDED_FEATURES_LEAF, 0, EDX, 27, ''rdtscp''),
      (CPUID_EXTENDED_FEATURES_LEAF, 0, EDX, 29, ''long_mode''),
      (CPUID_EXTENDED_FEATURES_LEAF, 0, EDX, 30, ''3dnowext''),
      (CPUID_EXTENDED_FEATURES_LEAF, 0, EDX, 31, ''3dnow'')]"

definition XSTATE_COMPONENTS :: "(nat \<times> string) list" where
  "XSTATE_COMPONENTS =
     [(0, ''x87''), (1, ''sse''), (2, ''avx''), (3, ''mpx_bndregs''),
      (4, ''mpx_bndcsr''), (5, ''avx512_opmask''), (6, ''avx512_zmm_hi256''), (7, ''avx512_hi16_zmm''),
      (8, ''processor_trace''), (9, ''pkru''), (10, ''pasid''), (11, ''cet_user''),
      (12, ''cet_supervisor''), (13, ''hdc''), (14, ''uintr''), (15, ''lbr''),
      (16, ''hwp''), (17, ''amx_tilecfg''), (18, ''amx_tiledata''), (19, ''apx'')]"

section \<open>Decoding\<close>

definition CPUID_PADDING :: "char \<Rightarrow> bool" where
  "CPUID_PADDING c \<longleftrightarrow> c = char_of (0 :: nat) \<or> c = CHR '' ''"

definition register_text :: "u32 \<Rightarrow> string" where
  "register_text value = map (\<lambda>i. char_of (unat (drop_bit (8 * i) value AND 0xFF))) [0..<4]"

definition brand_leaf_text :: "CPUIDRegisters \<Rightarrow> string" where
  "brand_leaf_text r =
     register_text (eax r) @ register_text (ebx r) @ register_text (ecx r) @ register_text (edx r)"

record CPUSignature =
  sig_family :: u32
  sig_model :: u32
  sig_stepping :: u32

definition decode_intel_signature :: "u32 \<Rightarrow> CPUSignature" where
  "decode_intel_signature value =
     (let base_family = drop_bit 8 value AND 0xF;
          base_model = drop_bit 4 value AND 0xF;
          extended_model = drop_bit 16 value AND 0xF;
          extended_family = drop_bit 20 value AND 0xFF
      in \<lparr>sig_family = (if base_family = 0xF then base_family + extended_family else base_family),
          sig_model = (if base_family = 0x6 \<or> base_family = 0xF then base_model + push_bit 4 extended_model
            else base_model),
          sig_stepping = value AND 0xF\<rparr>)"

definition decode_amd_signature :: "u32 \<Rightarrow> CPUSignature" where
  "decode_amd_signature value =
     (let base_family = drop_bit 8 value AND 0xF;
          base_model = drop_bit 4 value AND 0xF;
          extended_model = drop_bit 16 value AND 0xF;
          extended_family = drop_bit 20 value AND 0xFF
      in \<lparr>sig_family = (if base_family = 0xF then base_family + extended_family else base_family),
          sig_model = (if base_family = 0xF then base_model + push_bit 4 extended_model else base_model),
          sig_stepping = value AND 0xF\<rparr>)"

definition append_record :: "u32 \<Rightarrow> u32 \<Rightarrow> CPUIDRegisters \<Rightarrow> CPUFingerprint \<Rightarrow> CPUFingerprint" where
  "append_record leaf subleaf r fp =
     fp\<lparr>raw_cpuid := raw_cpuid fp @ [\<lparr>rec_leaf = leaf, rec_subleaf = subleaf, rec_registers = r\<rparr>]\<rparr>"

definition find_record :: "CPUIDRecord list \<Rightarrow> u32 \<Rightarrow> u32 \<Rightarrow> CPUIDRecord option" where
  "find_record records leaf subleaf = find (\<lambda>r. rec_leaf r = leaf \<and> rec_subleaf r = subleaf) records"

fun register_value :: "CPUIDRecord \<Rightarrow> CPUIDRegister \<Rightarrow> u32" where
  "register_value r EAX = eax (rec_registers r)"
| "register_value r EBX = ebx (rec_registers r)"
| "register_value r ECX = ecx (rec_registers r)"
| "register_value r EDX = edx (rec_registers r)"

definition decode_features :: "CPUFingerprint \<Rightarrow> CPUFingerprint" where
  "decode_features fp =
     foldl (\<lambda>fp (leaf, subleaf, reg, b, name).
         case find_record (raw_cpuid fp) leaf subleaf of
           None \<Rightarrow> fp
         | Some r \<Rightarrow>
             if register_value r reg AND push_bit b 1 \<noteq> 0
             then fp\<lparr>cpuid_features := cpuid_features fp @ [name]\<rparr> else fp)
       fp CPUID_FEATURES"

definition decode_enabled_xstate :: "CPUFingerprint \<Rightarrow> CPUFingerprint" where
  "decode_enabled_xstate fp =
     (case (xcr0_supported fp, xcr0 fp) of
        (Some supported, Some enabled) \<Rightarrow>
          foldl (\<lambda>fp (b, name).
              if (supported AND enabled) AND push_bit b 1 \<noteq> 0
              then fp\<lparr>enabled_xstate := enabled_xstate fp @ [name]\<rparr> else fp)
            fp XSTATE_COMPONENTS
      | _ \<Rightarrow> fp)"

section \<open>Queries\<close>

definition query_and_record ::
  "CPUQuerySource \<Rightarrow> u32 \<Rightarrow> u32 \<Rightarrow> CPUFingerprint \<Rightarrow> CPUIDRegisters \<times> CPUFingerprint" where
  "query_and_record source leaf subleaf fp =
     (let result = cpuid source leaf subleaf in (result, append_record leaf subleaf result fp))"

definition query_vendor :: "CPUQuerySource \<Rightarrow> CPUFingerprint \<Rightarrow> CPUFingerprint" where
  "query_vendor source fp =
     (let (v, fp) = query_and_record source CPUID_VENDOR_LEAF 0 fp
      in fp\<lparr>maximum_basic_leaf := eax v,
            vendor := rtrim CPUID_PADDING
              (vendor fp @ register_text (ebx v) @ register_text (edx v) @ register_text (ecx v))\<rparr>)"

text \<open>The result carries \<open>xsave_supported\<close> and \<open>osxsave_supported\<close>, which start out false.\<close>

definition query_signature :: "CPUQuerySource \<Rightarrow> CPUFingerprint \<Rightarrow> bool \<times> bool \<times> CPUFingerprint" where
  "query_signature source fp =
     (if maximum_basic_leaf fp \<ge> CPUID_SIGNATURE_LEAF
      then let (signature, fp) = query_and_record source CPUID_SIGNATURE_LEAF 0 fp;
               decoded = (if vendor fp = ''AuthenticAMD'' \<or> vendor fp = ''HygonGenuine''
                 then decode_amd_signature (eax signature) else decode_intel_signature (eax signature));
               fp = fp\<lparr>family := Some (sig_family decoded), model := Some (sig_model decoded),
                 stepping := Some (sig_stepping decoded),
                 hypervisor_present := (ecx signature AND CPUID_HYPERVISOR_MASK \<noteq> 0)\<rparr>
           in (ecx signature AND CPUID_XSAVE_MASK \<noteq> 0, ecx signature AND CPUID_OSXSAVE_MASK \<noteq> 0, fp)
      else (False, False, fp))"

definition query_structured :: "CPUQuerySource \<Rightarrow> CPUFingerprint \<Rightarrow> CPUFingerprint" where
  "query_structured source fp =
     (if maximum_basic_leaf fp \<ge> CPUID_STRUCTURED_FEATURES_LEAF
      then let (features, fp) = query_and_record source CPUID_STRUCTURED_FEATURES_LEAF 0 fp;
               maximum_subleaf = min (eax features) CPUID_MAX_STRUCTURED_FEATURE_SUBLEAF
           in foldl (\<lambda>fp subleaf. snd (query_and_record source CPUID_STRUCTURED_FEATURES_LEAF (word_of_nat subleaf) fp))
                fp [1..<Suc (unat maximum_subleaf)]
      else fp)"

definition query_xstate :: "CPUQuerySource \<Rightarrow> bool \<Rightarrow> bool \<Rightarrow> CPUFingerprint \<Rightarrow> CPUFingerprint" where
  "query_xstate source xsave_supported osxsave_supported fp =
     (if maximum_basic_leaf fp \<ge> CPUID_XSTATE_LEAF \<and> xsave_supported
      then let (x, fp) = query_and_record source CPUID_XSTATE_LEAF 0 fp;
               supported_xcr0 = push_bit 32 (ucast (edx x)) OR ucast (eax x);
               (y, fp) = query_and_record source CPUID_XSTATE_LEAF 1 (fp\<lparr>xcr0_supported := Some supported_xcr0\<rparr>);
               supported_xss = push_bit 32 (ucast (edx y)) OR ucast (ecx y);
               supported_state_components = supported_xcr0 OR supported_xss;
               fp = foldl (\<lambda>fp subleaf.
                   if supported_state_components AND push_bit subleaf 1 \<noteq> 0
                   then snd (query_and_record source CPUID_XSTATE_LEAF (word_of_nat subleaf) fp) else fp)
                 (fp\<lparr>xss_supported := Some supported_xss\<rparr>) [2..<64]
           in if osxsave_supported then fp\<lparr>xcr0 := Some (xgetbv source 0)\<rparr> else fp
      else fp)"

definition query_hypervisor :: "CPUQuerySource \<Rightarrow> CPUFingerprint \<Rightarrow> CPUFingerprint" where
  "query_hypervisor source fp =
     (if hypervisor_present fp
      then let (h, fp) = query_and_record source CPUID_HYPERVISOR_LEAF 0 fp;
               fp = fp\<lparr>hypervisor_vendor := rtrim CPUID_PADDING
                 (hypervisor_vendor fp @ register_text (ebx h) @ register_text (ecx h) @ register_text (edx h))\<rparr>
           in if eax h \<ge> CPUID_HYPERVISOR_INTERFACE
              then let (i, fp) = query_and_record source CPUID_HYPERVISOR_INTERFACE 0 fp
                   in if hypervisor_vendor fp = ''Microsoft Hv''
                      then fp\<lparr>hypervisor_interface := rtrim CPUID_PADDING
                        (hypervisor_interface fp @ register_text (eax i))\<rparr>
                      else fp
              else fp
      else fp)"

definition query_brand :: "CPUQuerySource \<Rightarrow> CPUFingerprint \<Rightarrow> CPUFingerprint" where
  "query_brand source fp =
     (if maximum_extended_leaf fp \<ge> CPUID_BRAND_LAST_LEAF
      then let (text, fp) = foldl (\<lambda>(text, fp) i.
                   let (r, fp) = query_and_record source (CPUID_BRAND_FIRST_LEAF + word_of_nat i) 0 fp
                   in (text @ brand_leaf_text r, fp))
                 ([], fp) [0..<Suc (unat (CPUID_BRAND_LAST_LEAF - CPUID_BRAND_FIRST_LEAF))]
           in fp\<lparr>brand := trim CPUID_PADDING text\<rparr>
      else fp)"

definition query_extended :: "CPUQuerySource \<Rightarrow> CPUFingerprint \<Rightarrow> CPUFingerprint" where
  "query_extended source fp =
     (let (extended, fp) = query_and_record source CPUID_EXTENDED_LIMIT_LEAF 0 fp;
          fp = fp\<lparr>maximum_extended_leaf := eax extended\<rparr>;
          fp = (if maximum_extended_leaf fp \<ge> CPUID_EXTENDED_FEATURES_LEAF
                then snd (query_and_record source CPUID_EXTENDED_FEATURES_LEAF 0 fp) else fp);
          fp = query_brand source fp
      in if maximum_extended_leaf fp \<ge> CPUID_ADDRESS_WIDTH_LEAF
         then let (widths, fp) = query_and_record source CPUID_ADDRESS_WIDTH_LEAF 0 fp
              in fp\<lparr>physical_address_width := Some (ucast (eax widths AND 0xFF)),
                    linear_address_width := Some (ucast (drop_bit 8 (eax widths) AND 0xFF))\<rparr>
         else fp)"

definition query_cpu_fingerprint :: "CPUQuerySource \<Rightarrow> CPUFingerprint" where
  "query_cpu_fingerprint source =
     (let fp = query_vendor source default_fingerprint;
          (xsave_supported, osxsave_supported, fp) = query_signature source fp;
          fp = query_structured source fp;
          fp = query_xstate source xsave_supported osxsave_supported fp;
          fp = query_hypervisor source fp;
          fp = query_extended source fp
      in decode_enabled_xstate (decode_features fp))"

text \<open>
  \<open>HostCPUQuerySource\<close>: what the two instructions leave in the registers (EAX, EBX, ECX and EDX; EAX and EDX) is
  the parameter. The Windows build reads the answers of \<open>__cpuidex\<close> as signed integers and gets XCR0 in one
  value from \<open>_xgetbv\<close>.
\<close>

record CPUInstructions =
  cpuid_instruction :: "u32 \<Rightarrow> u32 \<Rightarrow> u32 \<times> u32 \<times> u32 \<times> u32"
  xgetbv_instruction :: "u32 \<Rightarrow> u32 \<times> u32"

definition HostCPUQuerySource :: "CPUInstructions \<Rightarrow> CPUQuerySource" where
  "HostCPUQuerySource cpu =
     \<lparr>cpuid = (\<lambda>leaf subleaf. case cpuid_instruction cpu leaf subleaf of (a, b, c, d) \<Rightarrow> \<lparr>eax = a, ebx = b, ecx = c, edx = d\<rparr>),
      xgetbv = (\<lambda>i. case xgetbv_instruction cpu i of (a, d) \<Rightarrow> push_bit 32 (ucast d) OR ucast a)\<rparr>"

definition cpuidex :: "CPUInstructions \<Rightarrow> int \<Rightarrow> int \<Rightarrow> int list" where
  "cpuidex cpu leaf subleaf =
     (case cpuid_instruction cpu (word_of_int leaf) (word_of_int subleaf) of (a, b, c, d) \<Rightarrow> [sint a, sint b, sint c, sint d])"

definition HostCPUQuerySource_windows :: "CPUInstructions \<Rightarrow> CPUQuerySource" where
  "HostCPUQuerySource_windows cpu =
     \<lparr>cpuid = (\<lambda>leaf subleaf. let registers = cpuidex cpu (sint leaf) (sint subleaf)
        in \<lparr>eax = word_of_int (registers ! 0), ebx = word_of_int (registers ! 1), ecx = word_of_int (registers ! 2),
            edx = word_of_int (registers ! 3)\<rparr>),
      xgetbv = (\<lambda>i. case xgetbv_instruction cpu i of (a, d) \<Rightarrow> word_cat d a)\<rparr>"

text \<open>\<open>host_cpu_fingerprint\<close> queries the processor on the first call and keeps the answer in a static variable.\<close>

definition host_cpu_fingerprint_once :: "CPUInstructions \<Rightarrow> CPUFingerprint option \<Rightarrow> CPUFingerprint \<times> CPUFingerprint option" where
  "host_cpu_fingerprint_once cpu kept =
     (let result = (case kept of None \<Rightarrow> query_cpu_fingerprint (HostCPUQuerySource cpu) | Some fp \<Rightarrow> fp)
      in (result, Some result))"

lemma host_sources_agree: "HostCPUQuerySource_windows cpu = HostCPUQuerySource cpu"
proof -
  have "word_cat d a = push_bit 32 (ucast d) OR (ucast a :: u64)" for a d :: u32
    by (rule bit_word_eqI) (auto simp: bit_simps bit_word_cat_iff dest: bit_imp_le_length)
  then show ?thesis
    by (simp add: HostCPUQuerySource_windows_def HostCPUQuerySource_def cpuidex_def Let_def fun_eq_iff case_prod_beta)
qed

text \<open>Later calls answer as the first, even when the processor would not (another core, a changed mask).\<close>

lemma host_cpu_fingerprint_stable:
  "fst (host_cpu_fingerprint_once later (snd (host_cpu_fingerprint_once cpu None))) = query_cpu_fingerprint (HostCPUQuerySource cpu)"
  by (simp add: host_cpu_fingerprint_once_def Let_def)

text \<open>
  The one-line summary. \<open>hex_upper\<close> stands for fmt's \<open>{:X}\<close> and \<open>hex_16\<close> for its \<open>{:016X}\<close>.
\<close>

definition append_identity :: "(u32 \<Rightarrow> string) \<Rightarrow> string \<Rightarrow> u32 option \<Rightarrow> string \<Rightarrow> string" where
  "append_identity hex_upper name value details =
     (case value of
        None \<Rightarrow> details
      | Some v \<Rightarrow> details @ (if details \<noteq> [] then '' '' else []) @ name @ '' 0x'' @ hex_upper v)"

definition format_cpu_summary :: "(u32 \<Rightarrow> string) \<Rightarrow> (u64 \<Rightarrow> string) \<Rightarrow> CPUFingerprint \<Rightarrow> string" where
  "format_cpu_summary hex_upper hex_16 fp =
     (let summary = (if brand fp = [] then vendor fp else brand fp);
          summary = (if summary = [] then ''Unknown'' else summary);
          details = (if brand fp \<noteq> [] \<and> vendor fp \<noteq> [] then vendor fp else []);
          details = append_identity hex_upper ''family'' (family fp) details;
          details = append_identity hex_upper ''model'' (model fp) details;
          details = append_identity hex_upper ''stepping'' (stepping fp) details;
          details = (case xcr0 fp of
              None \<Rightarrow> details
            | Some x \<Rightarrow> (if details \<noteq> [] then details @ '', '' else details) @ ''XCR0 0x'' @ hex_16 x)
      in if details = [] then summary
         else if brand fp = [] then summary @ '' '' @ details
         else summary @ '' ('' @ details @ '')'')"

section \<open>The query plan\<close>

text \<open>
  Which leaves and subleaves are read, as a function of the answers. \<open>raw_cpuid\<close> is the list of the
  answers along this plan.
\<close>

definition record_of :: "CPUQuerySource \<Rightarrow> u32 \<times> u32 \<Rightarrow> CPUIDRecord" where
  "record_of source key =
     \<lparr>rec_leaf = fst key, rec_subleaf = snd key, rec_registers = cpuid source (fst key) (snd key)\<rparr>"

definition basic_limit :: "CPUQuerySource \<Rightarrow> u32" where
  "basic_limit source = eax (cpuid source 0 0)"

definition extended_limit :: "CPUQuerySource \<Rightarrow> u32" where
  "extended_limit source = eax (cpuid source 0x80000000 0)"

definition signature_bit :: "CPUQuerySource \<Rightarrow> nat \<Rightarrow> bool" where
  "signature_bit source n \<longleftrightarrow> basic_limit source \<ge> 1 \<and> bit (ecx (cpuid source 1 0)) n"

definition xcr0_support :: "CPUQuerySource \<Rightarrow> u64" where
  "xcr0_support source =
     push_bit 32 (ucast (edx (cpuid source 0xD 0))) OR ucast (eax (cpuid source 0xD 0))"

definition xss_support :: "CPUQuerySource \<Rightarrow> u64" where
  "xss_support source =
     push_bit 32 (ucast (edx (cpuid source 0xD 1))) OR ucast (ecx (cpuid source 0xD 1))"

definition xstate_known :: "CPUQuerySource \<Rightarrow> bool" where
  "xstate_known source \<longleftrightarrow> basic_limit source \<ge> 0xD \<and> signature_bit source 26"

definition structured_plan :: "CPUQuerySource \<Rightarrow> (u32 \<times> u32) list" where
  "structured_plan source =
     (if basic_limit source \<ge> 7
      then map (\<lambda>s. (7, word_of_nat s)) [0..<Suc (unat (min (eax (cpuid source 7 0)) 128))] else [])"

definition xstate_plan :: "CPUQuerySource \<Rightarrow> (u32 \<times> u32) list" where
  "xstate_plan source =
     (if xstate_known source
      then map (\<lambda>s. (0xD, word_of_nat s))
        (0 # 1 # filter (bit (xcr0_support source OR xss_support source)) [2..<64]) else [])"

definition hypervisor_plan :: "CPUQuerySource \<Rightarrow> (u32 \<times> u32) list" where
  "hypervisor_plan source =
     (if signature_bit source 31
      then (0x40000000, 0) # (if eax (cpuid source 0x40000000 0) \<ge> 0x40000001 then [(0x40000001, 0)] else [])
      else [])"

definition extended_plan :: "CPUQuerySource \<Rightarrow> (u32 \<times> u32) list" where
  "extended_plan source =
     (0x80000000, 0) #
     (if extended_limit source \<ge> 0x80000001 then [(0x80000001, 0)] else [])
     @ (if extended_limit source \<ge> 0x80000004 then [(0x80000002, 0), (0x80000003, 0), (0x80000004, 0)] else [])
     @ (if extended_limit source \<ge> 0x80000008 then [(0x80000008, 0)] else [])"

definition cpuid_plan :: "CPUQuerySource \<Rightarrow> (u32 \<times> u32) list" where
  "cpuid_plan source =
     (0, 0) # (if basic_limit source \<ge> 1 then [(1, 0)] else [])
     @ structured_plan source @ xstate_plan source @ hypervisor_plan source @ extended_plan source"

lemmas cpuid_leaves = CPUID_VENDOR_LEAF_def CPUID_SIGNATURE_LEAF_def CPUID_STRUCTURED_FEATURES_LEAF_def
  CPUID_XSTATE_LEAF_def CPUID_HYPERVISOR_LEAF_def CPUID_HYPERVISOR_INTERFACE_def
  CPUID_EXTENDED_LIMIT_LEAF_def CPUID_EXTENDED_FEATURES_LEAF_def CPUID_BRAND_FIRST_LEAF_def
  CPUID_BRAND_LAST_LEAF_def CPUID_ADDRESS_WIDTH_LEAF_def CPUID_MAX_STRUCTURED_FEATURE_SUBLEAF_def

lemma query_and_record_eq:
  "query_and_record source leaf subleaf fp =
     (cpuid source leaf subleaf, fp\<lparr>raw_cpuid := raw_cpuid fp @ [record_of source (leaf, subleaf)]\<rparr>)"
  by (simp add: query_and_record_def append_record_def record_of_def Let_def)

lemma foldl_query:
  "foldl (\<lambda>fp s. if P s then snd (query_and_record source leaf (f s) fp) else fp) fp xs
     = fp\<lparr>raw_cpuid := raw_cpuid fp @ map (\<lambda>s. record_of source (leaf, f s)) (filter P xs)\<rparr>"
  by (induction xs arbitrary: fp) (simp_all add: query_and_record_eq)

lemmas foldl_query_all = foldl_query[of "\<lambda>_. True", simplified]

lemma and_bit_nonzero: "(w :: 'a::len word) AND push_bit n 1 \<noteq> 0 \<longleftrightarrow> bit w n"
  by (metis and_exp_eq_0_iff_not_bit push_bit_of_1)

lemma cpuid_mask_bits:
  "(w :: u32) AND CPUID_XSAVE_MASK \<noteq> 0 \<longleftrightarrow> bit w 26"
  "(w :: u32) AND CPUID_OSXSAVE_MASK \<noteq> 0 \<longleftrightarrow> bit w 27"
  "(w :: u32) AND CPUID_HYPERVISOR_MASK \<noteq> 0 \<longleftrightarrow> bit w 31"
  unfolding CPUID_XSAVE_MASK_def CPUID_OSXSAVE_MASK_def CPUID_HYPERVISOR_MASK_def
  by (simp_all only: and_exp_eq_0_iff_not_bit not_not)

subsection \<open>The stages\<close>

lemma query_vendor_raw:
  "raw_cpuid (query_vendor source default_fingerprint) = [record_of source (0, 0)]"
  "maximum_basic_leaf (query_vendor source default_fingerprint) = basic_limit source"
  "hypervisor_present (query_vendor source default_fingerprint) = False"
  "xcr0 (query_vendor source default_fingerprint) = None"
  "xcr0_supported (query_vendor source default_fingerprint) = None"
  "cpuid_features (query_vendor source default_fingerprint) = []"
  "enabled_xstate (query_vendor source default_fingerprint) = []"
  by (simp_all add: query_vendor_def query_and_record_eq default_fingerprint_def cpuid_leaves basic_limit_def)

lemma query_signature_raw:
  assumes "maximum_basic_leaf fp = basic_limit source" "hypervisor_present fp = False"
  defines "fp' \<equiv> snd (snd (query_signature source fp))"
  shows "query_signature source fp = (signature_bit source 26, signature_bit source 27, fp')"
    and "raw_cpuid fp' = raw_cpuid fp @ map (record_of source) (if basic_limit source \<ge> 1 then [(1, 0)] else [])"
    and "maximum_basic_leaf fp' = basic_limit source" "hypervisor_present fp' = signature_bit source 31"
    and "xcr0 fp' = xcr0 fp" "xcr0_supported fp' = xcr0_supported fp"
    and "cpuid_features fp' = cpuid_features fp" "enabled_xstate fp' = enabled_xstate fp"
  using assms(1,2) unfolding fp'_def
  by (simp_all add: query_signature_def query_and_record_eq signature_bit_def cpuid_leaves cpuid_mask_bits
      Let_def)

lemma query_structured_eq:
  assumes "maximum_basic_leaf fp = basic_limit source"
  shows "query_structured source fp = fp\<lparr>raw_cpuid := raw_cpuid fp @ map (record_of source) (structured_plan source)\<rparr>"
  using assms
  by (simp add: query_structured_def query_and_record_eq[of _ _ 0] foldl_query_all structured_plan_def
      cpuid_leaves upt_conv_Cons[of 0] del: upt_Suc)

lemma query_xstate_eq:
  assumes "maximum_basic_leaf fp = basic_limit source"
  shows "query_xstate source (signature_bit source 26) (signature_bit source 27) fp =
    (if xstate_known source
     then fp\<lparr>xcr0_supported := Some (xcr0_support source), xss_supported := Some (xss_support source),
            xcr0 := (if signature_bit source 27 then Some (xgetbv source 0) else xcr0 fp),
            raw_cpuid := raw_cpuid fp @ map (record_of source) (xstate_plan source)\<rparr>
     else fp)"
proof -
  let ?known = "basic_limit source \<ge> CPUID_XSTATE_LEAF \<and> signature_bit source 26"
  have known: "xstate_known source \<longleftrightarrow> ?known" by (simp add: xstate_known_def cpuid_leaves)
  have plan: "xstate_plan source = (if ?known
    then map (\<lambda>s. (CPUID_XSTATE_LEAF, word_of_nat s)) (0 # 1 # filter (bit (xcr0_support source OR xss_support source)) [2..<64])
    else [])"
    unfolding xstate_plan_def known by (simp only: cpuid_leaves)
  have support: "xcr0_support source = push_bit 32 (ucast (edx (cpuid source CPUID_XSTATE_LEAF 0)))
      OR ucast (eax (cpuid source CPUID_XSTATE_LEAF 0))"
    "xss_support source = push_bit 32 (ucast (edx (cpuid source CPUID_XSTATE_LEAF 1)))
      OR ucast (ecx (cpuid source CPUID_XSTATE_LEAF 1))"
    by (simp_all only: xcr0_support_def xss_support_def cpuid_leaves)
  show ?thesis
    unfolding query_xstate_def and_bit_nonzero Let_def foldl_query
    unfolding query_and_record_eq prod.case support[symmetric] assms plan known
    by (simp del: upt_rec_numeral)
qed

lemma query_hypervisor_raw:
  "hypervisor_present fp = signature_bit source 31 \<Longrightarrow>
   raw_cpuid (query_hypervisor source fp) = raw_cpuid fp @ map (record_of source) (hypervisor_plan source)"
  "xcr0 (query_hypervisor source fp) = xcr0 fp"
  "xcr0_supported (query_hypervisor source fp) = xcr0_supported fp"
  "cpuid_features (query_hypervisor source fp) = cpuid_features fp"
  "enabled_xstate (query_hypervisor source fp) = enabled_xstate fp"
  by (simp_all add: query_hypervisor_def query_and_record_eq hypervisor_plan_def cpuid_leaves Let_def)

lemma brand_leaves: "[0..<Suc (unat (CPUID_BRAND_LAST_LEAF - CPUID_BRAND_FIRST_LEAF))] = [0, 1, 2]"
  by (simp add: cpuid_leaves upt_rec)

lemma query_brand_raw:
  "raw_cpuid (query_brand source fp) = raw_cpuid fp @ map (record_of source)
     (if maximum_extended_leaf fp \<ge> 0x80000004 then [(0x80000002, 0), (0x80000003, 0), (0x80000004, 0)] else [])"
  "maximum_extended_leaf (query_brand source fp) = maximum_extended_leaf fp"
  "xcr0 (query_brand source fp) = xcr0 fp"
  "xcr0_supported (query_brand source fp) = xcr0_supported fp"
  "cpuid_features (query_brand source fp) = cpuid_features fp"
  "enabled_xstate (query_brand source fp) = enabled_xstate fp"
  unfolding query_brand_def brand_leaves by (simp_all add: query_and_record_eq cpuid_leaves Let_def)

lemma query_extended_raw:
  "raw_cpuid (query_extended source fp) = raw_cpuid fp @ map (record_of source) (extended_plan source)"
  "xcr0 (query_extended source fp) = xcr0 fp"
  "xcr0_supported (query_extended source fp) = xcr0_supported fp"
  "cpuid_features (query_extended source fp) = cpuid_features fp"
  "enabled_xstate (query_extended source fp) = enabled_xstate fp"
  by (simp_all add: query_extended_def query_and_record_eq query_brand_raw extended_plan_def
      extended_limit_def cpuid_leaves Let_def)

subsection \<open>Decoded lists\<close>

lemma find_record_plan:
  "find_record (map (record_of source) keys) leaf subleaf
     = (if (leaf, subleaf) \<in> set keys then Some (record_of source (leaf, subleaf)) else None)"
  unfolding find_record_def by (induction keys) (auto simp: record_of_def)

definition feature_bit :: "CPUIDRecord list \<Rightarrow> CPUIDFeatureDefinition \<Rightarrow> bool" where
  "feature_bit records d =
     (case d of (leaf, subleaf, reg, b, name) \<Rightarrow>
        (case find_record records leaf subleaf of None \<Rightarrow> False | Some r \<Rightarrow> bit (register_value r reg) b))"

lemma foldl_features:
  "foldl (\<lambda>fp (leaf, subleaf, reg, b, name).
       case find_record (raw_cpuid fp) leaf subleaf of
         None \<Rightarrow> fp
       | Some r \<Rightarrow>
           if register_value r reg AND push_bit b 1 \<noteq> 0
           then fp\<lparr>cpuid_features := cpuid_features fp @ [name]\<rparr> else fp) fp ds
   = fp\<lparr>cpuid_features := cpuid_features fp
       @ map (\<lambda>(_, _, _, _, name). name) (filter (feature_bit (raw_cpuid fp)) ds)\<rparr>"
  unfolding and_bit_nonzero
  by (induction ds arbitrary: fp) (auto simp: feature_bit_def split: option.splits)

lemma foldl_xstate:
  "foldl (\<lambda>fp (b, name). if (w :: u64) AND push_bit b 1 \<noteq> 0
       then fp\<lparr>enabled_xstate := enabled_xstate fp @ [name]\<rparr> else fp) fp ds
   = fp\<lparr>enabled_xstate := enabled_xstate fp @ map snd (filter (\<lambda>(b, _). bit w b) ds)\<rparr>"
  unfolding and_bit_nonzero by (induction ds arbitrary: fp) auto

lemma decode_features_eq:
  "decode_features fp = fp\<lparr>cpuid_features := cpuid_features fp
     @ map (\<lambda>(_, _, _, _, name). name) (filter (feature_bit (raw_cpuid fp)) CPUID_FEATURES)\<rparr>"
  unfolding decode_features_def by (rule foldl_features)

lemma decode_enabled_xstate_eq:
  "raw_cpuid (decode_enabled_xstate fp) = raw_cpuid fp"
  "cpuid_features (decode_enabled_xstate fp) = cpuid_features fp"
  "xcr0 (decode_enabled_xstate fp) = xcr0 fp"
  "enabled_xstate (decode_enabled_xstate fp) = enabled_xstate fp @
     (case (xcr0_supported fp, xcr0 fp) of
        (Some s, Some x) \<Rightarrow> map snd (filter (\<lambda>(b, _). bit (s AND x) b) XSTATE_COMPONENTS)
      | _ \<Rightarrow> [])"
  unfolding decode_enabled_xstate_def foldl_xstate by (simp_all split: option.splits)

lemma query_cpu_fingerprint_eq:
  fixes source defines "fp \<equiv> query_cpu_fingerprint source"
  shows "raw_cpuid fp = map (record_of source) (cpuid_plan source)"
    and "cpuid_features fp = map (\<lambda>(_, _, _, _, name). name)
      (filter (feature_bit (map (record_of source) (cpuid_plan source))) CPUID_FEATURES)"
    and "xcr0 fp = (if xstate_known source \<and> signature_bit source 27 then Some (xgetbv source 0) else None)"
    and "enabled_xstate fp = (if xstate_known source \<and> signature_bit source 27
      then map snd (filter (\<lambda>(b, _). bit (xcr0_support source AND xgetbv source 0) b) XSTATE_COMPONENTS) else [])"
proof -
  let ?v = "query_vendor source default_fingerprint"
  obtain s where q: "query_signature source ?v = (signature_bit source 26, signature_bit source 27, s)"
    using query_signature_raw(1)[of ?v source, OF query_vendor_raw(2,3)] by blast
  note sig = query_signature_raw[of ?v source, OF query_vendor_raw(2,3), unfolded q snd_conv]
  let ?t = "query_structured source s"
  let ?x = "query_xstate source (signature_bit source 26) (signature_bit source 27) ?t"
  let ?e = "query_extended source (query_hypervisor source ?x)"
  have t: "?t = s\<lparr>raw_cpuid := raw_cpuid s @ map (record_of source) (structured_plan source)\<rparr>"
    by (rule query_structured_eq[OF sig(3)])
  have x: "query_xstate source (signature_bit source 26) (signature_bit source 27) ?t =
    (if xstate_known source
     then ?t\<lparr>xcr0_supported := Some (xcr0_support source), xss_supported := Some (xss_support source),
            xcr0 := (if signature_bit source 27 then Some (xgetbv source 0) else xcr0 ?t),
            raw_cpuid := raw_cpuid ?t @ map (record_of source) (xstate_plan source)\<rparr>
     else ?t)"
    by (rule query_xstate_eq) (simp add: t sig(2-8))
  have f: "fp = decode_enabled_xstate (decode_features ?e)"
    unfolding fp_def query_cpu_fingerprint_def Let_def q prod.case ..
  have h: "hypervisor_present ?x = signature_bit source 31"
    unfolding x by (simp add: t sig(2-8))
  have rx: "raw_cpuid ?x = raw_cpuid ?t @ map (record_of source) (xstate_plan source)"
    unfolding x by (simp add: xstate_plan_def del: upt_rec_numeral)
  have raw: "raw_cpuid ?e = map (record_of source) (cpuid_plan source)"
    by (simp only: query_extended_raw(1) query_hypervisor_raw(1)[OF h] rx)
      (simp add: t sig(2) query_vendor_raw(1) cpuid_plan_def)
  have parts: "xcr0 ?e = (if xstate_known source \<and> signature_bit source 27 then Some (xgetbv source 0) else None)"
    "xcr0_supported ?e = (if xstate_known source then Some (xcr0_support source) else None)"
    "cpuid_features ?e = []" "enabled_xstate ?e = []"
    unfolding query_extended_raw query_hypervisor_raw x by (simp_all add: t sig(2-8) query_vendor_raw)
  show "raw_cpuid fp = map (record_of source) (cpuid_plan source)"
    and "cpuid_features fp = map (\<lambda>(_, _, _, _, name). name)
      (filter (feature_bit (map (record_of source) (cpuid_plan source))) CPUID_FEATURES)"
    and "xcr0 fp = (if xstate_known source \<and> signature_bit source 27 then Some (xgetbv source 0) else None)"
    and "enabled_xstate fp = (if xstate_known source \<and> signature_bit source 27
      then map snd (filter (\<lambda>(b, _). bit (xcr0_support source AND xgetbv source 0) b) XSTATE_COMPONENTS) else [])"
    unfolding f decode_enabled_xstate_eq decode_features_eq by (simp_all add: raw parts)
qed

subsection \<open>Order\<close>

lemma word_of_nat_less_u32: "a < b \<Longrightarrow> b < 2 ^ 32 \<Longrightarrow> (word_of_nat a :: u32) < word_of_nat b"
  by (simp add: word_less_nat_alt unsigned_of_nat take_bit_nat_eq_self)

lemma sorted_subleaves:
  assumes "sorted_wrt (<) xs" "\<forall>x\<in>set xs. x < 2 ^ 32"
  shows "sorted_wrt (<) (map (\<lambda>s. (leaf :: u32, word_of_nat s :: u32)) xs)"
  unfolding sorted_wrt_map
  by (rule sorted_wrt_mono_rel[OF _ assms(1)]) (use assms(2) in \<open>simp add: word_of_nat_less_u32\<close>)

lemma sorted_structured_plan: "sorted_wrt (<) (structured_plan source)"
proof -
  have "unat (min (eax (cpuid source 7 0)) 128) \<le> 128"
    by (simp add: min_def word_le_nat_alt)
  then show ?thesis
    unfolding structured_plan_def by (simp del: upt_Suc) (intro impI sorted_subleaves, auto simp: sorted_wrt_upt simp del: upt_Suc)
qed

lemma sorted_xstate_plan: "sorted_wrt (<) (xstate_plan source)"
proof -
  have "sorted_wrt (<) (0 # 1 # filter P [2..<64::nat])" for P
    by (auto intro: sorted_wrt_filter simp del: upt_rec_numeral)
  then have "sorted_wrt (<) (map (\<lambda>s. (0xD :: u32, word_of_nat s :: u32)) (0 # 1 # filter P [2..<64]))" for P
    by (rule sorted_subleaves) (auto simp del: upt_rec_numeral)
  then show ?thesis unfolding xstate_plan_def by (simp del: upt_rec_numeral)
qed

lemma plan_leaves:
  "fst ` set (structured_plan source) \<subseteq> {7}" "fst ` set (xstate_plan source) \<subseteq> {0xD}"
  "fst ` set (hypervisor_plan source) \<subseteq> {0x40000000, 0x40000001}"
  "fst ` set (extended_plan source) \<subseteq> {0x80000000, 0x80000001, 0x80000002, 0x80000003, 0x80000004, 0x80000008}"
  by (auto simp: structured_plan_def xstate_plan_def hypervisor_plan_def extended_plan_def simp del: upt_rec_numeral split: if_splits)

lemma sorted_append_leaves:
  assumes "sorted_wrt (<) xs \<and> fst ` set xs \<subseteq> A" "sorted_wrt (<) ys \<and> fst ` set ys \<subseteq> B"
    and "\<forall>a\<in>A. \<forall>b\<in>B. a < b"
  shows "sorted_wrt (<) (xs @ ys :: (u32 \<times> u32) list) \<and> fst ` set (xs @ ys) \<subseteq> A \<union> B"
  using assms by (fastforce simp: sorted_wrt_append less_prod_def)

lemma sorted_cpuid_plan: "sorted_wrt (<) (cpuid_plan source)"
proof -
  let ?b = "((0, 0) # (if basic_limit source \<ge> 1 then [(1, 0)] else [])) :: (u32 \<times> u32) list"
  have b: "sorted_wrt (<) ?b \<and> fst ` set ?b \<subseteq> {0, 1}" by (auto simp: less_prod_def)
  have h: "sorted_wrt (<) (hypervisor_plan source)" "sorted_wrt (<) (extended_plan source)"
    by (simp_all add: hypervisor_plan_def extended_plan_def less_prod_def)
  note l = plan_leaves[of source]
  note xhe = sorted_append_leaves[OF conjI[OF sorted_xstate_plan l(2)]
      sorted_append_leaves[OF conjI[OF h(1) l(3)] conjI[OF h(2) l(4)]]]
  note all = sorted_append_leaves[OF b sorted_append_leaves[OF conjI[OF sorted_structured_plan l(1)] xhe]]
  show ?thesis using all by (simp add: cpuid_plan_def)
qed

lemma length_cpuid_plan: "length (cpuid_plan source) \<le> 203"
proof -
  have "length (structured_plan source) \<le> 129"
    by (simp add: structured_plan_def min_def word_le_nat_alt)
  moreover have "length (xstate_plan source) \<le> 64"
    using length_filter_le[of "bit (xcr0_support source OR xss_support source)" "[2..<64]"]
    by (simp add: xstate_plan_def del: upt_rec_numeral)
  moreover have "length (hypervisor_plan source) \<le> 2" "length (extended_plan source) \<le> 6"
    by (simp_all add: hypervisor_plan_def extended_plan_def)
  ultimately show ?thesis by (simp add: cpuid_plan_def)
qed

section \<open>Properties\<close>

text \<open>
  C24: \<open>query_cpu_fingerprint\<close> records the processor's own answers. For every source, \<open>raw_cpuid\<close> holds
  the answers along the query plan, strictly sorted by leaf and subleaf (so no pair occurs twice),
  and at most 203 of them, whatever limits the processor reports.
\<close>

theorem query_cpu_fingerprint_records:
  "raw_cpuid (query_cpu_fingerprint source) = map (record_of source) (cpuid_plan source)
   \<and> sorted_wrt (<) (map (\<lambda>r. (rec_leaf r, rec_subleaf r)) (raw_cpuid (query_cpu_fingerprint source)))
   \<and> length (raw_cpuid (query_cpu_fingerprint source)) \<le> 203"
  using query_cpu_fingerprint_eq(1)[of source] sorted_cpuid_plan[of source] length_cpuid_plan[of source]
  by (simp add: comp_def record_of_def)

text \<open>
  C25: the feature list has, in table order, exactly the names whose leaf was queried and whose bit is
  set in that answer; \<open>xgetbv\<close> is executed only when CPUID reports XSAVE, OSXSAVE and leaf 0xD; and the
  enabled state components are the table entries set both in the supported mask and in XCR0.
\<close>

theorem query_cpu_fingerprint_features:
  "cpuid_features (query_cpu_fingerprint source) =
     map (\<lambda>(_, _, _, _, name). name)
       (filter (\<lambda>(leaf, subleaf, reg, b, _). (leaf, subleaf) \<in> set (cpuid_plan source)
          \<and> bit (register_value (record_of source (leaf, subleaf)) reg) b) CPUID_FEATURES)
   \<and> xcr0 (query_cpu_fingerprint source) =
     (if xstate_known source \<and> signature_bit source 27 then Some (xgetbv source 0) else None)
   \<and> enabled_xstate (query_cpu_fingerprint source) =
     (if xstate_known source \<and> signature_bit source 27
      then map snd (filter (\<lambda>(b, _). bit (xcr0_support source) b \<and> bit (xgetbv source 0) b) XSTATE_COMPONENTS)
      else [])"
proof -
  have "filter (feature_bit (map (record_of source) (cpuid_plan source))) CPUID_FEATURES =
    filter (\<lambda>(leaf, subleaf, reg, b, _). (leaf, subleaf) \<in> set (cpuid_plan source)
          \<and> bit (register_value (record_of source (leaf, subleaf)) reg) b) CPUID_FEATURES"
    by (rule filter_cong) (auto simp: feature_bit_def find_record_plan split: if_splits)
  then show ?thesis by (simp add: query_cpu_fingerprint_eq bit_and_iff)
qed

end
