(* ===== verification/Trace.thy ===== *)
theory Trace
  imports Cpu
begin

text \<open>
  What the platform layer hands to the engine and what the engine hands on: \<open>PlatformStep\<close>,
  \<open>PlatformRunRequest\<close> and \<open>PlatformRunResult\<close> of src/src/os.hpp and \<open>Trace\<close> of src/src/bme_core.hpp.
  The texts that the sources build with fmt (errors, messages, stop reasons) are values of datatypes
  with one constructor per format string; \<open>None\<close> is the empty string.
\<close>

text \<open>\<open>ChildError\<close> of src/src/os.linux.cpp; its \<open>None\<close> is \<open>ChildOk\<close>.\<close>

datatype ChildError =
  ChildOk | ChildTrace | ChildAllocation | ChildCommit | ChildProtect | ChildFlush | ChildSignalSetup

datatype platform_error =
    NoCodeToRun
  | StopOffsetOutside
  | InstrumentationRefusal
  | UnsupportedMXCSR
  | WorkerPipeFailed
  | WorkerForkFailed
  | WorkerStartupFailed
  | WorkerWaitFailed
  | WorkerSetupFailed ChildError
  | WorkerDidNotStop
  | PtraceOptionsFailed
  | PtraceRegisterReadFailed
  | PtraceRegisterSetFailed
  | PtraceSingleStepFailed
  | WorkerExitedUnexpectedly
  | PtraceSignalInfoFailed
  | VirtualAllocFailed
  | VirtualAllocCommitFailed
  | VirtualProtectFailed
  | FlushInstructionCacheFailed
  | CreateThreadFailed
  | GetThreadIdFailed
  | GetThreadContextFailed
  | SetThreadContextFailed
  | ExceptionHandlerFailed
  | ResumeThreadFailed
  | WaitForSingleObjectFailed

record PlatformStep =
  step_rip :: u64
  step_registers :: Registers
  step_faulted :: bool

record PlatformRunRequest =
  req_code :: "u8 list"
  req_seed :: Registers
  req_max_steps :: nat
  req_stop_offset :: "nat option"
  req_seed_data_pointers :: bool

record PlatformRunResult =
  res_seed :: Registers
  res_steps :: "PlatformStep list"
  res_outcome :: Outcome
  res_instrumentation_detected :: bool
  res_fault_name :: string
  res_error :: "platform_error option"
  res_stop_address :: u64
  res_fault_memory_address :: "u64 option"
  res_fault_access :: FaultAccess
  res_stopped_at_target :: bool

definition default_result :: PlatformRunResult where
  "default_result =
     \<lparr>res_seed = default_registers, res_steps = [], res_outcome = Finished,
      res_instrumentation_detected = False, res_fault_name = [], res_error = None, res_stop_address = 0,
      res_fault_memory_address = None, res_fault_access = AccessNone, res_stopped_at_target = False\<rparr>"

section \<open>Traces\<close>

text \<open>
  \<open>AddressValue\<close> is what \<open>format_address_value\<close> prints: an absolute address, or a region name, a
  distance with its sign, and which guard note follows.
\<close>

datatype region = CodeRegion | StackRegion | DataRegion
datatype guard_note = Inside | EndGuard | Guard
datatype AddressValue =
    Absolute u64
  | Above region u64 guard_note
  | Below region u64 guard_note

datatype engine_message =
    NoTraceRecorded "platform_error option"
  | EngineError platform_error
  | StoppedAtSelectedRow u64 nat
  | StoppedAtInt3 u64 nat
  | FaultMessage string u64 "(string \<times> u64 \<times> AddressValue) option" nat
  | HitStepCap nat
  | FinishedMessage nat

datatype stop_reason =
    StoppedHereSelectedRow
  | StoppedHereInt3
  | FaultedHere string
  | StepCapReached
  | ReachedEndOfInput
  | LeftInputRange

record Trace =
  trace_cpu_fingerprint :: "CPUFingerprint option"
  trace_code :: "u8 list"
  trace_requested_seed :: Registers
  trace_requested_backend :: DisasmBackend
  trace_requested_syntax :: DisasmSyntax
  trace_effective_max_steps :: nat
  trace_seed_data_pointers :: bool
  trace_seed :: Registers
  trace_execution_events :: "ExecutionEvent list"
  trace_outcome :: Outcome
  trace_message :: "engine_message option"
  trace_instrumentation_detected :: bool
  trace_stop_reason :: "stop_reason option"
  trace_stop_address :: u64
  trace_fault_memory_address :: "u64 option"
  trace_fault_access :: FaultAccess

definition default_trace :: Trace where
  "default_trace =
     \<lparr>trace_cpu_fingerprint = None, trace_code = [], trace_requested_seed = default_registers,
      trace_requested_backend = Zydis, trace_requested_syntax = Intel, trace_effective_max_steps = 0,
      trace_seed_data_pointers = False, trace_seed = default_registers, trace_execution_events = [],
      trace_outcome = Idle, trace_message = None, trace_instrumentation_detected = False,
      trace_stop_reason = None, trace_stop_address = 0, trace_fault_memory_address = None,
      trace_fault_access = AccessNone\<rparr>"

end
