(* ===== verification/Address.thy ===== *)
theory Address
  imports Trace
begin

text \<open>
  The scratch regions: \<open>scratch_reserve_base\<close> and \<open>scratch_data_base\<close> of src/src/os.cpp, the placement of
  code, stack and data that both platforms compute (\<open>child_main\<close> of src/src/os.linux.cpp,
  \<open>run_platform_steps\<close> of src/src/os.windows.cpp), and \<open>format_address_value\<close> of src/src/bme_core.cpp, which
  names an address relative to them. Page size and allocation granularity come from the system.
\<close>

section \<open>Placement\<close>

definition scratch_reserve_base :: "u64 \<Rightarrow> u64" where
  "scratch_reserve_base granularity = SCRATCH_DATA_RESERVE_BASE AND NOT (granularity - 1)"

definition scratch_data_base :: "u64 \<Rightarrow> u64 \<Rightarrow> u64" where
  "scratch_data_base granularity page_size = scratch_reserve_base granularity + page_size"

text \<open>Round \<open>size\<close> up to whole pages.\<close>

definition page_round :: "u64 \<Rightarrow> u64 \<Rightarrow> u64" where
  "page_round n page_size = (n + page_size - 1) AND NOT (page_size - 1)"

definition code_base_of :: "u64 \<Rightarrow> u64 \<Rightarrow> u64 \<Rightarrow> u64" where
  "code_base_of buffer code_size page_size = buffer + page_round code_size page_size - code_size"

definition initial_rsp_of :: "u64 \<Rightarrow> u64 \<Rightarrow> u64" where
  "initial_rsp_of stack page_size =
     (stack + page_size + SCRATCH_STACK_BYTES - SCRATCH_STACK_HEADROOM) AND NOT 15"

definition effective_pointer :: "bool \<Rightarrow> u64 \<Rightarrow> u64 \<Rightarrow> u64" where
  "effective_pointer seed_data_pointers data_base value =
     (if seed_data_pointers \<and> value = 0 then data_base else value)"

section \<open>format\_address\_value\<close>

definition code_address :: "Trace \<Rightarrow> u64 \<Rightarrow> u64 \<Rightarrow> AddressValue option" where
  "code_address trace page_size address =
     (let code_base = reg_get (trace_seed trace) RIP; size = word_of_nat (length (trace_code trace)) :: u64
      in if code_base \<noteq> 0 \<and> trace_code trace \<noteq> [] \<and> address \<ge> code_base
         then let code_offset = address - code_base
              in if code_offset < size then Some (Above CodeRegion code_offset Inside)
                 else if code_offset = size then Some (Above CodeRegion code_offset EndGuard)
                 else if code_offset < size + page_size then Some (Above CodeRegion code_offset Guard)
                 else None
         else None)"

definition stack_address :: "Trace \<Rightarrow> u64 \<Rightarrow> u64 \<Rightarrow> AddressValue option" where
  "stack_address trace page_size address =
     (let stack_pointer = reg_get (trace_seed trace) RSP
      in if stack_pointer \<noteq> 0
         then if address \<ge> stack_pointer
              then let stack_offset = address - stack_pointer
                   in if stack_offset < SCRATCH_STACK_HEADROOM then Some (Above StackRegion stack_offset Inside)
                      else if stack_offset = SCRATCH_STACK_HEADROOM then Some (Above StackRegion stack_offset EndGuard)
                      else if stack_offset < SCRATCH_STACK_HEADROOM + page_size
                      then Some (Above StackRegion stack_offset Guard)
                      else None
              else let stack_offset = stack_pointer - address
                   in if stack_offset \<le> SCRATCH_STACK_BYTES - SCRATCH_STACK_HEADROOM
                      then Some (Below StackRegion stack_offset Inside)
                      else if stack_offset \<le> SCRATCH_STACK_BYTES - SCRATCH_STACK_HEADROOM + page_size
                      then Some (Below StackRegion stack_offset Guard)
                      else None
         else None)"

definition data_address :: "u64 \<Rightarrow> u64 \<Rightarrow> u64 \<Rightarrow> AddressValue option" where
  "data_address data_base page_size address =
     (if address \<ge> data_base
      then let data_offset = address - data_base
           in if data_offset < SCRATCH_DATA_BYTES then Some (Above DataRegion data_offset Inside)
              else if data_offset = SCRATCH_DATA_BYTES then Some (Above DataRegion data_offset EndGuard)
              else if data_offset < SCRATCH_DATA_BYTES + page_size then Some (Above DataRegion data_offset Guard)
              else None
      else if data_base - address \<le> page_size then Some (Below DataRegion (data_base - address) Guard)
      else None)"

definition format_address_value :: "u64 \<Rightarrow> u64 \<Rightarrow> Trace \<Rightarrow> u64 \<Rightarrow> bool \<Rightarrow> AddressValue" where
  "format_address_value granularity page_size trace address normalized =
     (if normalized
      then case code_address trace page_size address of
             Some v \<Rightarrow> v
           | None \<Rightarrow>
               (case stack_address trace page_size address of
                  Some v \<Rightarrow> v
                | None \<Rightarrow>
                    (case data_address (scratch_data_base granularity page_size) page_size address of
                       Some v \<Rightarrow> v
                     | None \<Rightarrow> Absolute address))
      else Absolute address)"

text \<open>What a printed address denotes, given the bases of the trace.\<close>

fun address_denotes :: "u64 \<Rightarrow> u64 \<Rightarrow> Trace \<Rightarrow> AddressValue \<Rightarrow> u64" where
  "address_denotes granularity page_size trace (Absolute a) = a"
| "address_denotes granularity page_size trace (Above r d g) =
     (case r of CodeRegion \<Rightarrow> reg_get (trace_seed trace) RIP | StackRegion \<Rightarrow> reg_get (trace_seed trace) RSP
      | DataRegion \<Rightarrow> scratch_data_base granularity page_size) + d"
| "address_denotes granularity page_size trace (Below r d g) =
     (case r of CodeRegion \<Rightarrow> reg_get (trace_seed trace) RIP | StackRegion \<Rightarrow> reg_get (trace_seed trace) RSP
      | DataRegion \<Rightarrow> scratch_data_base granularity page_size) - d"

section \<open>Names denote their address\<close>

lemma code_address_denotes: "code_address t p a = Some v \<Longrightarrow> address_denotes g p t v = a"
  by (auto simp: code_address_def Let_def diff_eq_eq add.commute split: if_splits)

lemma stack_address_denotes: "stack_address t p a = Some v \<Longrightarrow> address_denotes g p t v = a"
  by (auto simp: stack_address_def Let_def diff_eq_eq add.commute split: if_splits)

lemma data_address_denotes: "data_address (scratch_data_base g p) p a = Some v \<Longrightarrow> address_denotes g p t v = a"
  by (auto simp: data_address_def Let_def diff_eq_eq add.commute split: if_splits)

text \<open>
  A printed address always denotes the address it was printed for: whatever region name and
  distance \<open>format_address_value\<close> chooses, adding the distance to the region's base gives the address back.
\<close>

lemma format_address_value_address:
  "address_denotes g p t (format_address_value g p t a n) = a"
  by (auto simp: format_address_value_def code_address_denotes stack_address_denotes data_address_denotes
      split: option.splits)

section \<open>Rounding\<close>

lemma and_not_mask: "(x :: 'a::len word) AND NOT (mask k) = x - take_bit k x"
proof -
  have "x AND NOT (mask k) = push_bit k (drop_bit k x)"
    by (rule bit_word_eqI) (auto simp: bit_simps)
  then show ?thesis using bits_ident[of k x] by (metis add_diff_cancel_right')
qed

lemma unat_take_bit: "unat (take_bit k x :: 'a::len word) = unat x mod 2 ^ k"
  by (subst unsigned_take_bit_eq) (rule take_bit_eq_mod)

lemma unat_and_not_mask: "unat ((x :: 'a::len word) AND NOT (mask k)) = unat x - unat x mod 2 ^ k"
proof -
  have "take_bit k x \<le> x" by (simp add: word_le_nat_alt unat_take_bit)
  then show ?thesis by (simp add: and_not_mask unat_diff unat_take_bit)
qed

lemma power_mask: "k < 64 \<Longrightarrow> (2 ^ k - 1 :: u64) = mask k"
  by (simp add: mask_eq_exp_minus_1)

text \<open>Rounding up to pages: a multiple of the page size, less than a page above.\<close>

lemma unat_page_round:
  assumes "k < 64" "unat n + 2 ^ k \<le> 2 ^ 64"
  shows "unat (page_round n (2 ^ k)) = (unat n + 2 ^ k - 1) div 2 ^ k * 2 ^ k"
proof -
  have "n + 2 ^ k - 1 = n + word_of_nat (2 ^ k - 1)"
    by (simp add: of_nat_diff add_diff_eq)
  moreover have "unat (n + word_of_nat (2 ^ k - 1)) = unat n + (2 ^ k - 1)"
  proof (rule unat_add_nat)
    have "(1 :: nat) \<le> 2 ^ k" by simp
    then show "unat n + (2 ^ k - 1) < 2 ^ LENGTH(64)" using assms(2) by simp
  qed
  ultimately have "unat (n + 2 ^ k - 1) = unat n + 2 ^ k - 1" by (simp only:) simp
  then show ?thesis
    unfolding page_round_def power_mask[OF assms(1)] unat_and_not_mask
    by (simp add: minus_mod_eq_div_mult)
qed

lemma page_round_bounds:
  assumes "k < 64" "unat n + 2 ^ k \<le> 2 ^ 64"
  shows "unat n \<le> unat (page_round n (2 ^ k))" "unat (page_round n (2 ^ k)) < unat n + 2 ^ k"
    "2 ^ k dvd unat (page_round n (2 ^ k))"
proof -
  let ?m = "unat n + 2 ^ k - 1" and ?p = "2 ^ k :: nat"
  have "?m mod ?p < ?p" by simp
  moreover have "?m div ?p * ?p + ?m mod ?p = ?m" by (rule div_mult_mod_eq)
  ultimately show "unat n \<le> unat (page_round n (2 ^ k))" "unat (page_round n (2 ^ k)) < unat n + 2 ^ k"
    unfolding unat_page_round[OF assms] by linarith+
  show "2 ^ k dvd unat (page_round n (2 ^ k))"
    unfolding unat_page_round[OF assms] by simp
qed

section \<open>Code and stack\<close>

text \<open>
  The code is placed so that its last byte is followed by the guard page. For a power-of-two page
  size and a region that does not wrap, the code starts inside the mapped pages, ends exactly at the
  end of them, and those pages are fewer than one page longer than the code.
\<close>

lemma code_placement:
  assumes "k < 64" "unat code_size + 2 ^ k \<le> 2 ^ 64"
    and "unat buffer + unat (page_round code_size (2 ^ k)) < 2 ^ 64"
  shows "unat (code_base_of buffer code_size (2 ^ k)) + unat code_size
      = unat buffer + unat (page_round code_size (2 ^ k))
    \<and> buffer \<le> code_base_of buffer code_size (2 ^ k)
    \<and> unat (code_base_of buffer code_size (2 ^ k)) < unat buffer + 2 ^ k
    \<and> 2 ^ k dvd unat (page_round code_size (2 ^ k))"
proof -
  note b = page_round_bounds[OF assms(1,2)]
  have s: "unat (buffer + page_round code_size (2 ^ k)) = unat buffer + unat (page_round code_size (2 ^ k))"
    using assms(3) unat_add_lem[of buffer "page_round code_size (2 ^ k)"] by simp
  have "code_size \<le> buffer + page_round code_size (2 ^ k)"
    using b(1) by (simp add: word_le_nat_alt s)
  then have "unat (code_base_of buffer code_size (2 ^ k)) = unat buffer + unat (page_round code_size (2 ^ k)) - unat code_size"
    by (simp add: code_base_of_def unat_diff s)
  then show ?thesis using b unfolding word_le_nat_alt by (intro conjI) linarith+
qed

text \<open>
  The initial stack pointer is 16-byte aligned and leaves the whole headroom above it and the
  rest of the scratch stack below it, inside the region between the two guard pages.
\<close>

lemma unat_initial_rsp:
  assumes "unat stack + unat page_size + 0x10000 < 2 ^ 64"
  shows "unat (initial_rsp_of stack page_size) = (let top = unat stack + unat page_size + 0xFF00 in top - top mod 16)"
proof -
  let ?top = "unat stack + unat page_size + 0xFF00"
  have "stack + page_size + SCRATCH_STACK_BYTES - SCRATCH_STACK_HEADROOM = stack + word_of_nat (unat page_size + 0xFF00)"
    by (simp add: SCRATCH_STACK_BYTES_def SCRATCH_STACK_HEADROOM_def)
  moreover have "unat (stack + word_of_nat (unat page_size + 0xFF00)) = ?top"
    using assms by (subst unat_add_nat) simp_all
  ultimately have top: "unat (stack + page_size + SCRATCH_STACK_BYTES - SCRATCH_STACK_HEADROOM) = ?top"
    by (simp only:)
  have m: "(15 :: u64) = mask 4" by (simp add: mask_eq_exp_minus_1)
  show ?thesis unfolding initial_rsp_of_def m unat_and_not_mask top by (simp add: Let_def)
qed

lemma initial_rsp_placement:
  assumes "unat stack + unat page_size + 0x10000 < 2 ^ 64"
  shows "16 dvd unat (initial_rsp_of stack page_size)
    \<and> unat stack + unat page_size + 0x10000 - 0x100 - 16 < unat (initial_rsp_of stack page_size)
    \<and> unat (initial_rsp_of stack page_size) + unat SCRATCH_STACK_HEADROOM
        \<le> unat stack + unat page_size + unat SCRATCH_STACK_BYTES"
proof -
  let ?top = "unat stack + unat page_size + 0xFF00"
  have "?top mod 16 < 16" "16 dvd ?top - ?top mod 16" by (simp_all add: minus_mod_eq_mult_div)
  then show ?thesis unfolding unat_initial_rsp[OF assms] Let_def SCRATCH_STACK_BYTES_def SCRATCH_STACK_HEADROOM_def by simp linarith
qed

end
