(* ===== verification/History.thy ===== *)
theory History
  imports Trace
begin

text \<open>
  \<open>disasm_one\<close> and \<open>build_history\<close> of src/src/bme_core.cpp. The four decoders are third-party libraries
  and enter as the record \<open>Decoders\<close>. Addresses are 64-bit words with their wrap-around. The vector
  accesses and the pointer arithmetic of the source are checked: an access outside the vector, or a
  loop that never ends, is \<open>None\<close>, so that a result \<open>Some rows\<close> says that neither happens.
\<close>

section \<open>Decoders\<close>

text \<open>
  Each field is one call into a library on an address and the remaining bytes. A result is the text
  and the length, which the source stores in eight bits; \<open>None\<close> is a status other than success.
  Capstone returns mnemonic and operands apart.
\<close>

record Decoders =
  ZydisDisassembleIntel :: "u64 \<Rightarrow> u8 list \<Rightarrow> (string \<times> u8) option"
  ZydisDisassembleATT :: "u64 \<Rightarrow> u8 list \<Rightarrow> (string \<times> u8) option"
  NdDecodeToText :: "u64 \<Rightarrow> u8 list \<Rightarrow> (string \<times> u8) option"
  cs_disasm :: "DisasmSyntax \<Rightarrow> u64 \<Rightarrow> u8 list \<Rightarrow> (string \<times> string \<times> u8) option"
  xed_decode_format :: "DisasmSyntax \<Rightarrow> u64 \<Rightarrow> u8 list \<Rightarrow> (string \<times> u8) option"

record Decoded =
  decoded_text :: string
  decoded_length :: u8

definition decoded_valid :: "Decoded \<Rightarrow> bool" where
  "decoded_valid d \<longleftrightarrow> decoded_text d \<noteq> [] \<and> decoded_length d \<noteq> 0"

definition capstone_text :: "string \<times> string \<times> u8 \<Rightarrow> string \<times> u8" where
  "capstone_text r =
     (case r of (mnemonic, op_str, ix_size) \<Rightarrow>
        (if op_str \<noteq> [] then mnemonic @ '' '' @ op_str else mnemonic, ix_size))"

text \<open>XED takes the size as a 32-bit value.\<close>

definition disasm_one ::
  "Decoders \<Rightarrow> DisasmBackend \<Rightarrow> DisasmSyntax \<Rightarrow> u64 \<Rightarrow> u8 list \<Rightarrow> Decoded" where
  "disasm_one decoders backend syntax address code =
     (let raw = (case backend of
              Zydis \<Rightarrow> if syntax = Intel then ZydisDisassembleIntel decoders address code
                       else ZydisDisassembleATT decoders address code
            | Bddisasm \<Rightarrow> NdDecodeToText decoders address code
            | Capstone \<Rightarrow> map_option capstone_text (cs_disasm decoders syntax address code)
            | Xed \<Rightarrow> xed_decode_format decoders syntax address (take (length code mod 2 ^ 32) code));
          result = (case raw of None \<Rightarrow> ([], 0) | Some r \<Rightarrow> r)
      in \<lparr>decoded_text = trim isspace (fst result), decoded_length = snd result\<rparr>)"

section \<open>build\_history\<close>

text \<open>What the lambdas of \<open>build_history\<close> capture.\<close>

record HistoryContext =
  hc_decoders :: Decoders
  hc_backend :: DisasmBackend
  hc_syntax :: DisasmSyntax
  hc_code :: "u8 list"
  hc_base :: u64

definition vector_at :: "'a list \<Rightarrow> nat \<Rightarrow> 'a option" where
  "vector_at xs i = (if i < length xs then Some (xs ! i) else None)"

fun mark_events :: "u64 \<Rightarrow> u64 \<Rightarrow> ExecutionEvent list \<Rightarrow> bool list \<Rightarrow> bool list option" where
  "mark_events base code_end [] event_at = Some event_at"
| "mark_events base code_end (event # events) event_at =
     (if ev_rip event \<ge> base \<and> ev_rip event < code_end
      then Option.bind (vector_at event_at (unat (ev_rip event - base)))
             (\<lambda>_. mark_events base code_end events (event_at[unat (ev_rip event - base) := True]))
      else mark_events base code_end events event_at)"

definition disasm_at :: "HistoryContext \<Rightarrow> u64 \<Rightarrow> HistoryRow option" where
  "disasm_at ctx address =
     (let offset = address - hc_base ctx
      in if unat offset > length (hc_code ctx) then None
         else let available = length (hc_code ctx) - unat offset;
                  decoded = disasm_one (hc_decoders ctx) (hc_backend ctx) (hc_syntax ctx) address
                    (drop (unat offset) (hc_code ctx));
                  ok = (decoded_valid decoded \<and> unat (decoded_length decoded) \<le> available)
              in Some \<lparr>row_rip = address, row_text = (if ok then decoded_text decoded else ''(bad)''),
                   row_offset = offset, row_length = (if ok then ucast (decoded_length decoded) else 1),
                   row_kind = NotReached, row_event = None\<rparr>)"

text \<open>The inner loop of \<open>fill_gap\<close>: the first event start from \<open>address\<close> on, or \<open>boundary\<close>.\<close>

function scan_boundary :: "bool list \<Rightarrow> u64 \<Rightarrow> u64 \<Rightarrow> u64 \<Rightarrow> u64 option" where
  "scan_boundary event_at base address boundary =
     (if address < boundary
      then Option.bind (vector_at event_at (unat (address - base)))
             (\<lambda>starts. if starts then Some address else scan_boundary event_at base (address + 1) boundary)
      else Some boundary)"
  by pat_completeness auto
termination
proof (relation "measure (\<lambda>(event_at, base, address, boundary). unat (boundary - address))")
  fix event_at :: "bool list" and base address boundary :: u64 and x :: bool
  assume "address < boundary"
  then have "unat (boundary - (address + 1)) < unat (boundary - address)"
    by (simp add: unat_diff word_le_nat_alt unat_Suc_less word_less_nat_alt)
  then show "((event_at, base, address + 1, boundary), (event_at, base, address, boundary))
      \<in> measure (\<lambda>(event_at, base, address, boundary). unat (boundary - address))" by simp
qed simp

declare scan_boundary.simps [simp del]

partial_function (option) fill_gap ::
  "HistoryContext \<Rightarrow> bool list \<Rightarrow> u64 \<Rightarrow> u64 \<Rightarrow> HistoryRow list \<Rightarrow> HistoryRow list option" where
  "fill_gap ctx event_at start stop result =
     (if start < stop
      then Option.bind (disasm_at ctx start) (\<lambda>row.
           Option.bind (scan_boundary event_at (hc_base ctx) (start + 1) (min (start + row_length row) stop)) (\<lambda>boundary.
           Option.bind (vector_at event_at (unat (start - hc_base ctx))) (\<lambda>starts.
             fill_gap ctx event_at boundary stop
               (if starts then result
                else result @ [if boundary \<noteq> start + row_length row
                   then row\<lparr>row_text := ''(data)'', row_kind := Data, row_length := boundary - start\<rparr>
                   else row]))))
      else Some result)"

fun history_events ::
  "HistoryContext \<Rightarrow> bool list \<Rightarrow> u64 \<Rightarrow> ExecutionEvent list \<Rightarrow> nat \<Rightarrow> u64 \<Rightarrow> HistoryRow list
   \<Rightarrow> (u64 \<times> HistoryRow list) option" where
  "history_events ctx event_at code_end [] event_index linear result = Some (linear, result)"
| "history_events ctx event_at code_end (event # events) event_index linear result =
     (if ev_rip event < hc_base ctx \<or> ev_rip event \<ge> code_end
      then history_events ctx event_at code_end events (Suc event_index) linear result
      else Option.bind
             (if ev_rip event > linear then fill_gap ctx event_at linear (ev_rip event) result else Some result)
             (\<lambda>result. Option.bind (disasm_at ctx (ev_rip event)) (\<lambda>row.
                history_events ctx event_at code_end events (Suc event_index)
                  (max linear (ev_rip event + row_length row))
                  (result @ [row\<lparr>row_kind := (if ev_kind event = Completed then Reached else RowFaulted),
                                 row_event := Some event_index\<rparr>]))))"

definition build_history :: "Decoders \<Rightarrow> Trace \<Rightarrow> DisasmBackend \<Rightarrow> DisasmSyntax \<Rightarrow> HistoryRow list option" where
  "build_history decoders trace backend syntax =
     (if trace_code trace = [] \<or> trace_instrumentation_detected trace then Some []
      else let base = reg_get (trace_seed trace) RIP;
               code_end = base + word_of_nat (length (trace_code trace));
               ctx = \<lparr>hc_decoders = decoders, hc_backend = backend, hc_syntax = syntax,
                 hc_code = trace_code trace, hc_base = base\<rparr>
           in Option.bind (mark_events base code_end (trace_execution_events trace)
                  (replicate (length (trace_code trace)) False))
                (\<lambda>event_at. Option.bind
                  (history_events ctx event_at code_end (trace_execution_events trace) 0 base [])
                  (\<lambda>(linear, result). fill_gap ctx event_at linear code_end result)))"

section \<open>The layout on offsets\<close>

text \<open>
  The same computation on natural-number offsets, without addresses and texts: \<open>len\<close> gives the decoded
  length at an offset and \<open>ev\<close> the offsets at which an event starts. A static row has an offset, a length
  and whether it is a whole decode; an event row has the event's index and its offset.
\<close>

datatype layout_row = StaticRow nat nat bool | EventRow nat nat

definition split_point :: "(nat \<Rightarrow> bool) \<Rightarrow> nat \<Rightarrow> nat \<Rightarrow> nat" where
  "split_point ev a b = (case find ev [a..<b] of None \<Rightarrow> b | Some e \<Rightarrow> e)"

lemma split_point_bounds:
  "a \<le> b \<Longrightarrow> a \<le> split_point ev a b \<and> split_point ev a b \<le> b"
  by (auto simp: split_point_def find_Some_iff split: option.splits)

lemma split_point_clear: "a \<le> k \<Longrightarrow> k < split_point ev a b \<Longrightarrow> k < b \<Longrightarrow> \<not> ev k"
proof -
  assume k: "a \<le> k" "k < split_point ev a b" "k < b"
  show "\<not> ev k"
  proof (cases "find ev [a..<b]")
    case None
    then show ?thesis using k by (auto simp: find_None_iff)
  next
    case (Some e)
    then obtain i where i: "i < b - a" "e = a + i" "\<forall>j<i. \<not> ev (a + j)"
      by (auto simp: find_Some_iff)
    then have "k - a < i" using k Some by (auto simp: split_point_def)
    then show ?thesis using i k by (metis le_add_diff_inverse)
  qed
qed

function gap_rows :: "(nat \<Rightarrow> nat) \<Rightarrow> (nat \<Rightarrow> bool) \<Rightarrow> nat \<Rightarrow> nat \<Rightarrow> layout_row list" where
  "gap_rows len ev a t =
     (if a < t \<and> 0 < len a
      then let b = split_point ev (Suc a) (min (a + len a) t)
           in (if ev a then [] else [StaticRow a (b - a) (b = a + len a)]) @ gap_rows len ev b t
      else [])"
  by pat_completeness auto
termination
proof (relation "measure (\<lambda>(len, ev, a, t). t - a)")
  fix len :: "nat \<Rightarrow> nat" and ev :: "nat \<Rightarrow> bool" and a t b
  assume "a < t \<and> 0 < len a" "b = split_point ev (Suc a) (min (a + len a) t)"
  then show "((len, ev, b, t), (len, ev, a, t)) \<in> measure (\<lambda>(len, ev, a, t). t - a)"
    using split_point_bounds[of "Suc a" "min (a + len a) t" ev] by auto
qed simp

declare gap_rows.simps [simp del]

fun event_rows ::
  "(nat \<Rightarrow> nat) \<Rightarrow> (nat \<Rightarrow> bool) \<Rightarrow> nat option list \<Rightarrow> nat \<Rightarrow> nat \<Rightarrow> nat \<times> layout_row list" where
  "event_rows len ev [] index linear = (linear, [])"
| "event_rows len ev (None # offs) index linear = event_rows len ev offs (Suc index) linear"
| "event_rows len ev (Some a # offs) index linear =
     (let (final, rows) = event_rows len ev offs (Suc index) (max linear (a + len a))
      in (final, gap_rows len ev linear a @ EventRow index a # rows))"

definition layout :: "(nat \<Rightarrow> nat) \<Rightarrow> nat \<Rightarrow> nat option list \<Rightarrow> layout_row list" where
  "layout len n offs =
     (let ev = (\<lambda>a. Some a \<in> set offs); (linear, rows) = event_rows len ev offs 0 0
      in rows @ gap_rows len ev linear n)"

text \<open>The present entries of a list with their indices, counted from \<open>i\<close>.\<close>

fun present :: "nat \<Rightarrow> 'a option list \<Rightarrow> (nat \<times> 'a) list" where
  "present i [] = []"
| "present i (None # xs) = present (Suc i) xs"
| "present i (Some a # xs) = (i, a) # present (Suc i) xs"

definition static_rows :: "layout_row list \<Rightarrow> (nat \<times> nat) list" where
  "static_rows rows = concat (map (\<lambda>r. case r of StaticRow a l _ \<Rightarrow> [(a, l)] | EventRow _ _ \<Rightarrow> []) rows)"

definition event_starts :: "layout_row list \<Rightarrow> (nat \<times> nat) list" where
  "event_starts rows = concat (map (\<lambda>r. case r of StaticRow _ _ _ \<Rightarrow> [] | EventRow i a \<Rightarrow> [(i, a)]) rows)"

lemma rows_simps [simp]:
  "static_rows [] = []" "static_rows (r # rs) = (case r of StaticRow a l _ \<Rightarrow> [(a, l)] | EventRow _ _ \<Rightarrow> []) @ static_rows rs"
  "static_rows (rs @ ss) = static_rows rs @ static_rows ss"
  "event_starts [] = []" "event_starts (r # rs) = (case r of StaticRow _ _ _ \<Rightarrow> [] | EventRow i a \<Rightarrow> [(i, a)]) @ event_starts rs"
  "event_starts (rs @ ss) = event_starts rs @ event_starts ss"
  by (simp_all add: static_rows_def event_starts_def)

text \<open>Rows of a stretch \<open>[a, t)\<close>: inside it, non-empty, in ascending order without overlap, free of event starts.\<close>

definition stretch :: "(nat \<Rightarrow> bool) \<Rightarrow> nat \<Rightarrow> nat \<Rightarrow> (nat \<times> nat) list \<Rightarrow> bool" where
  "stretch ev a t rows \<longleftrightarrow>
     (\<forall>(b, l)\<in>set rows. a \<le> b \<and> 0 < l \<and> b + l \<le> t \<and> (\<forall>k. b \<le> k \<and> k < b + l \<longrightarrow> \<not> ev k))
     \<and> sorted_wrt (\<lambda>(b, l) (c, _). b + l \<le> c) rows"

lemma stretch_append:
  assumes "stretch ev a b xs" "stretch ev b t ys" "a \<le> b" "b \<le> t"
  shows "stretch ev a t (xs @ ys)"
  using assms unfolding stretch_def sorted_wrt_append by (fastforce split: prod.splits)

lemma stretch_Nil [simp]: "stretch ev a t []"
  by (simp add: stretch_def)

lemma stretch_mono: "stretch ev b c xs \<Longrightarrow> a \<le> b \<Longrightarrow> c \<le> t \<Longrightarrow> stretch ev a t xs"
  unfolding stretch_def by fastforce

text \<open>Offset \<open>k\<close> is inside a static row, or inside the decode of an event start.\<close>

definition covered :: "(nat \<Rightarrow> nat) \<Rightarrow> (nat \<Rightarrow> bool) \<Rightarrow> layout_row list \<Rightarrow> nat \<Rightarrow> bool" where
  "covered len ev rows k \<longleftrightarrow>
     (\<exists>(b, l)\<in>set (static_rows rows). b \<le> k \<and> k < b + l) \<or> (\<exists>e. ev e \<and> e \<le> k \<and> k < e + len e)"

lemma covered_append: "covered len ev (xs @ ys) k \<longleftrightarrow> covered len ev xs k \<or> covered len ev ys k"
  by (auto simp: covered_def)

text \<open>The decoder interface: at every offset inside the code a positive length that stays inside.\<close>

locale linear_decoder =
  fixes n :: nat
    and len :: "nat \<Rightarrow> nat"
  assumes len: "a < n \<Longrightarrow> 0 < len a \<and> a + len a \<le> n"
begin

lemma gap_rows_props:
  assumes "t \<le> n"
  shows "stretch ev a t (static_rows (gap_rows len ev a t)) \<and> event_starts (gap_rows len ev a t) = []
    \<and> (\<forall>k. a \<le> k \<and> k < t \<longrightarrow> covered len ev (gap_rows len ev a t) k)"
proof (induction "t - a" arbitrary: a rule: less_induct)
  case less
  show ?case
  proof (cases "a < t")
    case False
    then show ?thesis by (subst (1 2 3) gap_rows.simps) auto
  next
    case True
    define b where "b = split_point ev (Suc a) (min (a + len a) t)"
    have l: "0 < len a" "a + len a \<le> n" using len[of a] True assms by auto
    have b: "a < b" "b \<le> t" "b \<le> a + len a"
      using split_point_bounds[of "Suc a" "min (a + len a) t" ev] True l by (auto simp: b_def)
    have clear: "\<not> ev k" if "a < k" "k < b" for k
      using split_point_clear[of "Suc a" k ev "min (a + len a) t"] that b by (simp add: b_def)
    have eq: "gap_rows len ev a t = (if ev a then [] else [StaticRow a (b - a) (b = a + len a)]) @ gap_rows len ev b t"
      using True l by (subst gap_rows.simps) (simp add: b_def Let_def)
    have IH: "stretch ev b t (static_rows (gap_rows len ev b t))" "event_starts (gap_rows len ev b t) = []"
      "\<And>k. b \<le> k \<Longrightarrow> k < t \<Longrightarrow> covered len ev (gap_rows len ev b t) k"
      using less[of b] b True by auto
    have "stretch ev a b (static_rows (if ev a then [] else [StaticRow a (b - a) (b = a + len a)]))"
      using b clear by (auto simp: stretch_def) (metis le_neq_implies_less)
    then have "stretch ev a t (static_rows (gap_rows len ev a t))"
      unfolding eq rows_simps using IH(1) b by (intro stretch_append) auto
    moreover have "covered len ev (gap_rows len ev a t) k" if "a \<le> k" "k < t" for k
    proof (cases "k < b")
      case True
      then show ?thesis using b that by (cases "ev a") (auto simp: eq covered_append covered_def)
    next
      case False
      then show ?thesis using IH(3)[of k] that by (simp add: eq covered_append)
    qed
    ultimately show ?thesis using IH(2) by (simp add: eq)
  qed
qed

lemma event_rows_props:
  assumes "\<forall>a. Some a \<in> set offs \<longrightarrow> a < n \<and> ev a" "linear \<le> n" "event_rows len ev offs index linear = (final, rows)"
  shows "linear \<le> final \<and> final \<le> n \<and> stretch ev linear final (static_rows rows)
    \<and> event_starts rows = present index offs
    \<and> (\<forall>k. linear \<le> k \<and> k < final \<longrightarrow> covered len ev rows k)"
  using assms
proof (induction offs arbitrary: index linear final rows)
  case Nil
  then show ?case by auto
next
  case (Cons off offs)
  show ?case
  proof (cases off)
    case None
    then show ?thesis using Cons.IH[of linear "Suc index" final rows] Cons.prems by simp
  next
    case (Some a)
    obtain rest where rest: "event_rows len ev offs (Suc index) (max linear (a + len a)) = (final, rest)"
      and rows: "rows = gap_rows len ev linear a @ EventRow index a # rest"
      using Cons.prems(3) by (auto simp: Some split: prod.splits)
    have a: "a < n" "ev a" "0 < len a" "a + len a \<le> n" using Cons.prems(1) len[of a] by (auto simp: Some)
    note gap = gap_rows_props[of a ev linear]
    have IH: "max linear (a + len a) \<le> final" "final \<le> n"
      "stretch ev (max linear (a + len a)) final (static_rows rest)"
      "event_starts rest = present (Suc index) offs"
      "\<And>k. max linear (a + len a) \<le> k \<Longrightarrow> k < final \<Longrightarrow> covered len ev rest k"
      using Cons.IH[OF _ _ rest] Cons.prems(1,2) a by auto
    have "stretch ev linear (max linear a) (static_rows (gap_rows len ev linear a))"
      using gap a by (auto intro: stretch_mono)
    then have "stretch ev linear final (static_rows rows)"
      unfolding rows rows_simps using IH(1,3)
      by (simp, intro stretch_append[of _ _ "max linear a"]) (auto intro: stretch_mono)
    moreover have "covered len ev rows k" if k: "linear \<le> k" "k < final" for k
    proof -
      consider "k < a" | "a \<le> k" "k < a + len a" | "max linear (a + len a) \<le> k" using k by linarith
      then show ?thesis
      proof cases
        case 1
        then show ?thesis using gap a k by (simp add: rows covered_append)
      next
        case 2
        then show ?thesis using a(2) by (auto simp: covered_def)
      next
        case 3
        then show ?thesis using IH(5)[of k] k by (auto simp: rows covered_append covered_def)
      qed
    qed
    moreover have "event_starts rows = (index, a) # event_starts rest"
      using gap a by (simp add: rows)
    ultimately show ?thesis using IH by (simp add: Some)
  qed
qed

text \<open>
  The layout of a run: every static row lies inside the code, starts no event and contains none;
  static rows ascend without overlap; the events inside the code appear in order; every offset is
  inside a static row or the decode of an event.
\<close>

lemma layout_props:
  assumes "\<forall>a. Some a \<in> set offs \<longrightarrow> a < n"
  defines "ev \<equiv> \<lambda>a. Some a \<in> set offs"
  shows "stretch ev 0 n (static_rows (layout len n offs))"
    and "event_starts (layout len n offs)
      = present 0 offs"
    and "k < n \<Longrightarrow> covered len ev (layout len n offs) k"
proof -
  obtain linear rows where e: "event_rows len ev offs 0 0 = (linear, rows)" by fastforce
  have l: "layout len n offs = rows @ gap_rows len ev linear n"
    using e by (simp add: layout_def ev_def)
  have p: "linear \<le> n" "stretch ev 0 linear (static_rows rows)"
    "event_starts rows = present 0 offs"
    "\<And>k. k < linear \<Longrightarrow> covered len ev rows k"
    using event_rows_props[OF _ _ e] assms by auto
  note g = gap_rows_props[of n ev linear]
  show "stretch ev 0 n (static_rows (layout len n offs))"
    unfolding l rows_simps using p(1,2) g by (intro stretch_append) auto
  show "event_starts (layout len n offs)
      = present 0 offs"
    using p(3) g by (simp add: l)
  show "covered len ev (layout len n offs) k" if "k < n"
    using p(4)[of k] g that by (cases "k < linear") (auto simp: l covered_append)
qed

end

section \<open>The addresses follow the layout\<close>

definition decoded_at :: "HistoryContext \<Rightarrow> nat \<Rightarrow> Decoded" where
  "decoded_at ctx a = disasm_one (hc_decoders ctx) (hc_backend ctx) (hc_syntax ctx)
     (hc_base ctx + word_of_nat a) (drop a (hc_code ctx))"

definition decode_ok :: "HistoryContext \<Rightarrow> nat \<Rightarrow> bool" where
  "decode_ok ctx a \<longleftrightarrow> decoded_valid (decoded_at ctx a)
     \<and> unat (decoded_length (decoded_at ctx a)) \<le> length (hc_code ctx) - a"

definition decoded_len :: "HistoryContext \<Rightarrow> nat \<Rightarrow> nat" where
  "decoded_len ctx a = (if decode_ok ctx a then unat (decoded_length (decoded_at ctx a)) else 1)"

definition plain_row :: "HistoryContext \<Rightarrow> nat \<Rightarrow> HistoryRow" where
  "plain_row ctx a =
     \<lparr>row_rip = hc_base ctx + word_of_nat a,
      row_text = (if decode_ok ctx a then decoded_text (decoded_at ctx a) else ''(bad)''),
      row_offset = word_of_nat a, row_length = word_of_nat (decoded_len ctx a),
      row_kind = NotReached, row_event = None\<rparr>"

fun history_row :: "HistoryContext \<Rightarrow> ExecutionEvent list \<Rightarrow> layout_row \<Rightarrow> HistoryRow" where
  "history_row ctx events (StaticRow a l whole) =
     (if whole then plain_row ctx a
      else (plain_row ctx a)\<lparr>row_text := ''(data)'', row_kind := Data, row_length := word_of_nat l\<rparr>)"
| "history_row ctx events (EventRow i a) =
     (plain_row ctx a)\<lparr>row_kind := (if ev_kind (events ! i) = Completed then Reached else RowFaulted),
       row_event := Some i\<rparr>"

definition event_offset :: "HistoryContext \<Rightarrow> ExecutionEvent \<Rightarrow> nat option" where
  "event_offset ctx event =
     (if ev_rip event \<ge> hc_base ctx \<and> unat (ev_rip event - hc_base ctx) < length (hc_code ctx)
      then Some (unat (ev_rip event - hc_base ctx)) else None)"

text \<open>The decoders interface holds for whatever the libraries return.\<close>

interpretation decoder: linear_decoder "length (hc_code ctx)" "decoded_len ctx" for ctx
  by unfold_locales (auto simp: decoded_len_def decode_ok_def decoded_valid_def unat_gt_0)

text \<open>The code does not reach the end of the address space.\<close>

definition in_space :: "HistoryContext \<Rightarrow> bool" where
  "in_space ctx \<longleftrightarrow> unat (hc_base ctx) + length (hc_code ctx) < 2 ^ 64"

definition address_of :: "HistoryContext \<Rightarrow> nat \<Rightarrow> u64" where
  "address_of ctx a = hc_base ctx + word_of_nat a"

lemma unat_address:
  "in_space ctx \<Longrightarrow> a \<le> length (hc_code ctx) \<Longrightarrow> unat (address_of ctx a) = unat (hc_base ctx) + a"
  by (simp add: address_of_def in_space_def unat_add_nat)

lemma address_order:
  assumes "in_space ctx" "a \<le> length (hc_code ctx)" "b \<le> length (hc_code ctx)"
  shows "address_of ctx a < address_of ctx b \<longleftrightarrow> a < b"
    and "address_of ctx a = address_of ctx b \<longleftrightarrow> a = b"
    and "min (address_of ctx a) (address_of ctx b) = address_of ctx (min a b)"
    and "max (address_of ctx a) (address_of ctx b) = address_of ctx (max a b)"
proof -
  show l: "address_of ctx a < address_of ctx b \<longleftrightarrow> a < b"
    using assms by (simp add: word_less_nat_alt unat_address)
  show "address_of ctx a = address_of ctx b \<longleftrightarrow> a = b"
    using assms by (metis add_left_cancel unat_address)
  have "address_of ctx a \<le> address_of ctx b \<longleftrightarrow> a \<le> b"
    using assms by (simp add: word_le_nat_alt unat_address)
  then show "min (address_of ctx a) (address_of ctx b) = address_of ctx (min a b)"
    "max (address_of ctx a) (address_of ctx b) = address_of ctx (max a b)"
    by (simp_all add: min_def max_def)
qed

lemma address_minus_base:
  assumes "in_space ctx" "a \<le> length (hc_code ctx)"
  shows "address_of ctx a - hc_base ctx = word_of_nat a" "unat (address_of ctx a - hc_base ctx) = a"
  using assms by (simp_all add: address_of_def in_space_def unat_word_of_nat)

lemma address_add: "address_of ctx a + word_of_nat l = address_of ctx (a + l)"
  "address_of ctx a + 1 = address_of ctx (Suc a)"
  by (simp_all add: address_of_def)

lemma address_diff: "a \<le> b \<Longrightarrow> address_of ctx b - address_of ctx a = word_of_nat (b - a)"
  by (simp add: address_of_def of_nat_diff)

lemma row_length_plain: "row_length (plain_row ctx a) = word_of_nat (decoded_len ctx a)"
  by (simp add: plain_row_def)

lemma disasm_at_address:
  assumes "in_space ctx" "a \<le> length (hc_code ctx)"
  shows "disasm_at ctx (address_of ctx a) = Some (plain_row ctx a)"
  using assms address_minus_base[OF assms]
  by (cases "decode_ok ctx a")
    (auto simp: disasm_at_def plain_row_def decode_ok_def decoded_len_def decoded_at_def Let_def
      simp flip: address_of_def)

lemma scan_boundary_address:
  assumes "in_space ctx" "length flags = length (hc_code ctx)" "b \<le> length (hc_code ctx)" "a \<le> length (hc_code ctx)"
  shows "scan_boundary flags (hc_base ctx) (address_of ctx a) (address_of ctx b)
    = Some (address_of ctx (split_point (\<lambda>i. flags ! i) a b))"
  using assms(4)
proof (induction "b - a" arbitrary: a)
  case 0
  then show ?case
    using assms by (subst scan_boundary.simps) (simp add: address_order split_point_def)
next
  case (Suc m)
  then have ab: "a < b" "a < length (hc_code ctx)" using assms(3) by auto
  have IH: "scan_boundary flags (hc_base ctx) (address_of ctx (Suc a)) (address_of ctx b)
    = Some (address_of ctx (split_point (\<lambda>i. flags ! i) (Suc a) b))"
    using Suc.hyps(1)[of "Suc a"] Suc.hyps(2) ab by simp
  show ?case
    using ab IH assms
    by (subst scan_boundary.simps)
      (simp add: address_order address_minus_base(2) vector_at_def address_add split_point_def upt_conv_Cons)
qed

lemma fill_gap_address:
  assumes "in_space ctx" "length flags = length (hc_code ctx)" "t \<le> length (hc_code ctx)" "a \<le> length (hc_code ctx)"
  shows "fill_gap ctx flags (address_of ctx a) (address_of ctx t) result
    = Some (result @ map (history_row ctx events) (gap_rows (decoded_len ctx) (\<lambda>i. flags ! i) a t))"
  using assms(4)
proof (induction "t - a" arbitrary: a result rule: less_induct)
  case less
  let ?ev = "\<lambda>i. flags ! i"
  show ?case
  proof (cases "a < t")
    case False
    then show ?thesis
      using assms less.prems by (subst fill_gap.simps, subst gap_rows.simps) (simp add: address_order)
  next
    case True
    have l: "0 < decoded_len ctx a" "a + decoded_len ctx a \<le> length (hc_code ctx)"
      using decoder.len[of a ctx] True assms(3) by auto
    define b where "b = split_point ?ev (Suc a) (min (a + decoded_len ctx a) t)"
    have b: "a < b" "b \<le> t" "b \<le> a + decoded_len ctx a"
      using split_point_bounds[of "Suc a" "min (a + decoded_len ctx a) t" ?ev] True l by (auto simp: b_def)
    have scan: "scan_boundary flags (hc_base ctx) (address_of ctx a + 1)
        (min (address_of ctx a + row_length (plain_row ctx a)) (address_of ctx t)) = Some (address_of ctx b)"
      using assms l True by (simp add: row_length_plain address_add address_order(3) scan_boundary_address b_def)
    have IH: "fill_gap ctx flags (address_of ctx b) (address_of ctx t) r
      = Some (r @ map (history_row ctx events) (gap_rows (decoded_len ctx) ?ev b t))" for r
      using less.hyps[of b r] b assms(3) True by simp
    have row: "(if address_of ctx b \<noteq> address_of ctx a + row_length (plain_row ctx a)
        then (plain_row ctx a)\<lparr>row_text := ''(data)'', row_kind := Data, row_length := address_of ctx b - address_of ctx a\<rparr>
        else plain_row ctx a) = history_row ctx events (StaticRow a (b - a) (b = a + decoded_len ctx a))"
      using b l assms by (simp add: row_length_plain address_add address_order(2) address_diff)
    have gap: "gap_rows (decoded_len ctx) ?ev a t
        = (if ?ev a then [] else [StaticRow a (b - a) (b = a + decoded_len ctx a)]) @ gap_rows (decoded_len ctx) ?ev b t"
      using True l by (subst gap_rows.simps) (simp add: b_def Let_def)
    have at: "vector_at flags (unat (address_of ctx a - hc_base ctx)) = Some (flags ! a)"
      using assms True by (simp add: address_minus_base(2) vector_at_def)
    have "address_of ctx a < address_of ctx t" using assms True by (simp add: address_order)
    then show ?thesis
      using assms(1) less.prems
      by (subst fill_gap.simps)
        (simp add: disasm_at_address scan at row IH gap del: history_row.simps)
  qed
qed

lemma code_end_address: "hc_base ctx + word_of_nat (length (hc_code ctx)) = address_of ctx (length (hc_code ctx))"
  by (simp add: address_of_def)

lemma event_in_code:
  assumes "in_space ctx"
  shows "ev_rip event \<ge> hc_base ctx \<and> ev_rip event < address_of ctx (length (hc_code ctx))
    \<longleftrightarrow> event_offset ctx event \<noteq> None"
    and "event_offset ctx event = Some a \<Longrightarrow> ev_rip event = address_of ctx a \<and> a < length (hc_code ctx)"
proof -
  have "ev_rip event < address_of ctx (length (hc_code ctx))
      \<longleftrightarrow> unat (ev_rip event - hc_base ctx) < length (hc_code ctx)" if "ev_rip event \<ge> hc_base ctx"
    using that assms unat_address[OF assms order_refl]
    by (auto simp: word_less_nat_alt word_le_nat_alt unat_diff)
  then show "ev_rip event \<ge> hc_base ctx \<and> ev_rip event < address_of ctx (length (hc_code ctx))
    \<longleftrightarrow> event_offset ctx event \<noteq> None"
    by (auto simp: event_offset_def)
  show "event_offset ctx event = Some a \<Longrightarrow> ev_rip event = address_of ctx a \<and> a < length (hc_code ctx)"
    by (auto simp: event_offset_def address_of_def split: if_splits)
qed

lemma mark_events_address:
  assumes "in_space ctx" "length flags = length (hc_code ctx)"
  shows "\<exists>flags'. mark_events (hc_base ctx) (address_of ctx (length (hc_code ctx))) events flags = Some flags'
    \<and> length flags' = length (hc_code ctx)
    \<and> (\<forall>a<length (hc_code ctx). flags' ! a \<longleftrightarrow> flags ! a \<or> Some a \<in> set (map (event_offset ctx) events))"
  using assms(2)
proof (induction events arbitrary: flags)
  case Nil
  then show ?case by simp
next
  case (Cons event events)
  show ?case
  proof (cases "event_offset ctx event")
    case None
    then have "\<not> (ev_rip event \<ge> hc_base ctx \<and> ev_rip event < address_of ctx (length (hc_code ctx)))"
      using event_in_code(1)[OF assms(1), of event] by blast
    then show ?thesis using Cons None by auto
  next
    case (Some a)
    have a: "ev_rip event = address_of ctx a" "a < length (hc_code ctx)"
      using event_in_code(2)[OF assms(1) Some] by auto
    have g: "ev_rip event \<ge> hc_base ctx \<and> ev_rip event < address_of ctx (length (hc_code ctx))"
      using event_in_code(1)[OF assms(1), of event] Some by blast
    have i: "unat (ev_rip event - hc_base ctx) = a"
      using a assms(1) by (simp add: address_minus_base(2))
    have m: "mark_events (hc_base ctx) (address_of ctx (length (hc_code ctx))) (event # events) flags
      = mark_events (hc_base ctx) (address_of ctx (length (hc_code ctx))) events (flags[a := True])"
      unfolding mark_events.simps i using g a(2) Cons.prems by (simp add: vector_at_def)
    show ?thesis
      using Cons.IH[of "flags[a := True]"] Cons.prems a(2) unfolding m
      by (auto simp: nth_list_update Some)
  qed
qed

text \<open>An event inside the input fills the gap in front of it and adds its row.\<close>

lemma history_events_step:
  assumes "in_space ctx" "length flags = length (hc_code ctx)" "linear \<le> length (hc_code ctx)"
    and some: "event_offset ctx event = Some a" and nth: "all ! index = event"
  shows "history_events ctx flags (address_of ctx (length (hc_code ctx))) (event # events) index (address_of ctx linear) result
    = history_events ctx flags (address_of ctx (length (hc_code ctx))) events (Suc index)
        (address_of ctx (max linear (a + decoded_len ctx a)))
        (result @ map (history_row ctx all) (gap_rows (decoded_len ctx) (\<lambda>i. flags ! i) linear a)
          @ [history_row ctx all (EventRow index a)])"
proof -
  have a: "ev_rip event = address_of ctx a" "a < length (hc_code ctx)"
    using event_in_code(2)[OF assms(1) some] by auto
  have inside: "\<not> (ev_rip event < hc_base ctx \<or> ev_rip event \<ge> address_of ctx (length (hc_code ctx)))"
    using event_in_code(1)[OF assms(1), of event] some by (metis not_le option.distinct(1))
  have l: "a + decoded_len ctx a \<le> length (hc_code ctx)" using decoder.len[OF a(2)] by simp
  have gap: "(if address_of ctx a > address_of ctx linear
        then fill_gap ctx flags (address_of ctx linear) (address_of ctx a) result else Some result)
      = Some (result @ map (history_row ctx all) (gap_rows (decoded_len ctx) (\<lambda>i. flags ! i) linear a))"
  proof (cases "linear < a")
    case True
    then show ?thesis using assms(1-3) a(2)
      by (simp add: address_order(1) fill_gap_address[where events = all])
  next
    case False
    then have "gap_rows (decoded_len ctx) (\<lambda>i. flags ! i) linear a = []" by (subst gap_rows.simps) simp
    then show ?thesis using assms(1,3) a(2) False by (simp add: address_order(1))
  qed
  have m: "max (address_of ctx linear) (address_of ctx a + row_length (plain_row ctx a))
      = address_of ctx (max linear (a + decoded_len ctx a))"
    using assms(1,3) l by (simp add: row_length_plain address_add address_order(4))
  have row: "(plain_row ctx a)\<lparr>row_kind := (if ev_kind event = Completed then Reached else RowFaulted),
      row_event := Some index\<rparr> = history_row ctx all (EventRow index a)"
    using nth by simp
  show ?thesis
    unfolding history_events.simps using inside unfolding a(1)
    by (simp only: if_False gap bind.bind_lunit disasm_at_address[OF assms(1) less_imp_le[OF a(2)]] m row append_assoc)
qed

lemma history_events_address:
  assumes "in_space ctx" "length flags = length (hc_code ctx)" "linear \<le> length (hc_code ctx)"
    and "drop index all = events"
  shows "history_events ctx flags (address_of ctx (length (hc_code ctx))) events index (address_of ctx linear) result
    = (let (final, rows) = event_rows (decoded_len ctx) (\<lambda>i. flags ! i) (map (event_offset ctx) events) index linear
       in Some (address_of ctx final, result @ map (history_row ctx all) rows))
    \<and> fst (event_rows (decoded_len ctx) (\<lambda>i. flags ! i) (map (event_offset ctx) events) index linear) \<le> length (hc_code ctx)"
  using assms(3,4)
proof (induction events arbitrary: index linear result)
  case Nil
  then show ?case by simp
next
  case (Cons event events)
  have d: "drop (Suc index) all = events" "all ! index = event"
    using Cons.prems(2) by (metis drop_Suc list.sel(3) tl_drop, metis hd_drop_conv_nth list.sel(1) drop_eq_Nil not_le list.distinct(1))
  show ?case
  proof (cases "event_offset ctx event")
    case None
    then have "ev_rip event < hc_base ctx \<or> ev_rip event \<ge> address_of ctx (length (hc_code ctx))"
      using event_in_code(1)[OF assms(1), of event] by (metis not_le)
    then show ?thesis using Cons.IH[OF Cons.prems(1) d(1)] None by simp
  next
    case (Some a)
    have l: "a + decoded_len ctx a \<le> length (hc_code ctx)"
      using event_in_code(2)[OF assms(1) Some] decoder.len[of a ctx] by auto
    show ?thesis
      unfolding history_events_step[OF assms(1,2) Cons.prems(1) Some d(2)] using Cons.IH[of "max linear (a + decoded_len ctx a)" "Suc index"] d(1) l Cons.prems(1)
      by (auto simp: Some split: prod.splits)
  qed
qed

definition history_context :: "Decoders \<Rightarrow> Trace \<Rightarrow> DisasmBackend \<Rightarrow> DisasmSyntax \<Rightarrow> HistoryContext" where
  "history_context decoders trace backend syntax =
     \<lparr>hc_decoders = decoders, hc_backend = backend, hc_syntax = syntax, hc_code = trace_code trace,
      hc_base = reg_get (trace_seed trace) RIP\<rparr>"

definition trace_layout :: "Decoders \<Rightarrow> Trace \<Rightarrow> DisasmBackend \<Rightarrow> DisasmSyntax \<Rightarrow> layout_row list" where
  "trace_layout decoders trace backend syntax =
     (let ctx = history_context decoders trace backend syntax
      in layout (decoded_len ctx) (length (trace_code trace)) (map (event_offset ctx) (trace_execution_events trace)))"

lemma gap_rows_cong:
  assumes "t \<le> n" "\<And>a. a < n \<Longrightarrow> ev a = ev' a"
  shows "gap_rows len ev a t = gap_rows len ev' a t"
proof (induction "t - a" arbitrary: a rule: less_induct)
  case less
  show ?case
  proof (cases "a < t \<and> 0 < len a")
    case True
    have "split_point ev (Suc a) (min (a + len a) t) = split_point ev' (Suc a) (min (a + len a) t)"
    proof -
      have "find ev [Suc a..<min (a + len a) t] = find ev' [Suc a..<min (a + len a) t]"
        by (rule find_cong) (use assms in auto)
      then show ?thesis by (simp add: split_point_def)
    qed
    moreover have "gap_rows len ev b t = gap_rows len ev' b t" if "a < b" for b
      by (rule less) (use that True in arith)
    moreover have "a < split_point ev' (Suc a) (min (a + len a) t)"
      using split_point_bounds[of "Suc a" "min (a + len a) t" ev'] True by auto
    ultimately show ?thesis
      using True assms by (subst (1 2) gap_rows.simps) (simp add: Let_def)
  next
    case False
    then show ?thesis by (subst (1 2) gap_rows.simps) auto
  qed
qed

lemma event_rows_cong:
  assumes "\<And>a. a < n \<Longrightarrow> ev a = ev' a" "\<forall>a. Some a \<in> set offs \<longrightarrow> a < n"
  shows "event_rows len ev offs index linear = event_rows len ev' offs index linear"
  using assms(2)
proof (induction offs arbitrary: index linear)
  case (Cons off offs)
  then show ?case
  proof (cases off)
    case (Some a)
    then have "gap_rows len ev linear a = gap_rows len ev' linear a"
      using Cons.prems assms(1) by (intro gap_rows_cong[of a n]) auto
    then show ?thesis using Cons Some by simp
  qed simp
qed simp

lemma build_history_layout:
  assumes "trace_code trace \<noteq> []" "\<not> trace_instrumentation_detected trace"
    and "unat (reg_get (trace_seed trace) RIP) + length (trace_code trace) < 2 ^ 64"
  shows "build_history decoders trace backend syntax
    = Some (map (history_row (history_context decoders trace backend syntax) (trace_execution_events trace))
        (trace_layout decoders trace backend syntax))"
proof -
  define ctx where "ctx = history_context decoders trace backend syntax"
  let ?events = "trace_execution_events trace" and ?n = "length (hc_code ctx)"
  let ?offs = "map (event_offset ctx) ?events" and ?stop = "address_of ctx (length (hc_code ctx))"
  have ctx: "hc_code ctx = trace_code trace" "hc_base ctx = reg_get (trace_seed trace) RIP"
    "\<lparr>hc_decoders = decoders, hc_backend = backend, hc_syntax = syntax,
      hc_code = trace_code trace, hc_base = reg_get (trace_seed trace) RIP\<rparr> = ctx"
    by (simp_all add: ctx_def history_context_def)
  have space: "in_space ctx" using assms(3) by (simp add: in_space_def ctx)
  have offs: "\<forall>a. Some a \<in> set ?offs \<longrightarrow> a < ?n"
    by (auto simp: event_offset_def split: if_splits)
  obtain flags where flags: "mark_events (hc_base ctx) ?stop ?events (replicate ?n False) = Some flags"
    "length flags = ?n" "\<And>a. a < ?n \<Longrightarrow> flags ! a = (Some a \<in> set ?offs)"
    using mark_events_address[OF space, of "replicate ?n False" ?events] by auto
  obtain linear rows where rows: "event_rows (decoded_len ctx) (\<lambda>i. flags ! i) ?offs 0 0 = (linear, rows)"
    by fastforce
  have base: "hc_base ctx = address_of ctx 0" by (simp add: address_of_def)
  have ev: "history_events ctx flags ?stop ?events 0 (hc_base ctx) [] = Some (address_of ctx linear, map (history_row ctx ?events) rows)"
    "linear \<le> ?n"
    using history_events_address[OF space flags(2), of 0 0 ?events ?events "[]"] by (simp_all add: rows flip: base)
  have gap: "fill_gap ctx flags (address_of ctx linear) ?stop r
      = Some (r @ map (history_row ctx ?events) (gap_rows (decoded_len ctx) (\<lambda>i. flags ! i) linear ?n))" for r
    using space flags(2) ev(2) by (intro fill_gap_address) auto
  have "layout (decoded_len ctx) ?n ?offs = rows @ gap_rows (decoded_len ctx) (\<lambda>i. flags ! i) linear ?n"
  proof -
    have "event_rows (decoded_len ctx) (\<lambda>a. Some a \<in> set ?offs) ?offs 0 0 = (linear, rows)"
      unfolding rows[symmetric] by (rule event_rows_cong[OF _ offs]) (simp add: flags(3))
    moreover have "gap_rows (decoded_len ctx) (\<lambda>a. Some a \<in> set ?offs) linear ?n
        = gap_rows (decoded_len ctx) (\<lambda>i. flags ! i) linear ?n"
      by (rule gap_rows_cong[OF order_refl]) (simp add: flags(3))
    ultimately show ?thesis by (simp add: layout_def del: set_map)
  qed
  then have "trace_layout decoders trace backend syntax
      = rows @ gap_rows (decoded_len ctx) (\<lambda>i. flags ! i) linear ?n"
    by (simp add: trace_layout_def ctx flip: ctx_def)
  then show ?thesis
    using assms(1,2) flags(1) ev(1) gap
    by (simp add: build_history_def Let_def ctx code_end_address[of ctx, unfolded ctx] flip: ctx_def)
qed

lemma build_history_wrapped:
  assumes "unat (reg_get (trace_seed trace) RIP) + length (trace_code trace) \<ge> 2 ^ 64"
    and "length (trace_code trace) < 2 ^ 64"
  shows "build_history decoders trace backend syntax = Some []"
proof -
  define base where "base = reg_get (trace_seed trace) RIP"
  define code_end where "code_end = base + word_of_nat (length (trace_code trace))"
  have "unat code_end < unat base"
  proof -
    have "unat code_end = (unat base + length (trace_code trace)) mod 2 ^ 64"
      using assms(2) by (simp add: code_end_def unat_word_ariths unat_word_of_nat)
    also have "\<dots> = unat base + length (trace_code trace) - 2 ^ 64"
      using assms unat_lt_2p[of base] by (simp add: base_def mod_if)
    finally show ?thesis using assms unat_lt_2p[of base] by (simp add: base_def)
  qed
  then have out: "\<not> (r \<ge> base \<and> r < code_end)" "r < base \<or> r \<ge> code_end" for r
    by (auto simp: word_less_nat_alt word_le_nat_alt)
  have m: "mark_events base code_end events flags = Some flags" for events flags
    using out by (induction events) auto
  have e: "history_events ctx flags code_end events i linear result = Some (linear, result)"
    if "hc_base ctx = base" for ctx flags events i linear result
    using out(2) that by (induction events arbitrary: i) auto
  have "fill_gap ctx flags base code_end [] = Some []" for ctx flags
    using out(1)[of base] by (subst fill_gap.simps) simp
  then show ?thesis
    by (simp add: build_history_def m e Let_def flip: base_def code_end_def)
qed

lemma build_history_total:
  assumes "length (trace_code trace) < 2 ^ 64"
  shows "\<exists>rows. build_history decoders trace backend syntax = Some rows"
proof (cases "trace_code trace = [] \<or> trace_instrumentation_detected trace")
  case True
  then show ?thesis by (simp add: build_history_def)
next
  case False
  then show ?thesis
    using build_history_layout[of trace decoders backend "syntax"]
      build_history_wrapped[OF _ assms, of decoders backend "syntax"] by (metis not_le)
qed

section \<open>Properties\<close>

text \<open>
  C23: \<open>build_history\<close> always returns. For every trace whose code fits in memory and whatever the
  decoders answer, every loop ends and no vector is read outside its bounds.
\<close>

theorem build_history_returns:
  assumes "length (trace_code trace) < 2 ^ 64"
  shows "\<exists>rows. build_history decoders trace backend syntax = Some rows"
  using assms by (rule build_history_total)

lemma history_row_fields:
  "row_rip (history_row ctx events (StaticRow a l w)) = address_of ctx a"
  "row_rip (history_row ctx events (EventRow i a)) = address_of ctx a"
  "row_offset (history_row ctx events (StaticRow a l w)) = word_of_nat a"
  "row_offset (history_row ctx events (EventRow i a)) = word_of_nat a"
  "row_event (history_row ctx events (StaticRow a l w)) = None"
  "row_event (history_row ctx events (EventRow i a)) = Some i"
  "row_length (history_row ctx events (EventRow i a)) = word_of_nat (decoded_len ctx a)"
  by (simp_all add: plain_row_def address_of_def)

text \<open>What a row shows, as natural numbers: where it starts and how many bytes it has.\<close>

definition row_span :: "HistoryRow \<Rightarrow> nat \<times> nat" where
  "row_span row = (unat (row_offset row), unat (row_length row))"

fun layout_span :: "(nat \<Rightarrow> nat) \<Rightarrow> layout_row \<Rightarrow> nat \<times> nat" where
  "layout_span len (StaticRow a l w) = (a, l)"
| "layout_span len (EventRow i a) = (a, len a)"

lemma gap_rows_whole: "StaticRow a l True \<in> set (gap_rows len ev s t) \<Longrightarrow> l = len a"
proof (induction len ev s t rule: gap_rows.induct)
  case (1 len ev s t)
  then show ?case
    by (subst (asm) (2) gap_rows.simps) (auto simp: Let_def split: if_splits)
qed

lemma event_rows_whole:
  "event_rows len ev offs i linear = (final, rows) \<Longrightarrow> StaticRow a l True \<in> set rows \<Longrightarrow> l = len a"
  by (induction len ev offs i linear arbitrary: final rows rule: event_rows.induct)
    (auto simp: Let_def dest: gap_rows_whole split: prod.splits)

lemma layout_whole: "StaticRow a l True \<in> set (layout len n offs) \<Longrightarrow> l = len a"
  by (auto simp: layout_def Let_def dest: gap_rows_whole event_rows_whole[OF sym] split: prod.splits)

lemma static_rows_iff: "(a, l) \<in> set (static_rows rows) \<longleftrightarrow> (\<exists>w. StaticRow a l w \<in> set rows)"
  by (induction rows) (auto split: layout_row.splits)

lemma event_starts_iff: "(i, a) \<in> set (event_starts rows) \<longleftrightarrow> EventRow i a \<in> set rows"
  by (induction rows) (auto split: layout_row.splits)

lemma present_iff: "(i, a) \<in> set (present k xs) \<longleftrightarrow> k \<le> i \<and> i < k + length xs \<and> xs ! (i - k) = Some a"
proof (induction k xs rule: present.induct)
  case (2 k xs)
  then show ?case by (cases "i = k") (auto simp: nth_Cons' Suc_le_eq)
next
  case (3 k b xs)
  then show ?case by (cases "i = k") (auto simp: nth_Cons' Suc_le_eq)
qed simp

lemma row_span_layout:
  assumes "in_space ctx" "r \<in> set (layout (decoded_len ctx) (length (hc_code ctx)) offs)"
    and "\<forall>a. Some a \<in> set offs \<longrightarrow> a < length (hc_code ctx)"
  shows "row_span (history_row ctx events r) = layout_span (decoded_len ctx) r"
    and "layout_span (decoded_len ctx) r = (a, l) \<Longrightarrow> 0 < l \<and> a + l \<le> length (hc_code ctx)"
proof -
  note props = decoder.layout_props[OF assms(3)]
  have bounds: "0 < l \<and> a + l \<le> length (hc_code ctx)" if "layout_span (decoded_len ctx) r = (a, l)" for a l
  proof (cases r)
    case (StaticRow b m w)
    then have "(a, l) \<in> set (static_rows (layout (decoded_len ctx) (length (hc_code ctx)) offs))"
      using that assms(2) by (auto simp: static_rows_iff)
    then show ?thesis using props(1) by (auto simp: stretch_def)
  next
    case (EventRow i b)
    then have "(i, b) \<in> set (present 0 offs)" using assms(2) props(2) by (simp flip: event_starts_iff)
    then have "Some b \<in> set offs" by (auto simp: present_iff) (metis nth_mem)
    then show ?thesis using that decoder.len[of b ctx] assms(3) EventRow by auto
  qed
  then show "layout_span (decoded_len ctx) r = (a, l) \<Longrightarrow> 0 < l \<and> a + l \<le> length (hc_code ctx)" .
  obtain a l where al: "layout_span (decoded_len ctx) r = (a, l)" by fastforce
  have "a < 2 ^ 64" "l < 2 ^ 64" using bounds[OF al] assms(1) by (auto simp: in_space_def)
  then show "row_span (history_row ctx events r) = layout_span (decoded_len ctx) r"
    using al layout_whole[of a l "decoded_len ctx" "length (hc_code ctx)" offs] assms(2)
    by (cases r) (auto simp: row_span_def plain_row_def unat_word_of_nat)
qed

definition starts_event :: "Trace \<Rightarrow> nat \<Rightarrow> bool" where
  "starts_event trace a \<longleftrightarrow>
     (\<exists>e\<in>set (trace_execution_events trace). unat (ev_rip e) = unat (reg_get (trace_seed trace) RIP) + a)"

definition tiles :: "Trace \<Rightarrow> HistoryRow list \<Rightarrow> bool" where
  "tiles trace rows \<longleftrightarrow>
     (\<forall>row\<in>set rows. let (a, l) = row_span row in
        0 < l \<and> a + l \<le> length (trace_code trace) \<and> row_rip row = reg_get (trace_seed trace) RIP + row_offset row
        \<and> (row_event row = None \<longrightarrow>
             row_kind row \<in> {NotReached, Data} \<and> (\<forall>k. a \<le> k \<and> k < a + l \<longrightarrow> \<not> starts_event trace k)))
     \<and> sorted_wrt (\<lambda>(a, l) (b, _). a + l \<le> b) (map row_span (filter (\<lambda>row. row_event row = None) rows))
     \<and> (\<forall>k<length (trace_code trace). \<exists>row\<in>set rows. let (a, l) = row_span row in a \<le> k \<and> k < a + l)"

lemma static_rows_spans:
  assumes "\<forall>r\<in>set rs. row_span (history_row ctx events r) = layout_span len r"
  shows "map row_span (filter (\<lambda>row. row_event row = None) (map (history_row ctx events) rs)) = static_rows rs"
  using assms
proof (induction rs)
  case (Cons r rs)
  then show ?case by (cases r) (simp_all add: history_row_fields del: history_row.simps)
qed simp

lemma starts_event_offset:
  fixes "syntax" :: DisasmSyntax
  assumes "a < length (trace_code trace)"
  shows "Some a \<in> event_offset (history_context decoders trace backend syntax) ` set (trace_execution_events trace) \<longleftrightarrow> starts_event trace a"
proof -
  have "event_offset (history_context decoders trace backend syntax) e = Some a
      \<longleftrightarrow> unat (ev_rip e) = unat (reg_get (trace_seed trace) RIP) + a" for e
    using assms by (auto simp: event_offset_def history_context_def unat_diff word_le_nat_alt)
  then show ?thesis by (auto simp: starts_event_def image_iff) metis+
qed

lemma layout_tiles:
  fixes decoders backend "syntax" trace
  defines "ctx \<equiv> history_context decoders trace backend syntax"
  assumes space: "in_space ctx"
  shows "tiles trace (map (history_row ctx (trace_execution_events trace)) (trace_layout decoders trace backend syntax))"
proof -
  let ?events = "trace_execution_events trace" and ?n = "length (hc_code ctx)"
  let ?offs = "map (event_offset ctx) ?events"
  define rs where "rs = layout (decoded_len ctx) ?n ?offs"
  have ctx: "hc_code ctx = trace_code trace" "hc_base ctx = reg_get (trace_seed trace) RIP"
    by (simp_all add: ctx_def history_context_def)
  have l: "trace_layout decoders trace backend syntax = rs"
    by (simp add: trace_layout_def rs_def ctx flip: ctx_def)
  have offs: "\<forall>a. Some a \<in> set ?offs \<longrightarrow> a < ?n"
    by (auto simp: event_offset_def split: if_splits)
  note props = decoder.layout_props[OF offs, folded rs_def]
  have span: "row_span (history_row ctx ?events r) = layout_span (decoded_len ctx) r"
    "\<And>a l. layout_span (decoded_len ctx) r = (a, l) \<Longrightarrow> 0 < l \<and> a + l \<le> ?n" if "r \<in> set rs" for r
    using row_span_layout[OF space _ offs] that by (auto simp: rs_def)
  have ev: "Some a \<in> set ?offs \<longleftrightarrow> starts_event trace a" if "a < ?n" for a
    using starts_event_offset[of a trace decoders backend "syntax"] that ctx by (simp flip: ctx_def)
  have row: "let (a, l) = row_span (history_row ctx ?events r) in
      0 < l \<and> a + l \<le> ?n \<and> row_rip (history_row ctx ?events r) = hc_base ctx + row_offset (history_row ctx ?events r)
      \<and> (row_event (history_row ctx ?events r) = None \<longrightarrow> row_kind (history_row ctx ?events r) \<in> {NotReached, Data}
          \<and> (\<forall>k. a \<le> k \<and> k < a + l \<longrightarrow> \<not> starts_event trace k))" if r: "r \<in> set rs" for r
  proof (cases r)
    case (StaticRow b m w)
    then have "(b, m) \<in> set (static_rows rs)" using r by (auto simp: static_rows_iff)
    then have "\<forall>k. b \<le> k \<and> k < b + m \<longrightarrow> \<not> starts_event trace k"
      using props(1) ev by (fastforce simp: stretch_def)
    then show ?thesis using span[OF r] by (simp add: StaticRow plain_row_def)
  next
    case (EventRow i b)
    then show ?thesis using span[OF r] by (simp add: plain_row_def)
  qed
  have cover: "\<exists>r\<in>set rs. let (a, l) = row_span (history_row ctx ?events r) in a \<le> k \<and> k < a + l" if "k < ?n" for k
    using props(3)[OF that] unfolding covered_def
  proof
    assume "\<exists>(b, l)\<in>set (static_rows rs). b \<le> k \<and> k < b + l"
    then obtain b m w where "StaticRow b m w \<in> set rs" "b \<le> k" "k < b + m" by (auto simp: static_rows_iff)
    then show ?thesis by (intro bexI[of _ "StaticRow b m w"]) (simp_all add: span del: history_row.simps)
  next
    assume "\<exists>e. Some e \<in> set ?offs \<and> e \<le> k \<and> k < e + decoded_len ctx e"
    then obtain e where e: "Some e \<in> set ?offs" "e \<le> k" "k < e + decoded_len ctx e" by blast
    then obtain i where "i < length ?offs" "?offs ! i = Some e" by (metis in_set_conv_nth)
    then have "EventRow i e \<in> set rs" using props(2) by (simp add: present_iff flip: event_starts_iff)
    then show ?thesis using e by (intro bexI[of _ "EventRow i e"]) (simp_all add: span del: history_row.simps)
  qed
  have "sorted_wrt (\<lambda>(a, l) (b, _). a + l \<le> b) (static_rows rs)"
    using props(1) by (simp add: stretch_def)
  then show ?thesis
    unfolding tiles_def l using row cover static_rows_spans[of rs ctx ?events "decoded_len ctx"] span(1)
    by (simp add: ctx)
qed

text \<open>
  C5: the rows of a history tile the input. Every row is non-empty, lies inside the input and has the
  address of its offset; rows that no event produced are marked not-reached or data, contain no event
  start, and follow each other without overlap; and every input byte is inside some row.
\<close>

theorem build_history_tiles:
  assumes "build_history decoders trace backend syntax = Some rows"
    and "trace_code trace \<noteq> []" "\<not> trace_instrumentation_detected trace"
    and "unat (reg_get (trace_seed trace) RIP) + length (trace_code trace) < 2 ^ 64"
  shows "tiles trace rows"
proof -
  have "in_space (history_context decoders trace backend syntax)"
    using assms(4) by (simp add: in_space_def history_context_def)
  from layout_tiles[OF this] show ?thesis using assms by (simp add: build_history_layout)
qed

text \<open>Whether a history has rows does not depend on the decoder.\<close>

lemma build_history_empty:
  assumes "length (trace_code trace) < 2 ^ 64" "build_history decoders trace backend syn = Some []"
  shows "build_history decoders trace backend' syn' = Some []"
proof (cases "trace_code trace = [] \<or> trace_instrumentation_detected trace")
  case True
  then show ?thesis by (simp add: build_history_def)
next
  case False
  show ?thesis
  proof (cases "unat (reg_get (trace_seed trace) RIP) + length (trace_code trace) < 2 ^ 64")
    case True
    then have "in_space (history_context decoders trace backend syn)"
      by (simp add: in_space_def history_context_def)
    from layout_tiles[OF this] have "tiles trace []"
      using assms(2) False True by (simp add: build_history_layout)
    then have "\<not> 0 < length (trace_code trace)" by (fastforce simp: tiles_def)
    then show ?thesis using False by simp
  next
    case False
    then show ?thesis using build_history_wrapped[OF _ assms(1)] by (simp add: not_less)
  qed
qed

lemma event_rows_filter:
  "map (\<lambda>row. (the (row_event row), row_rip row, row_kind row))
      (filter (\<lambda>row. row_event row \<noteq> None) (map (history_row ctx events) rs))
   = map (\<lambda>(i, a). (i, address_of ctx a, if ev_kind (events ! i) = Completed then Reached else RowFaulted))
      (event_starts rs)"
proof (induction rs)
  case (Cons r rs)
  then show ?case by (cases r) (simp_all add: plain_row_def address_of_def)
qed simp

definition inside_input :: "Trace \<Rightarrow> ExecutionEvent \<Rightarrow> bool" where
  "inside_input trace e \<longleftrightarrow>
     unat (reg_get (trace_seed trace) RIP) \<le> unat (ev_rip e)
     \<and> unat (ev_rip e) < unat (reg_get (trace_seed trace) RIP) + length (trace_code trace)"

lemma present_events:
  assumes "\<And>e. event_offset ctx e = (if P e then Some (unat (ev_rip e - hc_base ctx)) else None)"
    and "es = drop k all"
  shows "map (\<lambda>(i, a). (i, address_of ctx a, if ev_kind (all ! i) = Completed then Reached else RowFaulted))
      (present k (map (event_offset ctx) es))
    = map (\<lambda>(i, e). (i, ev_rip e, if ev_kind e = Completed then Reached else RowFaulted))
      (present k (map (\<lambda>e. if P e then Some e else None) es))"
  using assms(2)
proof (induction es arbitrary: k)
  case (Cons e es)
  have "drop k all = all ! k # drop (Suc k) all"
    using Cons.prems by (metis Cons_nth_drop_Suc drop_eq_Nil list.distinct(1) not_le)
  then have "es = drop (Suc k) all" "e = all ! k" using Cons.prems by simp_all
  then show ?case using Cons.IH[of "Suc k"] by (simp add: assms(1) address_of_def)
qed simp

lemma build_history_event_rows:
  assumes "build_history decoders trace backend syntax = Some rows"
    and "trace_code trace \<noteq> []" "\<not> trace_instrumentation_detected trace"
    and "unat (reg_get (trace_seed trace) RIP) + length (trace_code trace) < 2 ^ 64"
  shows "map (\<lambda>row. (the (row_event row), row_rip row, row_kind row)) (filter (\<lambda>row. row_event row \<noteq> None) rows)
    = map (\<lambda>(i, e). (i, ev_rip e, if ev_kind e = Completed then Reached else RowFaulted))
        (present 0 (map (\<lambda>e. if inside_input trace e then Some e else None) (trace_execution_events trace)))"
proof -
  define ctx where "ctx = history_context decoders trace backend syntax"
  let ?events = "trace_execution_events trace"
  have ctx: "hc_code ctx = trace_code trace" "hc_base ctx = reg_get (trace_seed trace) RIP"
    by (simp_all add: ctx_def history_context_def)
  have offs: "\<forall>a. Some a \<in> set (map (event_offset ctx) ?events) \<longrightarrow> a < length (hc_code ctx)"
    by (auto simp: event_offset_def split: if_splits)
  have "event_offset ctx e = (if inside_input trace e then Some (unat (ev_rip e - hc_base ctx)) else None)" for e
    by (auto simp: event_offset_def inside_input_def word_le_nat_alt unat_diff ctx)
  note events = present_events[OF this, of ?events 0 ?events]
  have rows: "rows = map (history_row ctx ?events)
      (layout (decoded_len ctx) (length (hc_code ctx)) (map (event_offset ctx) ?events))"
    using assms by (simp add: build_history_layout trace_layout_def ctx flip: ctx_def)
  show ?thesis
    unfolding rows event_rows_filter decoder.layout_props(2)[OF offs] using events by simp
qed

text \<open>
  C11: the rows that events produced are exactly the events inside the input, in execution order, each
  with its index, its address and the kind that says whether it completed or faulted.
\<close>

theorem build_history_events:
  assumes "build_history decoders trace backend syntax = Some rows"
    and "trace_code trace \<noteq> []" "\<not> trace_instrumentation_detected trace"
    and "unat (reg_get (trace_seed trace) RIP) + length (trace_code trace) < 2 ^ 64"
  shows "map (\<lambda>row. (the (row_event row), row_rip row, row_kind row)) (filter (\<lambda>row. row_event row \<noteq> None) rows)
    = map (\<lambda>(i, e). (i, ev_rip e, if ev_kind e = Completed then Reached else RowFaulted))
        (present 0 (map (\<lambda>e. if inside_input trace e then Some e else None) (trace_execution_events trace)))"
  using assms by (rule build_history_event_rows)

section \<open>Example\<close>

definition example_decode :: "u64 \<Rightarrow> u8 list \<Rightarrow> (string \<times> u8) option" where
  "example_decode address code =
     (case code of [] \<Rightarrow> None | b # _ \<Rightarrow> if b = 0x90 then Some ('' nop '', 1) else if b = 0xEB then Some (''jmp'', 2) else None)"

definition example_decoders :: Decoders where
  "example_decoders =
     \<lparr>ZydisDisassembleIntel = example_decode, ZydisDisassembleATT = example_decode, NdDecodeToText = example_decode,
      cs_disasm = (\<lambda>_ _ _. None), xed_decode_format = (\<lambda>_. example_decode)\<rparr>"

definition example_trace :: Trace where
  "example_trace = default_trace\<lparr>trace_code := [0x90, 0xEB, 0x90, 0x90], trace_seed := default_registers\<lparr>rip := 0x1000\<rparr>,
     trace_execution_events := [\<lparr>ev_rip = 0x1000, ev_registers = default_registers, ev_kind = Completed\<rparr>,
       \<lparr>ev_rip = 0x1002, ev_registers = default_registers, ev_kind = EventFaulted\<rparr>]\<rparr>"

lemma example_trace_fits:
  "trace_code example_trace \<noteq> []" "\<not> trace_instrumentation_detected example_trace"
  "unat (reg_get (trace_seed example_trace) RIP) + length (trace_code example_trace) < 2 ^ 64"
  by (simp_all add: example_trace_def default_trace_def reg_get_def)

theorem build_history_returns_witness: "\<exists>rows. build_history example_decoders example_trace Zydis Intel = Some rows"
  by (rule build_history_returns) (simp add: example_trace_def)

theorem build_history_tiles_witness:
  "\<exists>rows. build_history example_decoders example_trace Xed ATT = Some rows \<and> tiles example_trace rows"
  using build_history_tiles[OF _ example_trace_fits] build_history_layout[OF example_trace_fits] by blast

theorem build_history_events_witness:
  "\<exists>rows. build_history example_decoders example_trace Zydis Intel = Some rows
     \<and> map (\<lambda>row. (the (row_event row), row_rip row, row_kind row)) (filter (\<lambda>row. row_event row \<noteq> None) rows)
         = [(0, 0x1000, Reached), (1, 0x1002, RowFaulted)]"
proof -
  obtain rows where rows: "build_history example_decoders example_trace Zydis Intel = Some rows"
    using build_history_layout[OF example_trace_fits] by blast
  from build_history_events[OF this example_trace_fits] rows show ?thesis
    by (simp add: inside_input_def example_trace_def default_trace_def reg_get_def)
qed

end
