(* ===== verification/Engine.thy ===== *)
theory Engine
  imports Address History
begin

text \<open>
  \<open>prepare_platform_run\<close> of src/src/os.cpp and \<open>run_engine\<close> of src/src/bme_core.cpp. \<open>run_platform_steps\<close> is
  implemented once per platform, so \<open>run_engine\<close> takes it as an argument; the locale \<open>stepper\<close> is the
  contract it relies on, stated with \<open>recording\<close>, and the theories Linux and Windows interpret it.
\<close>

section \<open>prepare\_platform\_run\<close>

definition prepare_platform_run ::
  "bool \<Rightarrow> PlatformRunRequest \<Rightarrow> PlatformRunResult \<Rightarrow> bool \<times> PlatformRunResult" where
  "prepare_platform_run instrumentation_detected request result =
     (let result = result\<lparr>res_seed := req_seed request\<rparr>
      in if req_code request = []
         then (False, result\<lparr>res_outcome := Idle, res_error := Some NoCodeToRun\<rparr>)
         else if (case req_stop_offset request of None \<Rightarrow> False | Some offset \<Rightarrow> offset \<ge> length (req_code request))
         then (False, result\<lparr>res_outcome := Error, res_error := Some StopOffsetOutside\<rparr>)
         else if instrumentation_detected
         then (False, result\<lparr>res_outcome := Error, res_instrumentation_detected := True,
                 res_error := Some InstrumentationRefusal\<rparr>)
         else (True, result))"

text \<open>\<open>std::min(max_steps != 0 ? max_steps : 1, MAX_STEPS_LIMIT)\<close>, in the engine and in both platforms.\<close>

definition effective_cap :: "nat \<Rightarrow> nat" where
  "effective_cap max_steps = min (if max_steps \<noteq> 0 then max_steps else 1) MAX_STEPS_LIMIT"

section \<open>run\_engine\<close>

definition fault_access_action :: "FaultAccess \<Rightarrow> string" where
  "fault_access_action access =
     (case access of Read \<Rightarrow> ''reading'' | Write \<Rightarrow> ''writing'' | Execute \<Rightarrow> ''executing'' | _ \<Rightarrow> ''accessing'')"

definition execution_event :: "PlatformStep \<Rightarrow> ExecutionEvent" where
  "execution_event s =
     \<lparr>ev_rip = step_rip s, ev_registers = step_registers s,
      ev_kind = (if step_faulted s then EventFaulted else Completed)\<rparr>"

definition executed_count :: "Trace \<Rightarrow> nat" where
  "executed_count trace = length (filter (\<lambda>e. ev_kind e = Completed) (trace_execution_events trace))"

definition describe_stop :: "u64 \<Rightarrow> u64 \<Rightarrow> PlatformRunResult \<Rightarrow> Trace \<Rightarrow> Trace" where
  "describe_stop granularity page_size result trace =
     (let executed = executed_count trace
      in case trace_outcome trace of
           Stopped \<Rightarrow>
             (if res_stopped_at_target result
              then trace\<lparr>trace_message := Some (StoppedAtSelectedRow (res_stop_address result) executed),
                         trace_stop_reason := Some StoppedHereSelectedRow\<rparr>
              else trace\<lparr>trace_message := Some (StoppedAtInt3 (res_stop_address result) executed),
                         trace_stop_reason := Some StoppedHereInt3\<rparr>)
             \<lparr>trace_stop_address := res_stop_address result\<rparr>
         | Faulted \<Rightarrow>
             (let memory_detail = map_option (\<lambda>address.
                    (fault_access_action (res_fault_access result), address,
                     format_address_value granularity page_size trace address True)) (res_fault_memory_address result)
              in trace\<lparr>trace_message := Some (FaultMessage (res_fault_name result) (res_stop_address result) memory_detail executed),
                       trace_stop_reason := Some (FaultedHere (res_fault_name result)),
                       trace_stop_address := res_stop_address result\<rparr>)
         | AbortedCap \<Rightarrow>
             trace\<lparr>trace_message := Some (HitStepCap (trace_effective_max_steps trace)),
                   trace_stop_reason := Some StepCapReached\<rparr>
         | _ \<Rightarrow>
             (let events = trace_execution_events trace;
                  next_rip = (if events = [] then reg_get (trace_seed trace) RIP
                    else reg_get (ev_registers (last events)) RIP);
                  code_end = reg_get (trace_seed trace) RIP + word_of_nat (length (trace_code trace))
              in trace\<lparr>trace_message := Some (FinishedMessage executed),
                       trace_stop_reason := Some (if next_rip = code_end then ReachedEndOfInput else LeftInputRange)\<rparr>))"

record EngineHost =
  host_cpu_fingerprint :: "CPUFingerprint option"
  host_page_size :: u64
  host_granularity :: u64

definition run_engine ::
  "EngineHost \<Rightarrow> (PlatformRunRequest \<Rightarrow> PlatformRunResult) \<Rightarrow> u8 list \<Rightarrow> Registers \<Rightarrow> nat \<Rightarrow> DisasmBackend \<Rightarrow> DisasmSyntax
   \<Rightarrow> bool \<Rightarrow> nat option \<Rightarrow> Trace" where
  "run_engine host run_platform_steps code seed max_steps backend syntax seed_data_pointers stop_offset =
     (let trace = default_trace\<lparr>trace_cpu_fingerprint := host_cpu_fingerprint host, trace_requested_seed := seed,
            trace_requested_backend := backend, trace_requested_syntax := syntax,
            trace_effective_max_steps := effective_cap max_steps,
            trace_seed_data_pointers := seed_data_pointers, trace_code := code\<rparr>;
          result = run_platform_steps \<lparr>req_code = code, req_seed = seed,
            req_max_steps = trace_effective_max_steps trace, req_stop_offset = stop_offset,
            req_seed_data_pointers = seed_data_pointers\<rparr>;
          trace = trace\<lparr>trace_seed := res_seed result, trace_outcome := res_outcome result,
            trace_instrumentation_detected := res_instrumentation_detected result,
            trace_fault_memory_address := res_fault_memory_address result,
            trace_fault_access := res_fault_access result\<rparr>
      in if res_instrumentation_detected result
         then trace\<lparr>trace_message := Some (NoTraceRecorded (res_error result))\<rparr>
         else case res_error result of
                Some e \<Rightarrow> trace\<lparr>trace_message := Some (EngineError e)\<rparr>
              | None \<Rightarrow>
                  describe_stop (host_granularity host) (host_page_size host) result
                    (trace\<lparr>trace_execution_events := map execution_event (res_steps result)\<rparr>))"

section \<open>The contract of run\_platform\_steps\<close>

text \<open>
  A recording of single steps. \<open>chain r steps\<close>: the completed steps, each starting where the previous
  one left the instruction pointer, the first at \<open>r\<close>.
\<close>

fun chain :: "u64 \<Rightarrow> PlatformStep list \<Rightarrow> bool" where
  "chain r [] = True"
| "chain r (s # ss) \<longleftrightarrow> \<not> step_faulted s \<and> step_rip s = r \<and> chain (rip (step_registers s)) ss"

definition final_rip :: "u64 \<Rightarrow> PlatformStep list \<Rightarrow> u64" where
  "final_rip r steps = (if steps = [] then r else rip (step_registers (last steps)))"

definition in_code :: "u64 \<Rightarrow> u64 \<Rightarrow> u64 \<Rightarrow> bool" where
  "in_code base code_end r \<longleftrightarrow> base \<le> r \<and> r < code_end"

definition target_of :: "u64 \<Rightarrow> nat option \<Rightarrow> u64 option" where
  "target_of base stop_offset = map_option (\<lambda>offset. base + word_of_nat offset) stop_offset"

text \<open>
  The states in which stepping goes on: no step has faulted, every step so far stayed in the code, none
  has reached the target, and the cap is not reached.
\<close>

definition running :: "u64 \<Rightarrow> u64 \<Rightarrow> u64 option \<Rightarrow> nat \<Rightarrow> PlatformStep list \<Rightarrow> bool" where
  "running base code_end target cap steps \<longleftrightarrow>
     chain base steps \<and> length steps < cap
     \<and> (\<forall>s\<in>set steps. in_code base code_end (rip (step_registers s)) \<and> target \<noteq> Some (rip (step_registers s)))"

text \<open>
  How a recording may end. A completed run is a running state with one more completed step that ended
  it; a breakpoint adds no step; a fault adds one faulted step.
\<close>

definition ends_with_step ::
  "u64 \<Rightarrow> u64 \<Rightarrow> u64 option \<Rightarrow> nat \<Rightarrow> PlatformStep list \<Rightarrow> PlatformStep \<Rightarrow> bool" where
  "ends_with_step base code_end target cap steps s \<longleftrightarrow>
     running base code_end target cap steps \<and> \<not> step_faulted s \<and> step_rip s = final_rip base steps"

inductive ends :: "u64 \<Rightarrow> u64 \<Rightarrow> u64 option \<Rightarrow> nat \<Rightarrow> PlatformRunResult \<Rightarrow> bool"
  for base code_end target cap where
  at_start: "res_outcome r = Stopped \<Longrightarrow> res_stopped_at_target r \<Longrightarrow> res_steps r = [] \<Longrightarrow> target = Some base
    \<Longrightarrow> res_stop_address r = base \<Longrightarrow> ends base code_end target cap r"
| at_target: "ends_with_step base code_end target cap steps s \<Longrightarrow> target = Some (rip (step_registers s))
    \<Longrightarrow> res_outcome r = Stopped \<Longrightarrow> res_stopped_at_target r \<Longrightarrow> res_steps r = steps @ [s]
    \<Longrightarrow> res_stop_address r = rip (step_registers s) \<Longrightarrow> ends base code_end target cap r"
| finished: "ends_with_step base code_end target cap steps s \<Longrightarrow> target \<noteq> Some (rip (step_registers s))
    \<Longrightarrow> \<not> in_code base code_end (rip (step_registers s))
    \<Longrightarrow> res_outcome r = Finished \<Longrightarrow> res_steps r = steps @ [s] \<Longrightarrow> ends base code_end target cap r"
| capped: "ends_with_step base code_end target cap steps s \<Longrightarrow> target \<noteq> Some (rip (step_registers s))
    \<Longrightarrow> in_code base code_end (rip (step_registers s)) \<Longrightarrow> length steps + 1 = cap
    \<Longrightarrow> res_outcome r = AbortedCap \<Longrightarrow> res_steps r = steps @ [s] \<Longrightarrow> ends base code_end target cap r"
| breakpoint: "running base code_end target cap steps \<Longrightarrow> res_outcome r = Stopped \<Longrightarrow> \<not> res_stopped_at_target r
    \<Longrightarrow> res_steps r = steps \<Longrightarrow> res_stop_address r = final_rip base steps \<Longrightarrow> ends base code_end target cap r"
| faulted: "running base code_end target cap steps \<Longrightarrow> step_faulted s \<Longrightarrow> res_outcome r = Faulted
    \<Longrightarrow> res_steps r = steps @ [s] \<Longrightarrow> res_stop_address r = step_rip s \<Longrightarrow> ends base code_end target cap r"

inductive_cases ends_cases: "ends base code_end target cap r"

definition recording :: "PlatformRunRequest \<Rightarrow> PlatformRunResult \<Rightarrow> bool" where
  "recording req r \<longleftrightarrow>
     (let base = rip (res_seed r)
      in ends base (base + word_of_nat (length (req_code req))) (target_of base (req_stop_offset req))
           (effective_cap (req_max_steps req)) r)"

section \<open>What the engine promises\<close>

lemma effective_cap_bounds: "1 \<le> effective_cap n \<and> effective_cap n \<le> MAX_STEPS_LIMIT"
  by (simp add: effective_cap_def MAX_STEPS_LIMIT_def)

lemma effective_cap_idem [simp]: "effective_cap (effective_cap n) = effective_cap n"
  by (simp add: effective_cap_def MAX_STEPS_LIMIT_def)

lemma chain_append: "chain r (xs @ ys) \<longleftrightarrow> chain r xs \<and> chain (final_rip r xs) ys"
  by (induction xs arbitrary: r) (auto simp: final_rip_def)

lemma final_rip_snoc [simp]: "final_rip r (xs @ [s]) = rip (step_registers s)"
  by (simp add: final_rip_def)

lemma final_rip_Nil [simp]: "final_rip r [] = r"
  by (simp add: final_rip_def)

lemma running_Nil: "0 < cap \<Longrightarrow> running base code_end target cap []"
  by (simp add: running_def)

lemma running_snoc:
  assumes "ends_with_step base code_end target cap steps s"
    and "in_code base code_end (rip (step_registers s))" "target \<noteq> Some (rip (step_registers s))"
    and "length steps + 1 < cap"
  shows "running base code_end target cap (steps @ [s])"
  using assms by (auto simp: ends_with_step_def running_def chain_append)

text \<open>The same chain on execution events.\<close>

fun event_chain :: "u64 \<Rightarrow> ExecutionEvent list \<Rightarrow> bool" where
  "event_chain r [] = True"
| "event_chain r (e # es) \<longleftrightarrow> ev_kind e = Completed \<and> ev_rip e = r \<and> event_chain (rip (ev_registers e)) es"

definition event_final :: "u64 \<Rightarrow> ExecutionEvent list \<Rightarrow> u64" where
  "event_final r events = (if events = [] then r else rip (ev_registers (last events)))"

lemma chain_events: "chain r steps \<Longrightarrow> event_chain r (map execution_event steps)"
  by (induction steps arbitrary: r) (auto simp: execution_event_def)

lemma event_final_map: "event_final r (map execution_event steps) = final_rip r steps"
  by (simp add: event_final_def final_rip_def last_map execution_event_def)

lemma chain_completed: "chain r steps \<Longrightarrow> filter (\<lambda>e. ev_kind e = Completed) (map execution_event steps) = map execution_event steps"
  by (induction steps arbitrary: r) (auto simp: execution_event_def)

text \<open>
  What a returned trace says, for each outcome: the completed events form a chain from the first
  instruction, at most one faulted event follows, and stop reason, stop address and message agree
  with them.
\<close>

definition trace_of_run :: "Trace \<Rightarrow> nat option \<Rightarrow> ExecutionEvent list \<Rightarrow> bool" where
  "trace_of_run t stop_offset events \<longleftrightarrow>
     (let base = rip (trace_seed t); code_end = base + word_of_nat (length (trace_code t));
          final = event_final base events
      in event_chain base events \<and> length events \<le> trace_effective_max_steps t
         \<and> executed_count t = length events
         \<and> (case trace_outcome t of
              Finished \<Rightarrow> trace_execution_events t = events \<and> events \<noteq> [] \<and> \<not> in_code base code_end final
                \<and> trace_stop_reason t = Some (if final = code_end then ReachedEndOfInput else LeftInputRange)
                \<and> trace_message t = Some (FinishedMessage (length events))
            | AbortedCap \<Rightarrow> trace_execution_events t = events \<and> in_code base code_end final
                \<and> length events = trace_effective_max_steps t
                \<and> trace_stop_reason t = Some StepCapReached \<and> trace_message t = Some (HitStepCap (length events))
            | Stopped \<Rightarrow> trace_execution_events t = events \<and> trace_stop_address t = final
                \<and> (trace_stop_reason t = Some StoppedHereSelectedRow \<and> target_of base stop_offset = Some final
                     \<and> trace_message t = Some (StoppedAtSelectedRow final (length events))
                   \<or> trace_stop_reason t = Some StoppedHereInt3
                     \<and> trace_message t = Some (StoppedAtInt3 final (length events)))
            | Faulted \<Rightarrow> (\<exists>f name detail. trace_execution_events t = events @ [f] \<and> ev_kind f = EventFaulted
                \<and> trace_stop_address t = ev_rip f \<and> trace_stop_reason t = Some (FaultedHere name)
                \<and> trace_message t = Some (FaultMessage name (ev_rip f) detail (length events)))
            | _ \<Rightarrow> False))"

definition trace_failed :: "Trace \<Rightarrow> bool" where
  "trace_failed t \<longleftrightarrow>
     trace_outcome t \<in> {Idle, Error} \<and> trace_execution_events t = [] \<and> trace_stop_reason t = None
     \<and> (\<exists>e. trace_message t = Some (EngineError e)
          \<or> trace_message t = Some (NoTraceRecorded (Some e)) \<and> trace_instrumentation_detected t)"

lemma reg_get_RIP [simp]: "reg_get r RIP = rip r"
  by (simp add: reg_get_def)

lemmas describe_eval = trace_of_run_def describe_stop_def Let_def executed_count_def event_final_map
  chain_events chain_completed

lemma chain_ends: "ends_with_step base code_end target cap steps s \<Longrightarrow> chain base (steps @ [s])"
  "ends_with_step base code_end target cap steps s \<Longrightarrow> length (steps @ [s]) \<le> cap"
  by (simp_all add: ends_with_step_def running_def chain_append)

lemma completed_trace:
  assumes "chain base steps" "length steps \<le> trace_effective_max_steps t" "base = rip (trace_seed t)"
    and "trace_execution_events t = map execution_event steps"
  defines "final \<equiv> final_rip base steps" and "n \<equiv> length steps"
    and "code_end \<equiv> base + word_of_nat (length (trace_code t))"
  shows "trace_outcome t = Finished \<Longrightarrow> steps \<noteq> [] \<Longrightarrow> \<not> in_code base code_end final \<Longrightarrow>
      trace_of_run (describe_stop g p r t) stop_offset (map execution_event steps)"
    and "trace_outcome t = AbortedCap \<Longrightarrow> in_code base code_end final \<Longrightarrow> n = trace_effective_max_steps t \<Longrightarrow>
      trace_of_run (describe_stop g p r t) stop_offset (map execution_event steps)"
    and "trace_outcome t = Stopped \<Longrightarrow> res_stop_address r = final \<Longrightarrow>
      res_stopped_at_target r \<longrightarrow> target_of base stop_offset = Some final \<Longrightarrow>
      trace_of_run (describe_stop g p r t) stop_offset (map execution_event steps)"
  using assms(1-4)
  by (simp_all add: describe_eval final_def n_def code_end_def final_rip_def last_map execution_event_def)

lemma recording_trace:
  assumes "ends base code_end target cap r"
    and t: "base = rip (trace_seed t)" "code_end = base + word_of_nat (length (trace_code t))"
      "target = target_of base stop_offset" "cap = trace_effective_max_steps t"
      "trace_outcome t = res_outcome r" "trace_execution_events t = map execution_event (res_steps r)"
  shows "\<exists>events. trace_of_run (describe_stop g p r t) stop_offset events"
  using assms(1)
proof cases
  case at_start
  then have "trace_of_run (describe_stop g p r t) stop_offset (map execution_event [])"
    using t by (intro completed_trace(3)[of base]) simp_all
  then show ?thesis ..
next
  case (at_target steps s)
  then have "trace_of_run (describe_stop g p r t) stop_offset (map execution_event (steps @ [s]))"
    using t chain_ends[OF at_target(1)] by (intro completed_trace(3)[of base]) simp_all
  then show ?thesis ..
next
  case (finished steps s)
  then have "trace_of_run (describe_stop g p r t) stop_offset (map execution_event (steps @ [s]))"
    using t chain_ends[OF finished(1)] by (intro completed_trace(1)[of base]) simp_all
  then show ?thesis ..
next
  case (capped steps s)
  then have "trace_of_run (describe_stop g p r t) stop_offset (map execution_event (steps @ [s]))"
    using t chain_ends[OF capped(1)] by (intro completed_trace(2)[of base]) simp_all
  then show ?thesis ..
next
  case (breakpoint steps)
  then have "trace_of_run (describe_stop g p r t) stop_offset (map execution_event steps)"
    using t by (intro completed_trace(3)[of base]) (simp_all add: running_def)
  then show ?thesis ..
next
  case (faulted steps s)
  then have "chain base steps" "length steps \<le> cap" by (simp_all add: running_def)
  then have "trace_of_run (describe_stop g p r t) stop_offset (map execution_event steps)"
    using t faulted by (simp add: describe_eval) (simp add: execution_event_def)
  then show ?thesis ..
qed

section \<open>The contract as an interface\<close>

locale stepper =
  fixes run :: "PlatformRunRequest \<Rightarrow> PlatformRunResult"
  assumes recorded: "res_error (run req) = None \<Longrightarrow> recording req (run req)"
    and failed: "res_error (run req) \<noteq> None \<Longrightarrow> res_outcome (run req) \<in> {Idle, Error}"
    and refused: "res_instrumentation_detected (run req) \<Longrightarrow> res_error (run req) = Some InstrumentationRefusal"
begin

lemma run_engine_trace:
  fixes host code seed max_steps backend "syntax" seed_data_pointers stop_offset
  defines "t \<equiv> run_engine host run code seed max_steps backend syntax seed_data_pointers stop_offset"
  shows "trace_code t = code \<and> trace_effective_max_steps t = effective_cap max_steps
    \<and> (trace_failed t \<or> (\<exists>events. trace_of_run t stop_offset events))"
proof -
  define req where "req = \<lparr>req_code = code, req_seed = seed, req_max_steps = effective_cap max_steps,
    req_stop_offset = stop_offset, req_seed_data_pointers = seed_data_pointers\<rparr>"
  define t0 where "t0 = default_trace\<lparr>trace_cpu_fingerprint := host_cpu_fingerprint host, trace_requested_seed := seed,
    trace_requested_backend := backend, trace_requested_syntax := syntax,
    trace_effective_max_steps := effective_cap max_steps, trace_seed_data_pointers := seed_data_pointers,
    trace_code := code, trace_seed := res_seed (run req), trace_outcome := res_outcome (run req),
    trace_instrumentation_detected := res_instrumentation_detected (run req),
    trace_fault_memory_address := res_fault_memory_address (run req), trace_fault_access := res_fault_access (run req)\<rparr>"
  have t: "t = (if res_instrumentation_detected (run req)
      then t0\<lparr>trace_message := Some (NoTraceRecorded (res_error (run req)))\<rparr>
      else case res_error (run req) of
          Some e \<Rightarrow> t0\<lparr>trace_message := Some (EngineError e)\<rparr>
        | None \<Rightarrow> describe_stop (host_granularity host) (host_page_size host) (run req)
            (t0\<lparr>trace_execution_events := map execution_event (res_steps (run req))\<rparr>))"
    by (simp add: t_def run_engine_def req_def t0_def Let_def split: option.split)
  have d: "trace_code (describe_stop g p r x) = trace_code x"
    "trace_effective_max_steps (describe_stop g p r x) = trace_effective_max_steps x" for g p r x
    by (simp_all add: describe_stop_def Let_def split: Outcome.splits)
  have t0: "trace_seed t0 = res_seed (run req)" "trace_code t0 = code" "trace_outcome t0 = res_outcome (run req)"
    "trace_effective_max_steps t0 = effective_cap max_steps" "trace_execution_events t0 = []" "trace_stop_reason t0 = None"
    "trace_instrumentation_detected t0 = res_instrumentation_detected (run req)"
    by (simp_all add: t0_def default_trace_def)
  let ?t1 = "t0\<lparr>trace_execution_events := map execution_event (res_steps (run req))\<rparr>"
  show ?thesis
  proof (cases "res_error (run req)")
    case None
    have "ends (rip (res_seed (run req))) (rip (res_seed (run req)) + word_of_nat (length code))
        (target_of (rip (res_seed (run req))) stop_offset) (effective_cap max_steps) (run req)"
      using recorded[OF None] by (simp add: recording_def Let_def req_def)
    from recording_trace[OF this, where stop_offset = stop_offset and t = ?t1]
    have "\<exists>events. trace_of_run (describe_stop (host_granularity host) (host_page_size host) (run req) ?t1) stop_offset events"
      by (simp add: t0)
    moreover have "t = describe_stop (host_granularity host) (host_page_size host) (run req) ?t1"
      using None refused[of req] by (auto simp: t)
    ultimately show ?thesis using d by (simp add: t0)
  next
    case (Some e)
    then show ?thesis using failed[of req] refused[of req]
      by (auto simp: t t0 trace_failed_def)
  qed
qed

end

text \<open>What \<open>prepare_platform_run\<close> leaves behind, on each of its paths.\<close>

lemma prepare_platform_run_cases:
  obtains "req_code request = []"
      "prepare_platform_run d request default_result
        = (False, default_result\<lparr>res_seed := req_seed request, res_outcome := Idle, res_error := Some NoCodeToRun\<rparr>)"
    | "\<exists>n. req_stop_offset request = Some n \<and> n \<ge> length (req_code request)"
      "prepare_platform_run d request default_result
        = (False, default_result\<lparr>res_seed := req_seed request, res_outcome := Error, res_error := Some StopOffsetOutside\<rparr>)"
    | "d" "prepare_platform_run d request default_result
        = (False, default_result\<lparr>res_seed := req_seed request, res_outcome := Error, res_instrumentation_detected := True,
             res_error := Some InstrumentationRefusal\<rparr>)"
    | "\<not> d" "req_code request \<noteq> []" "prepare_platform_run d request default_result = (True, default_result\<lparr>res_seed := req_seed request\<rparr>)"
proof -
  let ?outside = "case req_stop_offset request of None \<Rightarrow> False | Some n \<Rightarrow> n \<ge> length (req_code request)"
  consider "req_code request = []" | "req_code request \<noteq> []" "?outside" | "req_code request \<noteq> []" "\<not> ?outside" "d"
    | "req_code request \<noteq> []" "\<not> ?outside" "\<not> d" by blast
  then show thesis
  proof cases
    case 1
    then show ?thesis by (intro that(1)) (simp_all add: prepare_platform_run_def)
  next
    case 2
    then show ?thesis by (intro that(2)) (auto simp: prepare_platform_run_def split: option.splits)
  next
    case 3
    then show ?thesis by (intro that(3)) (simp_all add: prepare_platform_run_def)
  next
    case 4
    then show ?thesis by (intro that(4)) (simp_all add: prepare_platform_run_def)
  qed
qed

text \<open>A request that \<open>prepare_platform_run\<close> accepts.\<close>

definition request_ok :: "PlatformRunRequest \<Rightarrow> bool" where
  "request_ok request \<longleftrightarrow> req_code request \<noteq> []
     \<and> (case req_stop_offset request of None \<Rightarrow> True | Some n \<Rightarrow> n < length (req_code request))"

lemma prepare_platform_run_ok:
  "request_ok request \<Longrightarrow> prepare_platform_run False request default_result = (True, default_result\<lparr>res_seed := req_seed request\<rparr>)"
  by (auto simp: request_ok_def prepare_platform_run_def split: option.splits)

definition stepper_contract :: "PlatformRunRequest \<Rightarrow> PlatformRunResult \<Rightarrow> bool" where
  "stepper_contract request r \<longleftrightarrow>
     (res_error r = None \<longrightarrow> recording request r) \<and> (res_error r \<noteq> None \<longrightarrow> res_outcome r \<in> {Idle, Error})
     \<and> (res_instrumentation_detected r \<longrightarrow> res_error r = Some InstrumentationRefusal)"

end
