(* ===== verification/Seeding.thy ===== *)
theory Seeding
  imports Engine
begin

text \<open>
  Facts about seeding that both platforms share. Each writes the requested registers into the context of
  the process or thread and, in parallel, into the seed that the trace reports; the two agree because
  the loops over the tagged x87 registers update the same slots and because the trap flag, which only
  the written flags may contain, is not reported.
\<close>

section \<open>Loops over register slots\<close>

lemma foldl_list_update:
  "n \<le> length xs \<Longrightarrow> foldl (\<lambda>xs i. if p i then xs[i := h i (xs ! i)] else xs) xs [0..<n]
     = map (\<lambda>i. if i < n \<and> p i then h i (xs ! i) else xs ! i) [0..<length xs]"
proof (induction n)
  case 0
  then show ?case by (simp add: map_nth)
next
  case (Suc n)
  then show ?case by (auto intro!: nth_equalityI simp: nth_list_update less_Suc_eq)
qed

lemma foldl_reported_st:
  "foldl (\<lambda>r i. if p i then r\<lparr>st := (st r)[i := new i]\<rparr> else r) r is
     = r\<lparr>st := foldl (\<lambda>xs i. if p i then xs[i := new i] else xs) (st r) is\<rparr>"
  by (induction "is" arbitrary: r) auto

lemma foldl_list_update_8:
  "length xs = 8 \<Longrightarrow> foldl (\<lambda>xs i. if p i then xs[i := h i (xs ! i)] else xs) xs [0..<8]
     = map (\<lambda>i. if p i then h i (xs ! i) else xs ! i) [0..<8]"
  by (subst foldl_list_update) (simp_all del: upt_rec_numeral)

text \<open>The two instances in use: a slot is replaced, or its first ten bytes are.\<close>

lemmas foldl_list_set_8 = foldl_list_update_8[where h = "\<lambda>i _. new i" for new]
lemmas foldl_list_prefix_8 = foldl_list_update_8[where h = "\<lambda>i b. new i @ drop 10 b" for new]

lemma list_16: "length xs = 16 \<Longrightarrow> xs = map (\<lambda>i. xs ! i) [0, 1, 2, 3, 4, 5, 6, 7, 8, 9, 10, 11, 12, 13, 14, 15]"
proof -
  assume l: "length xs = 16"
  have "[0..<16] = [0, 1, 2, 3, 4, 5, 6, 7, 8, 9, 10, 11, 12, 13, 14, 15 :: nat]" by (simp add: upt_rec)
  then show ?thesis using l map_nth[of xs] by simp
qed

lemma gpr_reported_seed:
  assumes "length (gpr seed) = 16"
  shows "(gpr seed)[7 := a, 5 := b, 4 := c] = [gpr seed ! 0, gpr seed ! 1, gpr seed ! 2, gpr seed ! 3, c, b, gpr seed ! 6, a,
     gpr seed ! 8, gpr seed ! 9, gpr seed ! 10, gpr seed ! 11, gpr seed ! 12, gpr seed ! 13, gpr seed ! 14, gpr seed ! 15]"
  by (subst list_16[OF assms]) simp

section \<open>Flags\<close>

lemma and_not_disjoint: "x AND m = 0 \<Longrightarrow> x AND NOT m = x" for x m :: "'a::len word"
proof (rule bit_word_eqI)
  fix n
  assume "x AND m = 0" "n < LENGTH('a)"
  then have "\<not> (bit x n \<and> bit m n)" by (metis bit_and_iff bit_0_eq bot_apply bot_bool_def)
  then show "bit (x AND NOT m) n = bit x n" using \<open>n < LENGTH('a)\<close> by (auto simp: bit_and_iff bit_not_iff)
qed

lemma seeded_flags_no_trap:
  "((x AND RFLAGS_STATUS_MASK) OR RFLAGS_RESERVED_BIT1 OR RFLAGS_INTERRUPT_FLAG) AND NOT RFLAGS_TRAP_FLAG
     = (x AND RFLAGS_STATUS_MASK) OR RFLAGS_RESERVED_BIT1 OR RFLAGS_INTERRUPT_FLAG"
proof -
  let ?m = "RFLAGS_STATUS_MASK"
  have "(x AND ?m) AND NOT RFLAGS_TRAP_FLAG = x AND (?m AND NOT RFLAGS_TRAP_FLAG)" by (simp only: and.assoc)
  moreover have "?m AND NOT RFLAGS_TRAP_FLAG = ?m"
    by (simp add: RFLAGS_STATUS_MASK_def RFLAGS_TRAP_FLAG_def CF_def PF_def AF_def ZF_def SF_def DF_def OF_def)
  moreover have "(RFLAGS_RESERVED_BIT1 OR RFLAGS_INTERRUPT_FLAG) AND NOT RFLAGS_TRAP_FLAG
      = RFLAGS_RESERVED_BIT1 OR RFLAGS_INTERRUPT_FLAG"
    by (simp add: RFLAGS_RESERVED_BIT1_def RFLAGS_INTERRUPT_FLAG_def RFLAGS_TRAP_FLAG_def)
  ultimately show ?thesis by (simp only: bit.conj_disj_distrib2 or.assoc)
qed

end
