(* ===== verification/Linux.thy ===== *)
theory Linux
  imports Seeding
begin

text \<open>
  The Linux backend, src/src/os.linux.cpp: the traced child's memory setup (\<open>child_main\<close>), the seeding of
  its registers, and the single-step loop of \<open>run_platform_steps\<close>. The operating system is the record
  \<open>LinuxEnv\<close> of what each call answers; the answer to the \<open>n\<close>-th single step is \<open>env_step env n\<close>. Zydis, which
  classifies breakpoint instructions, is its field \<open>env_zydis\<close>. Besides the result the run returns the
  log of what it did to the pipe and to the child process.
\<close>

section \<open>Data\<close>

datatype signal = SIGILL | SIGFPE | SIGSEGV | SIGBUS | SIGTRAP | SIGSTOP | OtherSignal nat
datatype si_code = TRAP_BRKPT | TRAP_TRACE | SI_KERNEL | OtherCode int
datatype wait_status = StoppedBy signal | NotStopped

record ChildReady =
  ready_code_base :: u64
  ready_initial_rsp :: u64
  ready_data_base :: u64
  ready_error :: ChildError

record FaultReport =
  report_address :: u64
  report_error_code :: u64
  report_trap_number :: int

text \<open>
  \<open>user_regs_struct\<close>, and \<open>user_fpregs_struct\<close> with \<open>xmm_space\<close> as sixteen little-endian pairs and \<open>st_space\<close>
  as eight slots of sixteen bytes.
\<close>

record user_regs_struct =
  u_rax :: u64
  u_rbx :: u64
  u_rcx :: u64
  u_rdx :: u64
  u_rsi :: u64
  u_rdi :: u64
  u_rbp :: u64
  u_rsp :: u64
  u_r8 :: u64
  u_r9 :: u64
  u_r10 :: u64
  u_r11 :: u64
  u_r12 :: u64
  u_r13 :: u64
  u_r14 :: u64
  u_r15 :: u64
  u_rip :: u64
  u_eflags :: u64

record user_fpregs_struct =
  f_cwd :: u16
  f_swd :: u16
  f_ftw :: u16
  f_mxcsr :: u32
  f_mxcr_mask :: u32
  f_st_space :: "u8 list list"
  f_xmm_space :: "(u64 \<times> u64) list"

definition wf_fpregs :: "user_fpregs_struct \<Rightarrow> bool" where
  "wf_fpregs f \<longleftrightarrow> length (f_xmm_space f) = 16 \<and> length (f_st_space f) = 8 \<and> (\<forall>b\<in>set (f_st_space f). length b = 16)"

datatype ZydisMnemonic = ZYDIS_MNEMONIC_INT3 | ZYDIS_MNEMONIC_INT | ZYDIS_MNEMONIC_OTHER

record ZydisInstruction =
  zy_mnemonic :: ZydisMnemonic
  zy_operand_count_visible :: nat
  zy_operand0_immediate :: bool
  zy_operand0_value :: u64

text \<open>What the calls of one iteration of the loop answer; \<open>None\<close> is a failed call.\<close>

record StepObservation =
  obs_singlestep :: bool
  obs_wait :: "wait_status option"
  obs_siginfo :: "(si_code \<times> u64) option"
  obs_registers :: "(user_regs_struct \<times> user_fpregs_struct) option"
  obs_report :: "FaultReport option"

record LinuxEnv =
  env_getenv :: "string \<Rightarrow> string option"
  env_pipe :: bool
  env_fork :: bool
  env_ready :: "ChildReady option"
  env_startup_wait :: "wait_status option"
  env_setoptions :: bool
  env_getregs :: "(user_regs_struct \<times> user_fpregs_struct) option"
  env_setregs :: bool
  env_step :: "nat \<Rightarrow> StepObservation"
  env_zydis :: "u8 list \<Rightarrow> ZydisInstruction option"

section \<open>Environment\<close>

definition environment_present :: "LinuxEnv \<Rightarrow> string \<Rightarrow> bool" where
  "environment_present env name \<longleftrightarrow> name \<noteq> [] \<and> env_getenv env name \<noteq> None"

definition environment_string :: "LinuxEnv \<Rightarrow> string \<Rightarrow> string" where
  "environment_string env name =
     (if name = [] then [] else case env_getenv env name of None \<Rightarrow> [] | Some v \<Rightarrow> v)"

definition instrumentation_detected :: "LinuxEnv \<Rightarrow> bool" where
  "instrumentation_detected env \<longleftrightarrow>
     environment_present env ''SDE_COMMAND_LINE'' \<or> environment_present env ''PIN_COMMAND_LINE''"

section \<open>Signals and faults\<close>

definition PAGE_FAULT_TRAP :: int where "PAGE_FAULT_TRAP = 14"
definition PAGE_FAULT_WRITE :: u64 where "PAGE_FAULT_WRITE = 2"
definition PAGE_FAULT_INSTRUCTION :: u64 where "PAGE_FAULT_INSTRUCTION = 16"

definition classify_fault_access :: "FaultReport \<Rightarrow> u64 \<Rightarrow> FaultAccess" where
  "classify_fault_access report expected_address =
     (if report_address report \<noteq> expected_address \<or> report_trap_number report \<noteq> PAGE_FAULT_TRAP then Unknown
      else if report_error_code report AND PAGE_FAULT_INSTRUCTION \<noteq> 0 then Execute
      else if report_error_code report AND PAGE_FAULT_WRITE \<noteq> 0 then Write
      else Read)"

definition fault_name :: "signal \<Rightarrow> string" where
  "fault_name s =
     (case s of SIGILL \<Rightarrow> ''Illegal instruction'' | SIGFPE \<Rightarrow> ''Floating-point exception''
      | SIGSEGV \<Rightarrow> ''Access violation'' | SIGBUS \<Rightarrow> ''Bus error'' | SIGTRAP \<Rightarrow> ''Trap signal'' | _ \<Rightarrow> ''Signal'')"

definition is_software_breakpoint ::
  "(u8 list \<Rightarrow> ZydisInstruction option) \<Rightarrow> u8 list \<Rightarrow> u64 \<Rightarrow> u64 \<Rightarrow> bool" where
  "is_software_breakpoint zydis code code_base instruction_address =
     (if instruction_address < code_base then False
      else let offset = instruction_address - code_base
           in if unat offset \<ge> length code then False
              else case zydis (drop (unat offset) code) of
                     None \<Rightarrow> False
                   | Some ix \<Rightarrow>
                       if zy_mnemonic ix = ZYDIS_MNEMONIC_INT3 then True
                       else zy_mnemonic ix = ZYDIS_MNEMONIC_INT \<and> zy_operand_count_visible ix = 1
                         \<and> zy_operand0_immediate ix \<and> zy_operand0_value ix = 3)"

section \<open>Snapshots\<close>

definition snapshot_fpu :: "user_fpregs_struct \<Rightarrow> Registers \<Rightarrow> Registers" where
  "snapshot_fpu source target =
     target\<lparr>xmm := map (\<lambda>i. f_xmm_space source ! i) [0..<16],
            st := map (\<lambda>i. take 10 (f_st_space source ! i)) [0..<8],
            mxcsr := f_mxcsr source, fpu_control_word := f_cwd source, fpu_status_word := f_swd source,
            fpu_tag_word_abridged := ucast (f_ftw source)\<rparr>"

definition read_snapshot :: "user_regs_struct \<times> user_fpregs_struct \<Rightarrow> Registers" where
  "read_snapshot raw =
     (let (registers, fpu_registers) = raw
      in snapshot_fpu fpu_registers
           (default_registers\<lparr>gpr := [u_rax registers, u_rbx registers, u_rcx registers, u_rdx registers,
              u_rsi registers, u_rdi registers, u_rbp registers, u_rsp registers, u_r8 registers, u_r9 registers,
              u_r10 registers, u_r11 registers, u_r12 registers, u_r13 registers, u_r14 registers, u_r15 registers],
            rip := u_rip registers, rflags := u_eflags registers AND NOT RFLAGS_TRAP_FLAG\<rparr>))"

section \<open>Seeding the child\<close>

definition mxcsr_mask_of :: "u32 \<Rightarrow> u32" where
  "mxcsr_mask_of m = (if m \<noteq> 0 then m else MXCSR_FALLBACK_MASK)"

text \<open>
  The loops that copy XMM and tagged x87 registers: the floating-point state to write, and the seed
  as the trace will report it.
\<close>

definition seed_fpregs :: "Registers \<Rightarrow> user_fpregs_struct \<Rightarrow> user_fpregs_struct" where
  "seed_fpregs seed f =
     (let f = f\<lparr>f_cwd := fpu_control_word seed, f_mxcsr := mxcsr seed\<rparr>;
          f = f\<lparr>f_xmm_space := map (\<lambda>i. xmm seed ! i) [0..<16]\<rparr>;
          f = foldl (\<lambda>f i. if bit (fpu_tag_word_abridged seed) i
                then f\<lparr>f_st_space := (f_st_space f)[i := st seed ! i @ drop 10 (f_st_space f ! i)],
                       f_ftw := f_ftw f OR push_bit i 1\<rparr> else f) f [0..<8]
      in f\<lparr>f_swd := f_swd f AND NOT (push_bit 11 7)\<rparr>)"

definition reported_seed :: "PlatformRunRequest \<Rightarrow> ChildReady \<Rightarrow> user_fpregs_struct \<Rightarrow> Registers \<Rightarrow> Registers" where
  "reported_seed request ready f target =
     (let seed = req_seed request;
          target = snapshot_fpu (f\<lparr>f_cwd := fpu_control_word seed, f_mxcsr := mxcsr seed\<rparr>) target;
          target = target\<lparr>xmm := map (\<lambda>i. xmm seed ! i) [0..<16]\<rparr>;
          target = foldl (\<lambda>target i. if bit (fpu_tag_word_abridged seed) i
                then target\<lparr>st := (st target)[i := st seed ! i]\<rparr> else target) target [0..<8];
          target = target\<lparr>fpu_tag_word_abridged := ucast (f_ftw (seed_fpregs seed f))\<rparr>;
          pointer = effective_pointer (req_seed_data_pointers request) (ready_data_base ready);
          target = reg_set target RSP (ready_initial_rsp ready);
          target = reg_set target RDI (pointer (reg_get seed RDI));
          target = reg_set target RSI (pointer (reg_get seed RSI));
          target = reg_set target RIP (ready_code_base ready)
      in reg_set target RFLAGS
           ((reg_get seed RFLAGS AND RFLAGS_STATUS_MASK) OR RFLAGS_RESERVED_BIT1 OR RFLAGS_INTERRUPT_FLAG))"

definition seed_regs :: "PlatformRunRequest \<Rightarrow> ChildReady \<Rightarrow> user_regs_struct \<Rightarrow> user_regs_struct" where
  "seed_regs request ready registers =
     (let seed = req_seed request; pointer = effective_pointer (req_seed_data_pointers request) (ready_data_base ready)
      in registers\<lparr>u_rax := reg_get seed RAX, u_rbx := reg_get seed RBX, u_rcx := reg_get seed RCX,
           u_rdx := reg_get seed RDX, u_rsi := pointer (reg_get seed RSI), u_rdi := pointer (reg_get seed RDI),
           u_rbp := reg_get seed RBP, u_r8 := reg_get seed R8, u_r9 := reg_get seed R9, u_r10 := reg_get seed R10,
           u_r11 := reg_get seed R11, u_r12 := reg_get seed R12, u_r13 := reg_get seed R13,
           u_r14 := reg_get seed R14, u_r15 := reg_get seed R15, u_rsp := ready_initial_rsp ready,
           u_rip := ready_code_base ready,
           u_eflags := (reg_get seed RFLAGS AND RFLAGS_STATUS_MASK) OR RFLAGS_RESERVED_BIT1 OR RFLAGS_INTERRUPT_FLAG\<rparr>)"

section \<open>The child\<close>

text \<open>
  What the calls of \<open>child_main\<close> answer; a reservation that fails is the null pointer. The result is the
  report that goes through the pipe and whether the child then stops itself (or exits).
\<close>

record ChildEnv =
  ch_traceme :: bool
  ch_buffer :: u64
  ch_stack :: u64
  ch_data :: u64
  ch_signal_stack :: u64
  ch_commit :: "u64 \<Rightarrow> u64 \<Rightarrow> bool"
  ch_protect :: bool
  ch_flush :: bool
  ch_signal_setup :: bool
  ch_write :: bool

definition child_failed :: "ChildError \<Rightarrow> ChildReady \<times> bool" where
  "child_failed e = (\<lparr>ready_code_base = 0, ready_initial_rsp = 0, ready_data_base = 0, ready_error = e\<rparr>, False)"

definition child_main :: "ChildEnv \<Rightarrow> PlatformRunRequest \<Rightarrow> u64 \<Rightarrow> u64 \<Rightarrow> ChildReady \<times> bool" where
  "child_main env request page_size signal_stack_size =
     (let code_size = word_of_nat (length (req_code request));
          code_region = page_round code_size page_size
      in if \<not> ch_traceme env then child_failed ChildTrace
         else if ch_buffer env = 0 \<or> ch_stack env = 0 \<or> ch_data env = 0 \<or> ch_signal_stack env = 0
         then child_failed ChildAllocation
         else if \<not> (ch_commit env (ch_buffer env) code_region
              \<and> ch_commit env (ch_stack env + page_size) SCRATCH_STACK_BYTES
              \<and> ch_commit env (ch_data env + page_size) SCRATCH_DATA_BYTES
              \<and> ch_commit env (ch_signal_stack env + page_size) signal_stack_size)
         then child_failed ChildCommit
         else if \<not> ch_protect env then child_failed ChildProtect
         else if \<not> ch_flush env then child_failed ChildFlush
         else if \<not> ch_signal_setup env then child_failed ChildSignalSetup
         else (\<lparr>ready_code_base = code_base_of (ch_buffer env) code_size page_size,
                ready_initial_rsp = initial_rsp_of (ch_stack env) page_size,
                ready_data_base = ch_data env + page_size, ready_error = ChildOk\<rparr>, ch_write env))"

section \<open>The single-step loop\<close>

text \<open>
  The log of the run: \<open>ReapChild\<close> is a \<open>waitpid\<close> that returned the status of a child that is gone, after which
  its process id is free; \<open>TerminateChild\<close> is a call of \<open>terminate_child\<close>, which kills the process id and waits for it.
\<close>

datatype os_action = OpenPipe | CloseWriteEnd | CloseReadEnd | ForkChild | ReapChild | TerminateChild

definition waited :: "wait_status \<Rightarrow> os_action list" where
  "waited status = (if status = NotStopped then [ReapChild] else [])"

type_synonym linux_result = "PlatformRunResult \<times> os_action list"

definition stop_child :: "PlatformRunResult \<Rightarrow> linux_result" where
  "stop_child result = (result, [TerminateChild, CloseReadEnd])"

definition linux_fail :: "platform_error \<Rightarrow> PlatformRunResult \<Rightarrow> linux_result" where
  "linux_fail e result = stop_child (result\<lparr>res_outcome := Error, res_error := Some e\<rparr>)"

definition linux_fault :: "StepObservation \<Rightarrow> signal \<Rightarrow> u64 \<Rightarrow> Registers \<Rightarrow> PlatformRunResult \<Rightarrow> PlatformRunResult" where
  "linux_fault obs sig si_addr snapshot result =
     (let result = result\<lparr>res_steps := res_steps result @ [\<lparr>step_rip = rip snapshot, step_registers = snapshot, step_faulted = True\<rparr>],
            res_outcome := Faulted, res_fault_name := fault_name sig, res_stop_address := rip snapshot\<rparr>
      in if sig = SIGSEGV \<or> sig = SIGBUS
         then result\<lparr>res_fault_memory_address := Some si_addr,
                res_fault_access := (case obs_report obs of None \<Rightarrow> Unknown
                  | Some report \<Rightarrow> classify_fault_access report si_addr)\<rparr>
         else result)"

text \<open>After the snapshot: stop at a breakpoint, record a fault, or record a completed step and test how to go on.\<close>

definition linux_observe ::
  "LinuxEnv \<Rightarrow> PlatformRunRequest \<Rightarrow> ChildReady \<Rightarrow> nat \<Rightarrow> u64 \<Rightarrow> PlatformRunResult \<Rightarrow> StepObservation \<Rightarrow> signal \<Rightarrow> si_code \<Rightarrow> u64
   \<Rightarrow> Registers \<Rightarrow> linux_result + (u64 \<times> PlatformRunResult)" where
  "linux_observe env request ready max_steps previous_rip result obs sig code si_addr snapshot =
     (let breakpoint_signal = (sig = SIGTRAP \<and> (code = TRAP_BRKPT \<or> code = SI_KERNEL));
          breakpoint_trap = (breakpoint_signal
            \<and> is_software_breakpoint (env_zydis env) (req_code request) (ready_code_base ready) previous_rip);
          single_step_trap = (sig = SIGTRAP \<and> code = TRAP_TRACE);
          completed_trap = (single_step_trap \<or> (breakpoint_signal \<and> rip snapshot \<noteq> previous_rip));
          code_end = ready_code_base ready + word_of_nat (length (req_code request));
          target_address = (case req_stop_offset request of None \<Rightarrow> 0 | Some offset \<Rightarrow> ready_code_base ready + word_of_nat offset);
          next_rip = rip snapshot
      in if breakpoint_trap
         then Inl (stop_child (result\<lparr>res_outcome := Stopped, res_stop_address := previous_rip\<rparr>))
         else if sig \<noteq> SIGTRAP \<or> \<not> completed_trap
         then Inl (stop_child (linux_fault obs sig si_addr snapshot result))
         else let result = result\<lparr>res_steps := res_steps result
                    @ [\<lparr>step_rip = previous_rip, step_registers = snapshot, step_faulted = False\<rparr>]\<rparr>
              in if req_stop_offset request \<noteq> None \<and> next_rip = target_address
                 then Inl (stop_child (result\<lparr>res_outcome := Stopped, res_stop_address := next_rip,
                        res_stopped_at_target := True\<rparr>))
                 else if next_rip < ready_code_base ready \<or> next_rip \<ge> code_end
                 then Inl (stop_child (result\<lparr>res_outcome := Finished\<rparr>))
                 else if length (res_steps result) \<ge> max_steps
                 then Inl (stop_child (result\<lparr>res_outcome := AbortedCap\<rparr>))
                 else Inr (next_rip, result))"

text \<open>One iteration: the calls up to the snapshot, in order.\<close>

definition linux_step ::
  "LinuxEnv \<Rightarrow> PlatformRunRequest \<Rightarrow> ChildReady \<Rightarrow> nat \<Rightarrow> u64 \<Rightarrow> PlatformRunResult
   \<Rightarrow> linux_result + (u64 \<times> PlatformRunResult)" where
  "linux_step env request ready max_steps previous_rip result =
     (let obs = env_step env (length (res_steps result))
      in if \<not> obs_singlestep obs then Inl (linux_fail PtraceSingleStepFailed result)
         else case obs_wait obs of
           None \<Rightarrow> Inl (linux_fail WorkerWaitFailed result)
         | Some NotStopped \<Rightarrow>
             Inl (apsnd ((@) (waited NotStopped)) (stop_child (result\<lparr>res_outcome := Error, res_error := Some WorkerExitedUnexpectedly,
                    res_stop_address := previous_rip\<rparr>)))
         | Some (StoppedBy sig) \<Rightarrow>
             (case obs_siginfo obs of
                None \<Rightarrow> Inl (linux_fail PtraceSignalInfoFailed result)
              | Some (code, si_addr) \<Rightarrow>
                  (case obs_registers obs of
                     None \<Rightarrow> Inl (linux_fail PtraceRegisterReadFailed result)
                   | Some raw \<Rightarrow>
                       linux_observe env request ready max_steps previous_rip result obs sig code si_addr
                         (read_snapshot raw))))"

lemma linux_observe_continues:
  "linux_observe env request ready max_steps prev result obs sig code si_addr snapshot = Inr (next_rip, result')
   \<Longrightarrow> length (res_steps result') = Suc (length (res_steps result)) \<and> length (res_steps result') < max_steps"
  by (auto simp: linux_observe_def Let_def split: if_splits)

lemma linux_step_continues:
  "linux_step env request ready max_steps prev result = Inr (next_rip, result')
   \<Longrightarrow> length (res_steps result') = Suc (length (res_steps result)) \<and> length (res_steps result') < max_steps"
  by (auto simp: linux_step_def Let_def dest: linux_observe_continues split: if_splits option.splits wait_status.splits)

function linux_loop ::
  "LinuxEnv \<Rightarrow> PlatformRunRequest \<Rightarrow> ChildReady \<Rightarrow> nat \<Rightarrow> u64 \<Rightarrow> PlatformRunResult \<Rightarrow> linux_result" where
  "linux_loop env request ready max_steps previous_rip result =
     (case linux_step env request ready max_steps previous_rip result of
        Inl r \<Rightarrow> r
      | Inr (next_rip, result') \<Rightarrow> linux_loop env request ready max_steps next_rip result')"
  by pat_completeness auto
termination
  by (relation "measure (\<lambda>(env, request, ready, max_steps, previous_rip, result). max_steps - length (res_steps result))")
    (auto dest: linux_step_continues)

declare linux_loop.simps [simp del]

section \<open>run\_platform\_steps\<close>

text \<open>From the register setup on: the child is stopped and its registers are read.\<close>

definition linux_start :: "LinuxEnv \<Rightarrow> PlatformRunRequest \<Rightarrow> ChildReady \<Rightarrow> PlatformRunResult \<Rightarrow> linux_result" where
  "linux_start env request ready result =
     (if \<not> env_setoptions env then linux_fail PtraceOptionsFailed result
      else case env_getregs env of
        None \<Rightarrow> linux_fail PtraceRegisterReadFailed result
      | Some (registers, fpu_registers) \<Rightarrow>
          if mxcsr (req_seed request) AND NOT (mxcsr_mask_of (f_mxcr_mask fpu_registers)) \<noteq> 0
          then linux_fail UnsupportedMXCSR result
          else let result = result\<lparr>res_seed := reported_seed request ready fpu_registers (res_seed result)\<rparr>
               in if \<not> env_setregs env then linux_fail PtraceRegisterSetFailed result
                  else if req_stop_offset request = Some 0
                  then stop_child (result\<lparr>res_outcome := Stopped, res_stop_address := ready_code_base ready,
                         res_stopped_at_target := True\<rparr>)
                  else linux_loop env request ready (effective_cap (req_max_steps request)) (ready_code_base ready) result)"

definition linux_run :: "LinuxEnv \<Rightarrow> PlatformRunRequest \<Rightarrow> linux_result" where
  "linux_run env request =
     (let (prepared, result) = prepare_platform_run (instrumentation_detected env) request default_result
      in if \<not> prepared then (result, [])
         else if \<not> env_pipe env
         then (result\<lparr>res_outcome := Error, res_error := Some WorkerPipeFailed\<rparr>, [])
         else if \<not> env_fork env
         then (result\<lparr>res_outcome := Error, res_error := Some WorkerForkFailed\<rparr>, [OpenPipe, CloseReadEnd, CloseWriteEnd])
         else let opened = [OpenPipe, ForkChild, CloseWriteEnd];
                  continue = (\<lambda>(r, more). (r, opened @ more))
              in case env_ready env of
                   None \<Rightarrow> continue (linux_fail WorkerStartupFailed result)
                 | Some ready \<Rightarrow>
                     (case env_startup_wait env of
                        None \<Rightarrow> continue (linux_fail WorkerWaitFailed result)
                      | Some status \<Rightarrow>
                          if ready_error ready \<noteq> ChildOk
                          then (result\<lparr>res_outcome := Error, res_error := Some (WorkerSetupFailed (ready_error ready))\<rparr>,
                                opened @ waited status @ [CloseReadEnd])
                          else if status \<noteq> StoppedBy SIGSTOP
                          then continue (apsnd ((@) (waited status)) (linux_fail WorkerDidNotStop result))
                          else continue (linux_start env request ready result)))"

definition run_platform_steps :: "LinuxEnv \<Rightarrow> PlatformRunRequest \<Rightarrow> PlatformRunResult" where
  "run_platform_steps env request = fst (linux_run env request)"

section \<open>The loop records single steps\<close>

text \<open>
  The invariant of the loop: the steps so far are a running state, \<open>previous_rip\<close> is where the next
  instruction is, and nothing has ended the run yet.
\<close>

definition loop_invariant :: "PlatformRunRequest \<Rightarrow> ChildReady \<Rightarrow> u64 \<Rightarrow> PlatformRunResult \<Rightarrow> bool" where
  "loop_invariant request ready previous_rip result \<longleftrightarrow>
     running (ready_code_base ready) (ready_code_base ready + word_of_nat (length (req_code request)))
       (target_of (ready_code_base ready) (req_stop_offset request)) (effective_cap (req_max_steps request))
       (res_steps result)
     \<and> previous_rip = final_rip (ready_code_base ready) (res_steps result)
     \<and> res_error result = None \<and> \<not> res_stopped_at_target result \<and> \<not> res_instrumentation_detected result
     \<and> rip (res_seed result) = ready_code_base ready"

definition good_end :: "PlatformRunRequest \<Rightarrow> PlatformRunResult \<Rightarrow> bool" where
  "good_end request r \<longleftrightarrow>
     (res_error r = None \<longrightarrow> recording request r) \<and> (res_error r \<noteq> None \<longrightarrow> res_outcome r = Error)
     \<and> \<not> res_instrumentation_detected r"

lemma linux_fail_good:
  "\<not> res_instrumentation_detected result \<Longrightarrow> good_end request (fst (linux_fail e result))"
  by (simp add: linux_fail_def stop_child_def good_end_def)

lemma target_reached:
  "req_stop_offset request \<noteq> None \<and>
     next_rip = (case req_stop_offset request of None \<Rightarrow> 0 | Some offset \<Rightarrow> base + word_of_nat offset)
   \<longleftrightarrow> target_of base (req_stop_offset request) = Some next_rip"
  by (auto simp: target_of_def)

lemma out_of_code: "r < base \<or> r \<ge> code_end \<longleftrightarrow> \<not> in_code base code_end r"
  by (auto simp: in_code_def)

lemma linux_fault_fields [simp]:
  "res_steps (linux_fault obs sig a snapshot r)
     = res_steps r @ [\<lparr>step_rip = rip snapshot, step_registers = snapshot, step_faulted = True\<rparr>]"
  "res_outcome (linux_fault obs sig a snapshot r) = Faulted" "res_seed (linux_fault obs sig a snapshot r) = res_seed r"
  "res_stop_address (linux_fault obs sig a snapshot r) = rip snapshot" "res_error (linux_fault obs sig a snapshot r) = res_error r"
  "res_instrumentation_detected (linux_fault obs sig a snapshot r) = res_instrumentation_detected r"
  by (simp_all add: linux_fault_def Let_def)

text \<open>The ways in which an observed stop ends the run.\<close>

lemma linux_observe_ends:
  fixes request ready prev result snapshot
  defines "base \<equiv> ready_code_base ready" and "cap \<equiv> effective_cap (req_max_steps request)"
    and "recorded \<equiv> result\<lparr>res_steps := res_steps result @ [\<lparr>step_rip = prev, step_registers = snapshot, step_faulted = False\<rparr>]\<rparr>"
  assumes "linux_observe env request ready cap prev result obs sig code si_addr snapshot = Inl (r, acts)"
  obtains (bp) "r = result\<lparr>res_outcome := Stopped, res_stop_address := prev\<rparr>"
    | (flt) "r = linux_fault obs sig si_addr snapshot result"
    | (tgt) "target_of base (req_stop_offset request) = Some (rip snapshot)"
      "r = recorded\<lparr>res_outcome := Stopped, res_stop_address := rip snapshot, res_stopped_at_target := True\<rparr>"
    | (fin) "target_of base (req_stop_offset request) \<noteq> Some (rip snapshot)"
      "\<not> in_code base (base + word_of_nat (length (req_code request))) (rip snapshot)" "r = recorded\<lparr>res_outcome := Finished\<rparr>"
    | (cap) "target_of base (req_stop_offset request) \<noteq> Some (rip snapshot)"
      "in_code base (base + word_of_nat (length (req_code request))) (rip snapshot)" "cap \<le> Suc (length (res_steps result))"
      "r = recorded\<lparr>res_outcome := AbortedCap\<rparr>"
  using assms(4) unfolding linux_observe_def Let_def target_reached stop_child_def out_of_code base_def recorded_def
  by (auto split: if_split_asm)

lemma linux_observe_invariant:
  fixes env request ready prev result obs sig code si_addr snapshot
  assumes "loop_invariant request ready prev result"
  defines "res \<equiv> linux_observe env request ready (effective_cap (req_max_steps request)) prev result obs sig code si_addr snapshot"
  shows "res = Inl (r, acts) \<Longrightarrow> good_end request r"
    and "res = Inr (next_rip, result') \<Longrightarrow> loop_invariant request ready next_rip result'"
proof -
  let ?base = "ready_code_base ready" and ?cap = "effective_cap (req_max_steps request)"
  let ?stop = "?base + word_of_nat (length (req_code request))" and ?target = "target_of ?base (req_stop_offset request)"
  let ?s = "\<lparr>step_rip = prev, step_registers = snapshot, step_faulted = False\<rparr>"
  have inv: "running ?base ?stop ?target ?cap (res_steps result)" "prev = final_rip ?base (res_steps result)"
    "res_error result = None" "\<not> res_stopped_at_target result" "\<not> res_instrumentation_detected result"
    "rip (res_seed result) = ?base"
    using assms(1) by (simp_all add: loop_invariant_def)
  have step: "ends_with_step ?base ?stop ?target ?cap (res_steps result) ?s"
    using inv by (simp add: ends_with_step_def)
  have len: "length (res_steps result) < ?cap" using inv(1) by (simp add: running_def)
  have rec: "good_end request x" if "ends ?base ?stop ?target ?cap x" "res_error x = None" "rip (res_seed x) = ?base"
    "\<not> res_instrumentation_detected x" for x
    using that by (simp add: good_end_def recording_def Let_def)
  let ?r = "result\<lparr>res_steps := res_steps result @ [?s]\<rparr>" and ?next = "rip snapshot"
  show "good_end request r" if "res = Inl (r, acts)"
  proof -
    from that[unfolded res_def] show ?thesis
    proof (cases rule: linux_observe_ends)
      case bp
      show ?thesis unfolding bp by (rule rec, rule ends.breakpoint[OF inv(1)]) (use inv in simp_all)
    next
      case flt
      show ?thesis unfolding flt by (rule rec, rule ends.faulted[OF inv(1),
            where s = "\<lparr>step_rip = rip snapshot, step_registers = snapshot, step_faulted = True\<rparr>"]) (use inv in simp_all)
    next
      case tgt
      show ?thesis unfolding tgt(2) by (rule rec, rule ends.at_target[OF step]) (use inv tgt(1) in simp_all)
    next
      case fin
      show ?thesis unfolding fin(3) by (rule rec, rule ends.finished[OF step]) (use inv fin(1,2) in simp_all)
    next
      case cap
      show ?thesis unfolding cap(4) by (rule rec, rule ends.capped[OF step]) (use inv cap(1-3) len in simp_all)
    qed
  qed
  show "loop_invariant request ready next_rip result'" if "res = Inr (next_rip, result')"
    using that inv step running_snoc[OF step] unfolding res_def linux_observe_def Let_def target_reached out_of_code
    by (auto simp: loop_invariant_def split: if_split_asm)
qed

lemma linux_step_invariant:
  assumes "loop_invariant request ready prev result"
  shows "linux_step env request ready (effective_cap (req_max_steps request)) prev result = Inl r \<Longrightarrow> good_end request (fst r)"
    and "linux_step env request ready (effective_cap (req_max_steps request)) prev result = Inr (next_rip, result')
      \<Longrightarrow> loop_invariant request ready next_rip result'"
proof -
  have fail: "good_end request (fst (linux_fail e result))"
    "good_end request (fst (stop_child (result\<lparr>res_outcome := Error, res_error := Some e, res_stop_address := prev\<rparr>)))" for e
    using assms by (simp_all add: loop_invariant_def linux_fail_def stop_child_def good_end_def)
  note obs = linux_observe_invariant[OF assms]
  have end1: "good_end request (fst r)"
    if "linux_observe env request ready (effective_cap (req_max_steps request)) prev result obs sig code si_addr snapshot = Inl r"
    for obs sig code si_addr snapshot r
    using obs(1)[of env obs sig code si_addr snapshot "fst r" "snd r"] that by simp
  show "good_end request (fst r)"
    if "linux_step env request ready (effective_cap (req_max_steps request)) prev result = Inl r"
    using that fail unfolding linux_step_def Let_def
    by (auto split: if_split_asm option.split_asm wait_status.split_asm prod.split_asm dest: end1)
  show "loop_invariant request ready next_rip result'"
    if "linux_step env request ready (effective_cap (req_max_steps request)) prev result = Inr (next_rip, result')"
    using that obs(2) unfolding linux_step_def Let_def
    by (auto split: if_split_asm option.split_asm wait_status.split_asm prod.split_asm)
qed

lemma linux_loop_good:
  "loop_invariant request ready prev result \<Longrightarrow>
   good_end request (fst (linux_loop env request ready (effective_cap (req_max_steps request)) prev result))"
proof (induction env request ready "effective_cap (req_max_steps request)" prev result rule: linux_loop.induct)
  case (1 env request ready prev result)
  show ?case
  proof (cases "linux_step env request ready (effective_cap (req_max_steps request)) prev result")
    case (Inl r)
    then show ?thesis using linux_step_invariant(1)[OF 1(2) Inl] by (subst linux_loop.simps) simp
  next
    case (Inr c)
    obtain n r where c: "c = (n, r)" by fastforce
    have "loop_invariant request ready n r" using linux_step_invariant(2)[OF 1(2)] Inr c by blast
    then have "good_end request (fst (linux_loop env request ready (effective_cap (req_max_steps request)) n r))"
      using 1(1)[OF Inr c[symmetric]] by blast
    then show ?thesis by (subst linux_loop.simps) (simp add: Inr c)
  qed
qed

lemma rip_reported_seed [simp]: "rip (reported_seed request ready f target) = ready_code_base ready"
  by (simp add: reported_seed_def reg_set_def Let_def)

lemma linux_start_good:
  assumes "res_error result = None" "res_steps result = []" "\<not> res_stopped_at_target result" "\<not> res_instrumentation_detected result"
  shows "good_end request (fst (linux_start env request ready result))"
proof -
  let ?base = "ready_code_base ready"
  let ?r = "\<lambda>f. result\<lparr>res_seed := reported_seed request ready f (res_seed result)\<rparr>"
  have cap: "0 < effective_cap n" for n using effective_cap_bounds[of n] by simp
  have loop: "good_end request (fst (linux_loop env request ready (effective_cap (req_max_steps request)) ?base (?r f)))" for f
    by (rule linux_loop_good) (use assms cap in \<open>simp add: loop_invariant_def running_def\<close>)
  have start: "good_end request (?r f\<lparr>res_outcome := Stopped, res_stop_address := ?base, res_stopped_at_target := True\<rparr>)"
    if "req_stop_offset request = Some 0" for f
    using assms that by (auto simp: good_end_def recording_def Let_def target_of_def intro!: ends.at_start)
  have fail: "good_end request (fst (linux_fail e x))" if "\<not> res_instrumentation_detected x" for e x
    using that by (rule linux_fail_good)
  show ?thesis
    using loop start assms(4) by (auto simp: linux_start_def Let_def stop_child_def intro!: fail split: option.split prod.split)
qed

lemma good_end_contract: "good_end request r \<Longrightarrow> stepper_contract request r"
  by (auto simp: good_end_def stepper_contract_def)

lemma linux_run_contract: "stepper_contract request (run_platform_steps env request)"
proof (cases rule: prepare_platform_run_cases[of request "instrumentation_detected env"])
  case 4
  let ?r = "default_result\<lparr>res_seed := req_seed request\<rparr>"
  have r: "res_error ?r = None" "res_steps ?r = []" "\<not> res_stopped_at_target ?r" "\<not> res_instrumentation_detected ?r"
    by (simp_all add: default_result_def)
  have s: "stepper_contract request (fst (linux_start env request ready ?r))" for ready
    by (rule good_end_contract, rule linux_start_good) (rule r)+
  have f: "stepper_contract request (fst (linux_fail e ?r))" for e
    by (rule good_end_contract, rule linux_fail_good) (rule r)
  have g: "stepper_contract request (?r\<lparr>res_outcome := Error, res_error := Some e\<rparr>)" for e
    using r(4) by (simp add: stepper_contract_def)
  show ?thesis
    unfolding run_platform_steps_def linux_run_def 4(3) Let_def
    using s f g by (simp add: case_prod_beta split: option.split)
qed (simp_all add: run_platform_steps_def linux_run_def stepper_contract_def default_result_def)

interpretation linux: stepper "run_platform_steps env" for env
  using linux_run_contract[of _ env] by unfold_locales (simp_all add: stepper_contract_def)

section \<open>Resources\<close>

lemma linux_observe_error:
  "linux_observe env request ready cap prev result obs sig code si_addr snapshot = Inl r \<Longrightarrow>
   res_error (fst r) = res_error result \<and> snd r = [TerminateChild, CloseReadEnd]"
  unfolding linux_observe_def Let_def by (auto simp: stop_child_def split: if_split_asm)

text \<open>What a run that has started leaves in the log is decided by the error it reports.\<close>

definition stop_actions :: "PlatformRunResult \<Rightarrow> os_action list" where
  "stop_actions r = (if res_error r = Some WorkerExitedUnexpectedly then [ReapChild] else []) @ [TerminateChild, CloseReadEnd]"

definition started_errors :: "platform_error set" where
  "started_errors = {PtraceOptionsFailed, PtraceRegisterReadFailed, UnsupportedMXCSR, PtraceRegisterSetFailed, PtraceSingleStepFailed,
     WorkerWaitFailed, WorkerExitedUnexpectedly, PtraceSignalInfoFailed}"

definition stopped_log :: "linux_result \<Rightarrow> bool" where
  "stopped_log r \<longleftrightarrow> snd r = stop_actions (fst r) \<and> (case res_error (fst r) of None \<Rightarrow> True | Some e \<Rightarrow> e \<in> started_errors)"

lemma stopped_logI:
  "e \<in> started_errors - {WorkerExitedUnexpectedly} \<Longrightarrow> stopped_log (linux_fail e result)"
  "res_error result = None \<Longrightarrow> stopped_log (stop_child result)"
  "stopped_log (apsnd ((@) [ReapChild]) (stop_child (result\<lparr>res_outcome := Error, res_error := Some WorkerExitedUnexpectedly,
     res_stop_address := prev\<rparr>)))"
  by (auto simp: stopped_log_def linux_fail_def stop_child_def stop_actions_def started_errors_def)

lemma linux_step_log:
  assumes "linux_step env request ready cap prev result = Inl r" "res_error result = None"
  shows "stopped_log r"
proof -
  have observed: "stopped_log r'"
    if "linux_observe env request ready cap prev result obs sig code si_addr snapshot = Inl r'" for obs sig code si_addr snapshot r'
    using linux_observe_error[OF that] assms(2) by (simp add: stopped_log_def stop_actions_def)
  show ?thesis
    using assms unfolding linux_step_def Let_def
    by (auto simp: started_errors_def waited_def intro: stopped_logI observed
        split: if_split_asm option.split_asm wait_status.split_asm prod.split_asm)
qed

lemma linux_step_error: "linux_step env request ready cap prev result = Inr (n, result') \<Longrightarrow> res_error result' = res_error result"
  unfolding linux_step_def linux_observe_def Let_def
  by (auto split: if_split_asm option.split_asm wait_status.split_asm prod.split_asm)

lemma linux_loop_log: "res_error result = None \<Longrightarrow> stopped_log (linux_loop env request ready cap prev result)"
proof (induction env request ready cap prev result rule: linux_loop.induct)
  case (1 env request ready cap prev result)
  have "res_error y = None" if "linux_step env request ready cap prev result = Inr (n, y)" for n y
    using linux_step_error[OF that] 1(2) by simp
  then show ?case
    using 1 by (subst linux_loop.simps) (auto split: sum.split dest: linux_step_log)
qed

lemma linux_start_log: "res_error result = None \<Longrightarrow> stopped_log (linux_start env request ready result)"
  by (auto simp: linux_start_def Let_def started_errors_def intro!: stopped_logI linux_loop_log split: option.split)

section \<open>The reported seed\<close>

text \<open>The loop over the tagged x87 registers, field by field.\<close>

lemma foldl_seed_st:
  "foldl (\<lambda>f i. if p i then f\<lparr>f_st_space := (f_st_space f)[i := new i @ drop 10 (f_st_space f ! i)], f_ftw := f_ftw f OR push_bit i 1\<rparr> else f) f is
   = f\<lparr>f_st_space := foldl (\<lambda>xs i. if p i then xs[i := new i @ drop 10 (xs ! i)] else xs) (f_st_space f) is,
       f_ftw := foldl (\<lambda>t i. if p i then t OR push_bit i 1 else t) (f_ftw f) is\<rparr>"
  by (induction "is" arbitrary: f) auto

lemma seed_fpregs_fields:
  assumes "wf_fpregs f" "f_swd f AND push_bit 11 7 = 0"
  shows "f_cwd (seed_fpregs seed f) = fpu_control_word seed" "f_mxcsr (seed_fpregs seed f) = mxcsr seed"
    "f_xmm_space (seed_fpregs seed f) = map (\<lambda>i. xmm seed ! i) [0..<16]" "f_swd (seed_fpregs seed f) = f_swd f"
    "f_st_space (seed_fpregs seed f) = map (\<lambda>i. if bit (fpu_tag_word_abridged seed) i
        then st seed ! i @ drop 10 (f_st_space f ! i) else f_st_space f ! i) [0..<8]"
  using assms and_not_disjoint[OF assms(2)] unfolding seed_fpregs_def Let_def wf_fpregs_def
  by (simp_all add: foldl_seed_st foldl_list_prefix_8 del: upt_rec_numeral)

lemma reported_seed_eq:
  assumes "wf_registers seed" "wf_fpregs f" "seed = req_seed request"
  shows "reported_seed request ready f seed =
    \<lparr>gpr = (gpr seed)[7 := ready_initial_rsp ready,
        5 := effective_pointer (req_seed_data_pointers request) (ready_data_base ready) (gpr seed ! 5),
        4 := effective_pointer (req_seed_data_pointers request) (ready_data_base ready) (gpr seed ! 4)],
      rip = ready_code_base ready,
      rflags = (rflags seed AND RFLAGS_STATUS_MASK) OR RFLAGS_RESERVED_BIT1 OR RFLAGS_INTERRUPT_FLAG,
      xmm = map (\<lambda>i. xmm seed ! i) [0..<16], mxcsr = mxcsr seed,
      st = map (\<lambda>i. if bit (fpu_tag_word_abridged seed) i then st seed ! i else take 10 (f_st_space f ! i)) [0..<8],
      fpu_control_word = fpu_control_word seed, fpu_status_word = f_swd f,
      fpu_tag_word_abridged = ucast (f_ftw (seed_fpregs seed f))\<rparr>"
  using assms unfolding reported_seed_def snapshot_fpu_def Let_def
  by (simp add: foldl_reported_st foldl_list_set_8 reg_set_def reg_get_def del: upt_rec_numeral)

text \<open>
  What the first snapshot of the seeded child would read is what the trace reports as its seed,
  provided the child's x87 stack top is 0, as \<open>fninit\<close> leaves it.
\<close>

lemma seed_matches:
  assumes "wf_registers (req_seed request)" "wf_fpregs f" "f_swd f AND push_bit 11 7 = 0"
  shows "read_snapshot (seed_regs request ready regs, seed_fpregs (req_seed request) f)
    = reported_seed request ready f (req_seed request)"
proof -
  let ?seed = "req_seed request" and ?f = "seed_fpregs (req_seed request) f"
  have len: "length (gpr ?seed) = 16" and st: "\<forall>i<8. length (st ?seed ! i) = 10"
    using assms(1) by (auto simp: wf_registers_def)
  have stf: "map (\<lambda>i. take 10 (f_st_space ?f ! i)) [0..<8]
      = map (\<lambda>i. if bit (fpu_tag_word_abridged ?seed) i then st ?seed ! i else take 10 (f_st_space f ! i)) [0..<8]"
    using st by (intro map_cong) (simp_all add: seed_fpregs_fields[OF assms(2,3)] del: upt_rec_numeral)
  have xm: "map (\<lambda>i. f_xmm_space ?f ! i) [0..<16] = map (\<lambda>i. xmm ?seed ! i) [0..<16]"
    by (intro map_cong) (simp_all add: seed_fpregs_fields[OF assms(2,3)] del: upt_rec_numeral)
  show ?thesis
    unfolding reported_seed_eq[OF assms(1,2) refl] read_snapshot_def snapshot_fpu_def gpr_reported_seed[OF len]
    by (simp add: stf xm seed_fpregs_fields(1,2,4)[OF assms(2,3)] default_registers_def seed_regs_def Let_def reg_get_def
        seeded_flags_no_trap del: upt_rec_numeral)
qed

lemma linux_observe_keeps:
  assumes "linux_observe env request ready cap prev result obs sig code si_addr snapshot = res"
  shows "res = Inl r \<Longrightarrow> res_error (fst r) = res_error result \<and> res_seed (fst r) = res_seed result"
    and "res = Inr (n, result') \<Longrightarrow> res_error result' = res_error result \<and> res_seed result' = res_seed result"
  using assms unfolding linux_observe_def Let_def
  by (auto simp: stop_child_def split: if_split_asm)

lemma linux_step_seed:
  shows "linux_step env request ready cap prev result = Inl r \<Longrightarrow> res_seed (fst r) = res_seed result"
    and "linux_step env request ready cap prev result = Inr (n, result') \<Longrightarrow> res_seed result' = res_seed result"
  unfolding linux_step_def Let_def
  by (auto simp: linux_fail_def stop_child_def dest: linux_observe_keeps
      split: if_split_asm option.split_asm wait_status.split_asm prod.split_asm)

lemma linux_loop_seed: "res_seed (fst (linux_loop env request ready cap prev result)) = res_seed result"
proof (induction env request ready cap prev result rule: linux_loop.induct)
  case (1 env request ready cap prev result)
  then show ?case
    by (subst linux_loop.simps) (auto split: sum.split dest: linux_step_seed)
qed

text \<open>
  A cooperative system: every call that the run makes succeeds and every single step ends in a stop
  of the child whose state can be read.
\<close>

definition step_succeeds :: "StepObservation \<Rightarrow> bool" where
  "step_succeeds obs \<longleftrightarrow> obs_singlestep obs \<and> obs_wait obs \<noteq> None \<and> obs_wait obs \<noteq> Some NotStopped
     \<and> obs_siginfo obs \<noteq> None \<and> obs_registers obs \<noteq> None"

definition startup_succeeds :: "LinuxEnv \<Rightarrow> PlatformRunRequest \<Rightarrow> bool" where
  "startup_succeeds env request \<longleftrightarrow> \<not> instrumentation_detected env \<and> env_pipe env \<and> env_fork env
     \<and> (case env_ready env of None \<Rightarrow> False | Some ready \<Rightarrow> ready_error ready = ChildOk)
     \<and> env_startup_wait env = Some (StoppedBy SIGSTOP) \<and> env_setoptions env \<and> env_setregs env
     \<and> (case env_getregs env of None \<Rightarrow> False
        | Some (registers, f) \<Rightarrow> mxcsr (req_seed request) AND NOT (mxcsr_mask_of (f_mxcr_mask f)) = 0)"

lemma linux_step_succeeds:
  assumes "step_succeeds (env_step env (length (res_steps result)))"
  shows "\<exists>sig code si_addr snapshot. linux_step env request ready cap prev result
    = linux_observe env request ready cap prev result (env_step env (length (res_steps result))) sig code si_addr snapshot"
  using assms unfolding linux_step_def Let_def step_succeeds_def
  by (auto split: option.splits wait_status.splits)

lemma linux_loop_no_error:
  "(\<And>n. step_succeeds (env_step env n)) \<Longrightarrow> res_error (fst (linux_loop env request ready cap prev result)) = res_error result"
proof (induction env request ready cap prev result rule: linux_loop.induct)
  case (1 env request ready cap prev result)
  obtain sig code si_addr snapshot where step: "linux_step env request ready cap prev result
    = linux_observe env request ready cap prev result (env_step env (length (res_steps result))) sig code si_addr snapshot"
    using linux_step_succeeds[OF 1(2)] by blast
  show ?case
  proof (cases "linux_step env request ready cap prev result")
    case (Inl r)
    then show ?thesis using linux_observe_keeps(1)[OF step[symmetric] Inl] by (subst linux_loop.simps) simp
  next
    case (Inr c)
    obtain n r where c: "c = (n, r)" by fastforce
    then have "res_error r = res_error result" using linux_observe_keeps(2)[OF step[symmetric]] Inr by blast
    then show ?thesis using 1(1)[OF Inr c[symmetric] 1(2)] by (subst linux_loop.simps) (simp add: Inr c)
  qed
qed

text \<open>The run, when start-up succeeds.\<close>

lemma linux_run_started:
  fixes result
  assumes "startup_succeeds env request" "env_ready env = Some ready" "env_getregs env = Some (registers, f)"
    and "request_ok request"
  defines "result \<equiv> default_result\<lparr>res_seed := reported_seed request ready f (req_seed request)\<rparr>"
  shows "run_platform_steps env request
    = (if req_stop_offset request = Some 0
       then result\<lparr>res_outcome := Stopped, res_stop_address := ready_code_base ready, res_stopped_at_target := True\<rparr>
       else fst (linux_loop env request ready (effective_cap (req_max_steps request)) (ready_code_base ready) result))"
proof -
  have e: "\<not> instrumentation_detected env" "env_pipe env" "env_fork env" "ready_error ready = ChildOk"
    "env_startup_wait env = Some (StoppedBy SIGSTOP)" "env_setoptions env" "env_setregs env"
    "mxcsr (req_seed request) AND NOT (mxcsr_mask_of (f_mxcr_mask f)) = 0"
    using assms(1-3) by (auto simp: startup_succeeds_def)
  have "linux_start env request ready (default_result\<lparr>res_seed := req_seed request\<rparr>)
    = (if req_stop_offset request = Some 0
       then stop_child (result\<lparr>res_outcome := Stopped, res_stop_address := ready_code_base ready, res_stopped_at_target := True\<rparr>)
       else linux_loop env request ready (effective_cap (req_max_steps request)) (ready_code_base ready) result)"
    by (simp add: linux_start_def e assms(3) Let_def result_def)
  then show ?thesis
    by (simp add: run_platform_steps_def linux_run_def e prepare_platform_run_ok[OF assms(4)] assms(2) Let_def
        case_prod_beta stop_child_def)
qed

section \<open>Properties\<close>

text \<open>
  C3: the trace that the engine returns on Linux. Whatever the operating system answers, the run
  returns, and the trace is a failure with an error and without events, or it is a chain of completed
  events from the code base, each starting where the previous one left the instruction pointer, no more
  than the step cap, followed by at most one faulted event, and outcome, stop reason, stop address and
  message are those of the point where the chain ends.
\<close>

theorem linux_engine_trace:
  "let t = run_engine host (run_platform_steps env) code seed max_steps backend syn seed_data_pointers stop_offset
   in trace_code t = code \<and> trace_effective_max_steps t = effective_cap max_steps
     \<and> (trace_failed t \<or> (\<exists>events. trace_of_run t stop_offset events))"
  unfolding Let_def by (rule linux.run_engine_trace)

text \<open>
  C7: the run on a cooperative system. When the request is valid, no instrumentation is detected, the processor
  supports the MXCSR seed, every call of the start-up succeeds and every single step ends in a stop of the child
  that can be read (in particular the traced code does not end the child process), \<open>run_platform_steps\<close> returns
  without an error and its result is a recording that ends at the target, outside the code, at the cap, at
  a breakpoint or at a fault.
\<close>

theorem linux_run_completes:
  assumes "startup_succeeds env request" "\<And>n. step_succeeds (env_step env n)" "request_ok request"
  shows "res_error (run_platform_steps env request) = None \<and> recording request (run_platform_steps env request)"
proof -
  obtain ready registers f where "env_ready env = Some ready" "env_getregs env = Some (registers, f)"
    using assms(1) by (auto simp: startup_succeeds_def split: option.splits)
  from linux_run_started[OF assms(1) this assms(3)]
  have "res_error (run_platform_steps env request) = None"
    using linux_loop_no_error[OF assms(2)] by (simp add: default_result_def)
  then show ?thesis using linux.recorded by blast
qed

text \<open>
  C15: the seed that a Linux trace reports is the state the child really starts in. When the run starts,
  the reported seed is what a snapshot of the child would read after its registers have been written:
  the requested values, with stack pointer, code base, data pointers and flags filled in, and with the
  child's own contents in the x87 registers that the seed leaves empty. The hypothesis on the status
  word is that \<open>fninit\<close> has left the top of the x87 stack at 0.
\<close>

theorem linux_seed_reported:
  assumes "startup_succeeds env request" "env_ready env = Some ready" "env_getregs env = Some (registers, f)"
    and "request_ok request" "wf_registers (req_seed request)" "wf_fpregs f" "f_swd f AND push_bit 11 7 = 0"
  shows "res_seed (run_platform_steps env request)
    = read_snapshot (seed_regs request ready registers, seed_fpregs (req_seed request) f)"
  using linux_run_started[OF assms(1-4)] seed_matches[OF assms(5-7)] by (simp add: linux_loop_seed)

text \<open>
  C22: what a Linux run does to its pipe and its child, on every path, error paths included. Both ends of the pipe
  are closed exactly as often as the pipe was opened. A forked child is killed and reaped once by
  \<open>terminate_child\<close>, with two exceptions: a child whose setup failed exits by itself and is reaped by the wait
  for it; and when a wait finds that the child has exited, in the loop or at start-up, that wait has reaped it
  and \<open>terminate_child\<close> is called nevertheless, on a process id that is free again.
\<close>

theorem linux_resources:
  "let (r, acts) = linux_run env request
   in count_list acts CloseReadEnd = count_list acts OpenPipe \<and> count_list acts CloseWriteEnd = count_list acts OpenPipe
     \<and> count_list acts OpenPipe \<le> 1
     \<and> filter (\<lambda>a. a \<in> {ForkChild, ReapChild, TerminateChild}) acts
       = (if ForkChild \<notin> set acts then []
          else if res_error r = Some WorkerExitedUnexpectedly
               \<or> (res_error r = Some WorkerDidNotStop \<and> env_startup_wait env = Some NotStopped)
          then [ForkChild, ReapChild, TerminateChild]
          else if res_error r \<in> Some ` range WorkerSetupFailed
          then ForkChild # (if env_startup_wait env = Some NotStopped then [ReapChild] else [])
          else [ForkChild, TerminateChild])"
proof (cases rule: prepare_platform_run_cases[of request "instrumentation_detected env"])
  case 4
  let ?r = "default_result\<lparr>res_seed := req_seed request\<rparr>"
  have none: "res_error ?r = None" by (simp add: default_result_def)
  have start: "snd (linux_start env request ready ?r) = stop_actions (fst (linux_start env request ready ?r))
      \<and> res_error (fst (linux_start env request ready ?r)) \<notin> Some ` range WorkerSetupFailed
      \<and> res_error (fst (linux_start env request ready ?r)) \<noteq> Some WorkerDidNotStop" for ready
    using linux_start_log[OF none, of env request ready] by (auto simp: stopped_log_def started_errors_def split: option.splits)
  show ?thesis
    unfolding linux_run_def 4(3) Let_def
    using start by (auto simp: case_prod_beta stop_actions_def linux_fail_def stop_child_def waited_def split: option.split)
qed (simp_all add: linux_run_def default_result_def)

text \<open>A cooperative system that runs a two-byte program to its end.\<close>

definition example_regs :: user_regs_struct where
  "example_regs = \<lparr>u_rax = 0, u_rbx = 0, u_rcx = 0, u_rdx = 0, u_rsi = 0, u_rdi = 0, u_rbp = 0, u_rsp = 0, u_r8 = 0,
     u_r9 = 0, u_r10 = 0, u_r11 = 0, u_r12 = 0, u_r13 = 0, u_r14 = 0, u_r15 = 0, u_rip = 0x2000, u_eflags = 0x202\<rparr>"

definition example_fpregs :: user_fpregs_struct where
  "example_fpregs = \<lparr>f_cwd = 0x37F, f_swd = 0, f_ftw = 0, f_mxcsr = 0x1F80, f_mxcr_mask = 0,
     f_st_space = replicate 8 (replicate 16 0), f_xmm_space = replicate 16 (0, 0)\<rparr>"

definition example_env :: LinuxEnv where
  "example_env = \<lparr>env_getenv = (\<lambda>_. None), env_pipe = True, env_fork = True,
     env_ready = Some \<lparr>ready_code_base = 0x1FFE, ready_initial_rsp = 0x9F00, ready_data_base = 0x10001000, ready_error = ChildOk\<rparr>,
     env_startup_wait = Some (StoppedBy SIGSTOP), env_setoptions = True,
     env_getregs = Some (example_regs, example_fpregs), env_setregs = True,
     env_step = (\<lambda>n. \<lparr>obs_singlestep = True, obs_wait = Some (StoppedBy SIGTRAP), obs_siginfo = Some (TRAP_TRACE, 0),
       obs_registers = Some (example_regs, example_fpregs), obs_report = None\<rparr>),
     env_zydis = (\<lambda>_. None)\<rparr>"

definition example_request :: PlatformRunRequest where
  "example_request = \<lparr>req_code = [0x90, 0x90], req_seed = default_registers, req_max_steps = 10, req_stop_offset = None,
     req_seed_data_pointers = True\<rparr>"

lemmas example_defs = example_env_def example_request_def example_regs_def example_fpregs_def

lemma example_starts: "startup_succeeds example_env example_request" "step_succeeds (env_step example_env n)" "request_ok example_request"
  by (simp_all add: startup_succeeds_def step_succeeds_def request_ok_def example_defs instrumentation_detected_def
      environment_present_def default_registers_def mxcsr_mask_of_def MXCSR_FALLBACK_MASK_def DEFAULT_MXCSR_def)

theorem linux_run_completes_witness:
  "res_error (run_platform_steps example_env example_request) = None
    \<and> recording example_request (run_platform_steps example_env example_request)"
  by (rule linux_run_completes[OF example_starts])

theorem linux_seed_reported_witness:
  "res_seed (run_platform_steps example_env example_request)
    = read_snapshot (seed_regs example_request \<lparr>ready_code_base = 0x1FFE, ready_initial_rsp = 0x9F00,
        ready_data_base = 0x10001000, ready_error = ChildOk\<rparr> example_regs, seed_fpregs default_registers example_fpregs)"
proof -
  have "wf_fpregs example_fpregs" by (simp add: wf_fpregs_def example_defs)
  moreover have "wf_registers (req_seed example_request)"
    by (simp add: wf_registers_def example_defs default_registers_def)
  ultimately show ?thesis
    using linux_seed_reported[OF example_starts(1) _ _ example_starts(3), of _ example_regs example_fpregs]
    by (simp add: example_defs)
qed

end
