(* ===== verification/LinuxHost.thy ===== *)
theory LinuxHost
  imports Linux
begin

text \<open>
  The small host helpers of src/src/os.linux.cpp: the loops around \<open>write\<close>, \<open>read\<close> and \<open>waitpid\<close> that
  retry after an interruption, and \<open>copy_to_clipboard\<close>, which sends the text to the
  terminal as an OSC 52 sequence in base64. What a system call answers is a parameter, a function of
  the number of calls made before. The loops may be interrupted for ever; then they do not return.
\<close>

section \<open>Interrupted system calls\<close>

text \<open>The answer of \<open>write\<close> and \<open>read\<close>: a positive count, an interruption, or the end of the transfer.\<close>

datatype transfer = Transferred nat | Interrupted | NoTransfer

partial_function (option) write_all ::
  "(nat \<Rightarrow> nat \<Rightarrow> transfer) \<Rightarrow> nat \<Rightarrow> u8 list \<Rightarrow> u8 list \<Rightarrow> (bool \<times> u8 list) option" where
  "write_all sys calls bytes sent =
     (if bytes = [] then Some (True, sent)
      else case sys calls (length bytes) of
             Transferred n \<Rightarrow> write_all sys (Suc calls) (drop n bytes) (sent @ take n bytes)
           | Interrupted \<Rightarrow> write_all sys (Suc calls) bytes sent
           | NoTransfer \<Rightarrow> Some (False, sent))"

text \<open>\<open>read_all\<close> takes the bytes from what is in the pipe.\<close>

partial_function (option) read_all ::
  "(nat \<Rightarrow> nat \<Rightarrow> transfer) \<Rightarrow> nat \<Rightarrow> nat \<Rightarrow> u8 list \<Rightarrow> u8 list \<Rightarrow> (bool \<times> u8 list) option" where
  "read_all sys calls size_left pipe received =
     (if size_left = 0 then Some (True, received)
      else case sys calls size_left of
             Transferred n \<Rightarrow> read_all sys (Suc calls) (size_left - n) (drop n pipe) (received @ take n pipe)
           | Interrupted \<Rightarrow> read_all sys (Suc calls) size_left pipe received
           | NoTransfer \<Rightarrow> Some (False, received))"

datatype 'status wait_answer = ChildWaited 'status | WaitInterrupted | WaitFailed

partial_function (option) wait_for_child :: "(nat \<Rightarrow> 'status wait_answer) \<Rightarrow> nat \<Rightarrow> 'status option option" where
  "wait_for_child sys calls =
     (case sys calls of
        ChildWaited status \<Rightarrow> Some (Some status)
      | WaitInterrupted \<Rightarrow> wait_for_child sys (Suc calls)
      | WaitFailed \<Rightarrow> Some None)"

definition vm_page_size :: "int \<Rightarrow> nat" where
  "vm_page_size page_size = (if page_size > 0 then nat page_size else 4096)"

text \<open>A kernel that transfers at least one and at most as many bytes as asked, and is interrupted only finitely often.\<close>

definition transfers :: "(nat \<Rightarrow> nat \<Rightarrow> transfer) \<Rightarrow> bool" where
  "transfers sys \<longleftrightarrow> (\<forall>calls m n. sys calls m = Transferred n \<longrightarrow> 0 < n \<and> n \<le> m)"

lemma write_all_sound:
  assumes "write_all sys calls bytes sent = Some result"
  shows "\<exists>rest. snd result @ rest = sent @ bytes \<and> (fst result \<longrightarrow> rest = [])"
proof (rule write_all.raw_induct[OF _ assms, where P = "\<lambda>sys calls bytes sent r. \<exists>rest. snd r @ rest = sent @ bytes \<and> (fst r \<longrightarrow> rest = [])"])
  fix f sys calls and bytes sent :: "u8 list" and r
  assume IH: "\<And>sys calls bytes sent r. f sys calls bytes sent = Some r \<Longrightarrow> \<exists>rest. snd r @ rest = sent @ bytes \<and> (fst r \<longrightarrow> rest = [])"
    and step: "(if bytes = [] then Some (True, sent)
      else case sys calls (length bytes) of
             Transferred n \<Rightarrow> f sys (Suc calls) (drop n bytes) (sent @ take n bytes)
           | Interrupted \<Rightarrow> f sys (Suc calls) bytes sent
           | NoTransfer \<Rightarrow> Some (False, sent)) = Some r"
  have "f sys (Suc calls) (drop n bytes) (sent @ take n bytes) = Some r \<Longrightarrow> \<exists>rest. snd r @ rest = sent @ bytes \<and> (fst r \<longrightarrow> rest = [])" for n
    using IH[of sys "Suc calls" "drop n bytes" "sent @ take n bytes" r] by simp
  then show "\<exists>rest. snd r @ rest = sent @ bytes \<and> (fst r \<longrightarrow> rest = [])"
    using step IH[of sys "Suc calls" bytes sent r] by (auto split: if_splits transfer.splits)
qed

text \<open>As long as the kernel is not interrupted for ever, the loop returns.\<close>

lemma write_all_returns:
  assumes "transfers sys" "\<And>calls m. sys calls m = Interrupted \<Longrightarrow> calls < k"
  shows "\<exists>r. write_all sys calls bytes sent = Some r"
proof (induction "length bytes + (k - calls)" arbitrary: calls bytes sent rule: less_induct)
  case less
  show ?case
  proof (cases "bytes = []")
    case True
    then show ?thesis by (subst write_all.simps) auto
  next
    case False
    show ?thesis
    proof (cases "sys calls (length bytes)")
      case (Transferred n)
      then have "0 < n" using assms(1) by (simp add: transfers_def)
      then have "\<exists>r. write_all sys (Suc calls) (drop n bytes) (sent @ take n bytes) = Some r"
        using False by (intro less) (cases bytes, auto)
      then show ?thesis using False Transferred by (subst write_all.simps) simp
    next
      case Interrupted
      then have "\<exists>r. write_all sys (Suc calls) bytes sent = Some r" using assms(2)[OF Interrupted] by (intro less) simp
      then show ?thesis using False Interrupted by (subst write_all.simps) simp
    next
      case NoTransfer
      then show ?thesis using False by (subst write_all.simps) auto
    qed
  qed
qed

lemma read_all_sound:
  assumes "read_all sys calls size_left pipe received = Some result" "transfers sys" "size_left \<le> length pipe" "fst result"
  shows "snd result = received @ take size_left pipe"
proof -
  have "transfers sys \<longrightarrow> size_left \<le> length pipe \<longrightarrow> fst result \<longrightarrow> snd result = received @ take size_left pipe"
  proof (rule read_all.raw_induct[OF _ assms(1), where P = "\<lambda>sys calls size_left pipe received r.
      transfers sys \<longrightarrow> size_left \<le> length pipe \<longrightarrow> fst r \<longrightarrow> snd r = received @ take size_left pipe"])
    fix f sys calls size_left and pipe received :: "u8 list" and r
    assume IH: "\<And>sys calls size_left pipe received r. f sys calls size_left pipe received = Some r \<Longrightarrow>
        transfers sys \<longrightarrow> size_left \<le> length pipe \<longrightarrow> fst r \<longrightarrow> snd r = received @ take size_left pipe"
      and step: "(if size_left = 0 then Some (True, received)
        else case sys calls size_left of
               Transferred n \<Rightarrow> f sys (Suc calls) (size_left - n) (drop n pipe) (received @ take n pipe)
             | Interrupted \<Rightarrow> f sys (Suc calls) size_left pipe received
             | NoTransfer \<Rightarrow> Some (False, received)) = Some r"
    have more: "snd r = received @ take size_left pipe"
      if "f sys (Suc calls) (size_left - n) (drop n pipe) (received @ take n pipe) = Some r" "n \<le> size_left"
        "transfers sys" "size_left \<le> length pipe" "fst r" for n
      using IH[OF that(1)] that(2-) take_add[of n "size_left - n" pipe] by simp
    show "transfers sys \<longrightarrow> size_left \<le> length pipe \<longrightarrow> fst r \<longrightarrow> snd r = received @ take size_left pipe"
      using step more IH[of sys "Suc calls" size_left pipe received r]
      by (auto simp: transfers_def split: if_splits transfer.splits)
  qed
  then show ?thesis using assms by blast
qed

text \<open>A structure sent over a pipe arrives unchanged, however the kernel splits the transfers.\<close>

lemma pipe_transfer:
  assumes "write_all writer 0 bytes [] = Some (True, sent)" "read_all reader 0 (length bytes) sent [] = Some (True, received)" "transfers reader"
  shows "received = bytes"
  using write_all_sound[OF assms(1)] read_all_sound[OF assms(2,3)] by simp

section \<open>Clipboard\<close>

definition clipboard_encode :: "u8 \<Rightarrow> char" where
  "clipboard_encode value =
     (if value < 26 then char_of (65 + unat value)
      else if value < 52 then char_of (97 + (unat value - 26))
      else if value < 62 then char_of (48 + (unat value - 52))
      else if value = 62 then CHR ''+'' else CHR ''/'')"

text \<open>The six-bit values that two neighbouring bytes share.\<close>

definition second_sextet :: "u8 \<Rightarrow> u8 \<Rightarrow> u8" where
  "second_sextet first second = push_bit 4 (first AND 0x3) OR drop_bit 4 second"

definition third_sextet :: "u8 \<Rightarrow> u8 \<Rightarrow> u8" where
  "third_sextet second third = push_bit 2 (second AND 0xF) OR drop_bit 6 third"

text \<open>The loop body on the bytes that are left: up to three of them give four characters.\<close>

fun clipboard_group :: "u8 list \<Rightarrow> string" where
  "clipboard_group bytes =
     (let first = (case bytes of [] \<Rightarrow> 0 | b # _ \<Rightarrow> b);
          second = (case bytes of _ # b # _ \<Rightarrow> b | _ \<Rightarrow> 0);
          third = (case bytes of _ # _ # b # _ \<Rightarrow> b | _ \<Rightarrow> 0)
      in [clipboard_encode (drop_bit 2 first),
          clipboard_encode (second_sextet first second),
          if 1 < length bytes then clipboard_encode (third_sextet second third) else CHR ''='',
          if 2 < length bytes then clipboard_encode (third AND 0x3F) else CHR ''=''])"

text \<open>What the terminal's stream answers: \<open>isatty\<close>, the two \<open>fputs\<close>, each \<open>fwrite\<close>, and \<open>fflush\<close>.\<close>

record ClipboardStream =
  stream_tty :: bool
  stream_start :: bool
  stream_group :: "nat \<Rightarrow> bool"
  stream_stop :: bool
  stream_flush :: bool

fun write_groups :: "(nat \<Rightarrow> bool) \<Rightarrow> nat \<Rightarrow> u8 list \<Rightarrow> string \<Rightarrow> bool \<times> string" where
  "write_groups put i [] output = (True, output)"
| "write_groups put i (b # bytes) output =
     (if put i then write_groups put (Suc i) (drop 2 bytes) (output @ clipboard_group (b # bytes)) else (False, output))"

definition CLIPBOARD_START :: string where
  "CLIPBOARD_START = CHR 0x1B # '']52;c;''"

definition byte_of :: "char \<Rightarrow> u8" where
  "byte_of c = word_of_nat (of_char c)"

definition linux_copy_to_clipboard :: "ClipboardStream \<Rightarrow> string \<Rightarrow> bool \<times> string" where
  "linux_copy_to_clipboard stream text =
     (if text = [] \<or> \<not> stream_tty stream then (False, [])
      else if \<not> stream_start stream then (False, [])
      else let (written, output) = write_groups (stream_group stream) 0 (map byte_of text) CLIPBOARD_START
           in if \<not> written then (False, output)
              else if \<not> stream_stop stream then (False, output)
              else (stream_flush stream, output @ [CHR 0x07]))"

text \<open>The base64 decoding of RFC 4648, which the terminal applies to the payload.\<close>

definition base64_value :: "char \<Rightarrow> u8 option" where
  "base64_value c =
     (let n = of_char c :: nat
      in if 65 \<le> n \<and> n \<le> 90 then Some (word_of_nat (n - 65))
         else if 97 \<le> n \<and> n \<le> 122 then Some (word_of_nat (n - 97 + 26))
         else if 48 \<le> n \<and> n \<le> 57 then Some (word_of_nat (n - 48 + 52))
         else if c = CHR ''+'' then Some 62 else if c = CHR ''/'' then Some 63 else None)"

fun base64_decode :: "string \<Rightarrow> u8 list option" where
  "base64_decode [] = Some []"
| "base64_decode (p # q # r # s # rest) =
     (case (base64_value p, base64_value q) of
        (Some v, Some w) \<Rightarrow>
          (let first = push_bit 2 v OR drop_bit 4 w
           in if r = CHR ''='' then (if s = CHR ''='' \<and> rest = [] then Some [first] else None)
              else case base64_value r of
                     None \<Rightarrow> None
                   | Some x \<Rightarrow>
                       (let second = push_bit 4 w OR drop_bit 2 x
                        in if s = CHR ''='' then (if rest = [] then Some [first, second] else None)
                           else case base64_value s of
                                  None \<Rightarrow> None
                                | Some y \<Rightarrow> map_option (\<lambda>bs. first # second # (push_bit 6 x OR y) # bs) (base64_decode rest)))
      | _ \<Rightarrow> None)"
| "base64_decode _ = None"

fun base64 :: "u8 list \<Rightarrow> string" where
  "base64 [] = []"
| "base64 (b # bytes) = clipboard_group (b # bytes) @ base64 (drop 2 bytes)"

lemma sextet_cases:
  fixes v :: u8
  assumes "v < 64"
  shows "v < 26 \<or> 26 \<le> v \<and> v < 52 \<or> 52 \<le> v \<and> v < 62 \<or> v = 62 \<or> v = 63"
  using assms by (auto simp: word_less_nat_alt word_le_nat_alt word_unat_eq_iff)

lemma base64_value_encode:
  fixes v :: u8
  assumes "v < 64"
  shows "base64_value (clipboard_encode v) = Some v" "clipboard_encode v \<noteq> CHR ''=''"
proof -
  have n: "of_char (char_of k :: char) = k" if "k < 256" for k :: nat using that by simp
  have eq: "c = CHR ''='' \<Longrightarrow> of_char c = (61 :: nat)" for c :: char by simp
  show "base64_value (clipboard_encode v) = Some v"
    using sextet_cases[OF assms]
    by (auto simp: base64_value_def clipboard_encode_def n word_less_nat_alt word_le_nat_alt Let_def)
  show "clipboard_encode v \<noteq> CHR ''=''"
    using sextet_cases[OF assms]
    by (auto simp: clipboard_encode_def n word_less_nat_alt word_le_nat_alt dest!: eq)
qed

lemma low_bits:
  fixes a :: u8
  shows "a AND 0x3 = take_bit 2 a" "a AND 0xF = take_bit 4 a" "a AND 0x3F = take_bit 6 a"
  by (simp_all add: take_bit_eq_mask mask_eq_exp_minus_1)

lemma sextet_less:
  fixes v :: u8
  assumes "\<And>n. 6 \<le> n \<Longrightarrow> \<not> bit v n"
  shows "v < 64"
proof -
  have "take_bit 6 v = v" by (rule bit_word_eqI) (use assms not_less in \<open>auto simp: bit_take_bit_iff\<close>)
  then have "unat v = take_bit 6 (unat v)" by (metis unsigned_take_bit_eq)
  then show ?thesis using take_bit_nat_less_exp[of 6 "unat v"] by (simp add: word_less_nat_alt)
qed

lemma sextet_bits:
  fixes a b c :: u8
  shows "drop_bit 2 a < 64" "second_sextet a b < 64" "third_sextet b c < 64" "c AND 0x3F < 64"
  by (rule sextet_less; auto simp: second_sextet_def third_sextet_def low_bits bit_simps dest: bit_imp_le_length)+

lemma byte_bits:
  fixes a b c :: u8
  shows "push_bit 2 (drop_bit 2 a) OR drop_bit 4 (second_sextet a b) = a"
    "push_bit 4 (second_sextet a b) OR drop_bit 2 (third_sextet b c) = b"
    "push_bit 6 (third_sextet b c) OR (c AND 0x3F) = c"
proof -
  have bits: "n < 8 \<Longrightarrow> n \<in> {0, 1, 2, 3, 4, 5, 6, 7}" for n :: nat by auto
  show "push_bit 2 (drop_bit 2 a) OR drop_bit 4 (second_sextet a b) = a"
    by (rule bit_word_eqI) (auto simp: second_sextet_def third_sextet_def low_bits bit_simps dest!: bits simp flip: numeral_2_eq_2 numeral_3_eq_3)
  show "push_bit 4 (second_sextet a b) OR drop_bit 2 (third_sextet b c) = b"
    by (rule bit_word_eqI) (auto simp: second_sextet_def third_sextet_def low_bits bit_simps dest!: bits)
  show "push_bit 6 (third_sextet b c) OR (c AND 0x3F) = c"
    by (rule bit_word_eqI) (auto simp: second_sextet_def third_sextet_def low_bits bit_simps dest!: bits)
qed

lemma base64_decode_base64: "base64_decode (base64 bytes) = Some bytes"
proof (induction bytes rule: base64.induct)
  case (2 b bytes)
  note decode = base64_value_encode[OF sextet_bits(1)] base64_value_encode[OF sextet_bits(2)]
    base64_value_encode[OF sextet_bits(3)] base64_value_encode[OF sextet_bits(4)]
  consider "bytes = []" | c where "bytes = [c]" | c d rest where "bytes = c # d # rest"
    by (metis list.exhaust)
  then show ?case
  proof cases
    case 1
    then show ?thesis by (simp add: Let_def decode byte_bits)
  next
    case (2 c)
    then show ?thesis by (simp add: Let_def decode byte_bits)
  next
    case (3 c d rest)
    then show ?thesis using "2.IH" by (simp add: Let_def decode byte_bits)
  qed
qed simp

interpretation clipboard_codec: text_codec "\<lambda>_. True" base64 "\<lambda>s. case base64_decode s of None \<Rightarrow> Inl () | Some bytes \<Rightarrow> Inr bytes"
  by unfold_locales (simp add: base64_decode_base64)

lemma write_groups_result:
  "(fst (write_groups put i bytes out) \<longleftrightarrow> (\<forall>j<(length bytes + 2) div 3. put (i + j)))
   \<and> (fst (write_groups put i bytes out) \<longrightarrow> snd (write_groups put i bytes out) = out @ base64 bytes)"
proof (induction put i bytes out rule: write_groups.induct)
  case (2 put i b bytes out)
  have len: "(length (b # bytes) + 2) div 3 = Suc ((length (drop 2 bytes) + 2) div 3)"
  proof (cases "length bytes < 2")
    case False
    then have "length (drop 2 bytes) + 2 = length bytes" by simp
    then show ?thesis by (simp only: list.size)
  qed (auto simp: less_2_cases_iff)
  have all: "(\<forall>j<Suc n. put (i + j)) \<longleftrightarrow> put i \<and> (\<forall>j<n. put (Suc i + j))" for n
    by (auto simp: less_Suc_eq_0_disj)
  show ?case
  proof (cases "put i")
    case True
    then show ?thesis using "2.IH"[OF True] unfolding len all by (simp del: clipboard_group.simps)
  next
    case False
    then show ?thesis unfolding len all by simp
  qed
qed simp

section \<open>Properties\<close>

text \<open>
  C34: the clipboard sequence carries the text. On Linux \<open>copy_to_clipboard\<close> reports success exactly if the
  text is not empty, standard output is a terminal, and every write and the flush succeed; what it wrote
  is then the OSC 52 sequence whose payload decodes, as base64, to the bytes of the text, and different
  texts have different payloads.
\<close>

theorem clipboard_carries_text:
  "(fst (linux_copy_to_clipboard stream text) \<longleftrightarrow>
      text \<noteq> [] \<and> stream_tty stream \<and> stream_start stream \<and> (\<forall>i<(length text + 2) div 3. stream_group stream i)
      \<and> stream_stop stream \<and> stream_flush stream)
   \<and> (fst (linux_copy_to_clipboard stream text) \<longrightarrow>
      snd (linux_copy_to_clipboard stream text) = CLIPBOARD_START @ base64 (map byte_of text) @ [CHR 0x07])
   \<and> base64_decode (base64 (map byte_of text)) = Some (map byte_of text)
   \<and> (base64 (map byte_of text) = base64 (map byte_of text') \<longleftrightarrow> text = text')"
proof -
  have "inj byte_of"
  proof (rule injI)
    fix c d :: char assume "byte_of c = byte_of d"
    then have "unat (byte_of c) = unat (byte_of d)" by simp
    then have "(of_char c :: nat) = of_char d" by (simp add: byte_of_def unat_word_of_nat)
    then show "c = d" by simp
  qed
  then have "map byte_of text = map byte_of text' \<longleftrightarrow> text = text'" by (simp add: inj_map_eq_map)
  moreover note write_groups_result[of "stream_group stream" 0 "map byte_of text" CLIPBOARD_START]
  ultimately show ?thesis
    using clipboard_codec.encode_inj[of "map byte_of text" "map byte_of text'"] base64_decode_base64
    by (auto simp: linux_copy_to_clipboard_def split: prod.splits if_splits)
qed

theorem clipboard_carries_text_witness:
  "snd (linux_copy_to_clipboard \<lparr>stream_tty = True, stream_start = True, stream_group = (\<lambda>_. True), stream_stop = True,
      stream_flush = True\<rparr> ''BME'') = CLIPBOARD_START @ ''Qk1F'' @ [CHR 0x07]"
proof -
  have "base64 (map byte_of ''BME'') = ''Qk1F''"
    by (simp add: byte_of_def second_sextet_def third_sextet_def clipboard_encode_def char_of_def bit_0)
  then show ?thesis
    using clipboard_carries_text[of "\<lparr>stream_tty = True, stream_start = True, stream_group = (\<lambda>_. True), stream_stop = True,
      stream_flush = True\<rparr>" "''BME''"] by simp
qed

end
