(* ===== verification/LinuxChild.thy ===== *)
theory LinuxChild
  imports LinuxHost
begin

text \<open>
  What crosses the pipe between the traced child and the tracer of src/src/os.linux.cpp: the structures \<open>ChildReady\<close>
  and \<open>FaultReport\<close> as bytes in memory order, the signal handler \<open>fault_report_handler\<close> that sends a report, and
  \<open>collect_fault_report\<close>, which receives it; also \<open>terminate_child\<close> and \<open>initialize_fpu\<close>. The padding bytes of the
  structures have no defined value and are parameters.
\<close>

section \<open>The fault report\<close>

text \<open>\<open>sizeof(FaultReport)\<close> is 24: two 64-bit integers, a 32-bit integer and four bytes of padding.\<close>

definition FAULT_REPORT_SIZE :: nat where "FAULT_REPORT_SIZE = 24"

definition fault_report_bytes :: "u8 list \<Rightarrow> FaultReport \<Rightarrow> u8 list" where
  "fault_report_bytes padding report =
     le_bytes 8 (report_address report) @ le_bytes 8 (report_error_code report)
     @ le_bytes 4 (word_of_int (report_trap_number report)) @ padding"

definition fault_report_of_bytes :: "u8 list \<Rightarrow> FaultReport" where
  "fault_report_of_bytes bytes =
     \<lparr>report_address = le_value (take 8 bytes), report_error_code = le_value (take 8 (drop 8 bytes)),
      report_trap_number = sint (ucast (le_value (take 4 (drop 16 bytes))) :: 32 word)\<rparr>"

text \<open>The handler: \<open>si_addr\<close>, \<open>gregs[REG_ERR]\<close> and \<open>gregs[REG_TRAPNO]\<close>, which is narrowed to 32 bits.\<close>

definition handler_report :: "u64 \<Rightarrow> u64 \<Rightarrow> u64 \<Rightarrow> FaultReport" where
  "handler_report si_addr reg_err reg_trapno =
     \<lparr>report_address = si_addr, report_error_code = reg_err, report_trap_number = sint (ucast reg_trapno :: 32 word)\<rparr>"

definition fault_report_handler :: "(nat \<Rightarrow> nat \<Rightarrow> transfer) \<Rightarrow> u8 list \<Rightarrow> u64 \<Rightarrow> u64 \<Rightarrow> u64 \<Rightarrow> (bool \<times> u8 list) option" where
  "fault_report_handler sys padding si_addr reg_err reg_trapno =
     write_all sys 0 (fault_report_bytes padding (handler_report si_addr reg_err reg_trapno)) []"

text \<open>
  \<open>PTRACE_CONT\<close>, \<open>poll\<close> with its result and its events, and one \<open>read\<close> of at most \<open>sizeof(report)\<close> bytes (\<open>None\<close> if it
  fails), which is not repeated.
\<close>

definition collect_fault_report :: "bool \<Rightarrow> int \<Rightarrow> bool \<Rightarrow> u8 list option \<Rightarrow> FaultReport option" where
  "collect_fault_report continued poll_result poll_in read_bytes =
     (if \<not> continued then None
      else if poll_result \<le> 0 \<or> \<not> poll_in then None
      else case read_bytes of
             None \<Rightarrow> None
           | Some bytes \<Rightarrow> if length bytes = FAULT_REPORT_SIZE then Some (fault_report_of_bytes bytes) else None)"

lemma sint_narrow:
  assumes "- (2 ^ 31) \<le> t" "t < 2 ^ 31"
  shows "sint (ucast (take_bit 32 (word_of_int t :: u64)) :: 32 word) = t"
proof -
  have "(ucast (take_bit 32 (word_of_int t :: u64)) :: 32 word) = word_of_int t"
    by (rule bit_word_eqI) (simp add: bit_simps)
  then show ?thesis using assms by (simp add: signed_of_int signed_take_bit_int_eq_self)
qed

lemma fault_report_codec:
  assumes "length padding = 4" "- (2 ^ 31) \<le> report_trap_number report" "report_trap_number report < 2 ^ 31"
  shows "fault_report_of_bytes (fault_report_bytes padding report) = report"
  using assms(1) sint_narrow[OF assms(2,3)] by (simp add: fault_report_of_bytes_def fault_report_bytes_def le_value_bytes[of 4])

section \<open>The start-up report\<close>

text \<open>\<open>sizeof(ChildReady)\<close> is 32: three 64-bit integers, the error in one byte and seven bytes of padding.\<close>

definition child_errors :: "ChildError list" where
  "child_errors = [ChildOk, ChildTrace, ChildAllocation, ChildCommit, ChildProtect, ChildFlush, ChildSignalSetup]"

definition child_error_byte :: "ChildError \<Rightarrow> u8" where
  "child_error_byte e = word_of_nat (length (takeWhile ((\<noteq>) e) child_errors))"

definition child_error_of_byte :: "u8 \<Rightarrow> ChildError option" where
  "child_error_of_byte b = (if unat b < length child_errors then Some (child_errors ! unat b) else None)"

definition CHILD_READY_SIZE :: nat where "CHILD_READY_SIZE = 32"

definition child_ready_bytes :: "u8 list \<Rightarrow> ChildReady \<Rightarrow> u8 list" where
  "child_ready_bytes padding ready =
     le_bytes 8 (ready_code_base ready) @ le_bytes 8 (ready_initial_rsp ready) @ le_bytes 8 (ready_data_base ready)
     @ [child_error_byte (ready_error ready)] @ padding"

definition child_ready_of_bytes :: "u8 list \<Rightarrow> ChildReady option" where
  "child_ready_of_bytes bytes =
     map_option (\<lambda>e. \<lparr>ready_code_base = le_value (take 8 bytes), ready_initial_rsp = le_value (take 8 (drop 8 bytes)),
         ready_data_base = le_value (take 8 (drop 16 bytes)), ready_error = e\<rparr>)
       (child_error_of_byte (bytes ! 24))"

lemma child_error_codec: "child_error_of_byte (child_error_byte e) = Some e"
  by (cases e) (simp_all add: child_error_of_byte_def child_error_byte_def child_errors_def)

lemma child_ready_codec: "child_ready_of_bytes (child_ready_bytes padding ready) = Some ready"
  by (simp add: child_ready_of_bytes_def child_ready_bytes_def child_error_codec nth_append)

interpretation fault_reports: text_codec
  "\<lambda>report. - (2 ^ 31) \<le> report_trap_number report \<and> report_trap_number report < 2 ^ 31"
  "fault_report_bytes [0, 0, 0, 0]" "\<lambda>bytes. Inr (fault_report_of_bytes bytes)"
  by unfold_locales (simp add: fault_report_codec)

interpretation ready_reports: text_codec "\<lambda>_. True" "child_ready_bytes (replicate 7 0)"
  "\<lambda>bytes. case child_ready_of_bytes bytes of None \<Rightarrow> Inl () | Some ready \<Rightarrow> Inr ready"
  by unfold_locales (simp add: child_ready_codec)

section \<open>The end of the child\<close>

text \<open>Whether the child is killed, and what the wait for it answers; an invalid process is left alone.\<close>

definition terminate_child :: "int \<Rightarrow> (nat \<Rightarrow> 'status wait_answer) \<Rightarrow> (bool \<times> 'status option) option" where
  "terminate_child child sys =
     (if child \<le> 0 then Some (False, None) else map_option (Pair True) (wait_for_child sys 0))"

section \<open>The floating-point state of the child\<close>

text \<open>
  \<open>fninit\<close>, \<open>ldmxcsr\<close> and \<open>pxor\<close> of all sixteen registers, as \<open>PTRACE_GETFPREGS\<close> shows the state afterwards: the
  registers of the x87 stack keep their bytes and become empty.
\<close>

definition initialize_fpu :: "user_fpregs_struct \<Rightarrow> user_fpregs_struct" where
  "initialize_fpu f =
     f\<lparr>f_cwd := 0x037F, f_swd := 0, f_ftw := 0, f_mxcsr := DEFAULT_MXCSR, f_xmm_space := replicate 16 (0, 0)\<rparr>"

text \<open>The tracer finds a state that can be seeded, and that shows the default registers.\<close>

lemma initialize_fpu_seedable: "wf_fpregs f \<Longrightarrow> wf_fpregs (initialize_fpu f) \<and> f_swd (initialize_fpu f) AND push_bit 11 7 = 0"
  by (simp add: initialize_fpu_def wf_fpregs_def)

lemma initialize_fpu_defaults:
  "(snapshot_fpu (initialize_fpu f) target)\<lparr>st := st default_registers\<rparr>
     = default_registers\<lparr>gpr := gpr target, rip := rip target, rflags := rflags target\<rparr>"
proof -
  have "map (\<lambda>i. replicate 16 x ! i) [0..<16] = replicate 16 x" for x :: "u64 \<times> u64"
    by (rule nth_equalityI) simp_all
  then show ?thesis
    by (simp add: snapshot_fpu_def initialize_fpu_def default_registers_def DEFAULT_FPU_CONTROL_WORD_def del: upt_rec_numeral)
qed

text \<open>The classification of what the handler reports, by the bits of the page-fault error code.\<close>

lemma narrow_is_page_fault: "sint (ucast reg_trapno :: 32 word) = 14 \<longleftrightarrow> take_bit 32 (reg_trapno :: u64) = 14"
proof -
  have "sint (ucast reg_trapno :: 32 word) = 14 \<longleftrightarrow> (ucast reg_trapno :: 32 word) = 14"
    using signed_word_eqI[of "ucast reg_trapno :: 32 word" 14] by auto
  also have "\<dots> \<longleftrightarrow> take_bit 32 reg_trapno = 14"
    by (simp add: word_unat_eq_iff unsigned_ucast_eq unsigned_take_bit_eq)
  finally show ?thesis .
qed

lemma classify_handler_report:
  "classify_fault_access (handler_report si_addr reg_err reg_trapno) si_addr =
     (if take_bit 32 reg_trapno \<noteq> 14 then Unknown
      else if bit reg_err 4 then Execute else if bit reg_err 1 then Write else Read)"
proof -
  have "reg_err AND 16 \<noteq> 0 \<longleftrightarrow> bit reg_err 4" "reg_err AND 2 \<noteq> 0 \<longleftrightarrow> bit reg_err 1"
    using and_exp_eq_0_iff_not_bit[of reg_err 4] and_exp_eq_0_iff_not_bit[of reg_err 1] by simp_all
  then show ?thesis
    by (simp add: classify_fault_access_def handler_report_def PAGE_FAULT_TRAP_def PAGE_FAULT_INSTRUCTION_def PAGE_FAULT_WRITE_def
        narrow_is_page_fault)
qed

section \<open>Properties\<close>

text \<open>
  C32: the reports of the child arrive. A start-up report that the child could write is read back as it was sent,
  however the kernel splits the transfers; and when the handler could write its report and the tracer's
  single \<open>read\<close> gets all of it, the tracer sees the address and error code of the fault, so that a page fault
  is classified by the bits of its error code and any other trap as unknown.
\<close>

theorem child_reports_arrive:
  assumes "length ready_padding = 7" "length fault_padding = 4" "transfers reader"
    and "write_all writer 0 (child_ready_bytes ready_padding ready) [] = Some (True, sent)"
      "read_all reader 0 CHILD_READY_SIZE sent [] = Some (True, received)"
    and "fault_report_handler fault_writer fault_padding si_addr reg_err reg_trapno = Some (True, fault_sent)"
      "0 < poll_result"
  shows "child_ready_of_bytes received = Some ready
    \<and> (\<exists>report. collect_fault_report True poll_result True (Some fault_sent) = Some report
        \<and> report_address report = si_addr \<and> report_error_code report = reg_err
        \<and> classify_fault_access report si_addr =
            (if take_bit 32 reg_trapno \<noteq> 14 then Unknown
             else if bit reg_err 4 then Execute else if bit reg_err 1 then Write else Read))"
proof -
  have "received = child_ready_bytes ready_padding ready"
    using pipe_transfer[OF assms(4)] assms(1,3,5) by (simp add: child_ready_bytes_def CHILD_READY_SIZE_def)
  then have ready: "child_ready_of_bytes received = Some ready" by (simp add: child_ready_codec)
  let ?report = "handler_report si_addr reg_err reg_trapno"
  have sent: "fault_sent = fault_report_bytes fault_padding ?report"
    using write_all_sound[OF assms(6)[unfolded fault_report_handler_def]] by simp
  have "- (2 ^ 31) \<le> report_trap_number ?report" "report_trap_number ?report < 2 ^ 31"
    using sint_range_size[of "ucast reg_trapno :: 32 word"] by (simp_all add: handler_report_def word_size)
  then have "fault_report_of_bytes fault_sent = ?report"
    unfolding sent by (rule fault_report_codec[OF assms(2)])
  moreover have "length fault_sent = FAULT_REPORT_SIZE"
    using assms(2) by (simp add: sent fault_report_bytes_def FAULT_REPORT_SIZE_def)
  ultimately have "collect_fault_report True poll_result True (Some fault_sent) = Some ?report"
    using assms(7) by (simp add: collect_fault_report_def)
  moreover have "report_address ?report = si_addr" "report_error_code ?report = reg_err" by (simp_all add: handler_report_def)
  ultimately show ?thesis using ready classify_handler_report by blast
qed

theorem child_reports_arrive_witness:
  "\<exists>report. collect_fault_report True 1 True (Some (fault_report_bytes [0, 0, 0, 0] (handler_report 0x1000 6 14))) = Some report
    \<and> report_address report = 0x1000 \<and> report_error_code report = 6 \<and> classify_fault_access report 0x1000 = Write"
proof -
  define all where "all = (\<lambda>(_ :: nat) n. if n = 0 then NoTransfer else Transferred n)"
  define ready where "ready = \<lparr>ready_code_base = 0x1FFE, ready_initial_rsp = 0x9F00, ready_data_base = 0x10001000, ready_error = ChildOk\<rparr>"
  have whole: "write_all all 0 bytes [] = Some (True, bytes)" if "bytes \<noteq> []" for bytes
    using that by (simp add: write_all.simps all_def)
  have "read_all all 0 CHILD_READY_SIZE (child_ready_bytes (replicate 7 0) ready) [] = Some (True, child_ready_bytes (replicate 7 0) ready)"
    by (simp add: read_all.simps all_def CHILD_READY_SIZE_def child_ready_bytes_def)
  moreover have "transfers all" "child_ready_bytes (replicate 7 0) ready \<noteq> []"
    "fault_report_bytes [0, 0, 0, 0] (handler_report 0x1000 6 14) \<noteq> []"
    by (simp_all add: transfers_def all_def child_ready_bytes_def fault_report_bytes_def)
  ultimately have "\<exists>report. collect_fault_report True 1 True (Some (fault_report_bytes [0, 0, 0, 0] (handler_report 0x1000 6 14))) = Some report
      \<and> report_address report = 0x1000 \<and> report_error_code report = 6 \<and> classify_fault_access report 0x1000 =
        (if take_bit 32 (14 :: u64) \<noteq> 14 then Unknown else if bit (6 :: u64) 4 then Execute else if bit (6 :: u64) 1 then Write else Read)"
    using child_reports_arrive[of "replicate 7 0" "[0, 0, 0, 0]" all all ready _ _ all "0x1000" 6 14 _ 1] whole
    by (simp add: fault_report_handler_def)
  moreover have "take_bit 32 (14 :: u64) = 14" "\<not> bit (6 :: u64) 4" "bit (6 :: u64) 1"
    by (simp_all add: bit_iff_odd take_bit_eq_mod)
  ultimately show ?thesis by simp
qed

end
