(* ===== verification/Memory.thy ===== *)
theory Memory
  imports Address
begin

text \<open>
  The memory interface of src/src/os.hpp (\<open>vm_alloc\<close>, \<open>vm_alloc_at\<close>, \<open>vm_commit\<close>, \<open>vm_protect\<close>) and the layout that
  both platforms build on it: code in front of a guard page, stack and data between two guard pages. An
  address space says for every address how it may be accessed, or that nothing is reserved there, and
  which byte it holds. \<open>LinuxMemory\<close> and \<open>WindowsMemory\<close> hold the two implementations; the locale \<open>vm\<close> is what
  they promise, and its lemmas carry a list of regions through the calls.
\<close>

section \<open>Address spaces\<close>

datatype VMProtection = ReadWrite | ExecuteRead

text \<open>\<open>PROT_NONE\<close>, \<open>PROT_READ | PROT_WRITE\<close>, \<open>PROT_READ | PROT_EXEC\<close>, and the same under Windows.\<close>

datatype page_access = NoAccess | ReadWriteAccess | ExecuteReadAccess

fun native_protection :: "VMProtection \<Rightarrow> page_access" where
  "native_protection ReadWrite = ReadWriteAccess"
| "native_protection ExecuteRead = ExecuteReadAccess"

record AddressSpace =
  space_access :: "u64 \<Rightarrow> page_access option"
  space_byte :: "u64 \<Rightarrow> u8"

text \<open>The whole pages that \<open>size\<close> bytes from a page boundary on take.\<close>

definition pages :: "u64 \<Rightarrow> u64 \<Rightarrow> nat" where
  "pages page_size len = (unat len + unat page_size - 1) div unat page_size * unat page_size"

definition in_range :: "u64 \<Rightarrow> nat \<Rightarrow> u64 \<Rightarrow> bool" where
  "in_range a n x \<longleftrightarrow> unat a \<le> unat x \<and> unat x < unat a + n"

definition page_aligned :: "u64 \<Rightarrow> u64 \<Rightarrow> bool" where
  "page_aligned page_size a \<longleftrightarrow> unat page_size dvd unat a"

definition set_access :: "u64 \<Rightarrow> nat \<Rightarrow> page_access option \<Rightarrow> AddressSpace \<Rightarrow> AddressSpace" where
  "set_access a n acc space = space\<lparr>space_access := (\<lambda>x. if in_range a n x then acc else space_access space x)\<rparr>"

text \<open>\<open>std::memcpy\<close> into the address space; a byte that may not be written is a fault (\<open>None\<close>).\<close>

definition memcpy :: "u64 \<Rightarrow> u8 list \<Rightarrow> AddressSpace \<Rightarrow> AddressSpace option" where
  "memcpy a bytes space =
     (if \<forall>i<length bytes. space_access space (a + word_of_nat i) = Some ReadWriteAccess
      then Some (space\<lparr>space_byte := (\<lambda>x. if in_range a (length bytes) x then bytes ! (unat x - unat a) else space_byte space x)\<rparr>)
      else None)"

text \<open>
  What the calls do when they succeed. A reservation takes free pages and makes them inaccessible; a
  change of protection concerns the pages of the range only, and keeps the bytes (a commit may clear those
  of its own pages).
\<close>

definition reserves :: "u64 \<Rightarrow> u64 \<Rightarrow> u64 \<Rightarrow> AddressSpace \<Rightarrow> AddressSpace \<Rightarrow> bool" where
  "reserves page_size a len space space' \<longleftrightarrow>
     page_aligned page_size a \<and> unat a + pages page_size len \<le> 2 ^ 64
     \<and> (\<forall>x. in_range a (pages page_size len) x \<longrightarrow> space_access space x = None)
     \<and> space_access space' = space_access (set_access a (pages page_size len) (Some NoAccess) space)"

definition protects :: "u64 \<Rightarrow> u64 \<Rightarrow> u64 \<Rightarrow> page_access \<Rightarrow> AddressSpace \<Rightarrow> AddressSpace \<Rightarrow> bool" where
  "protects page_size a len acc space space' \<longleftrightarrow>
     space_access space' = space_access (set_access a (pages page_size len) (Some acc) space)"

section \<open>Regions\<close>

text \<open>A region: its base, its number of bytes and the access at every offset.\<close>

type_synonym mem_region = "u64 \<times> nat \<times> (nat \<Rightarrow> page_access)"

definition region_is :: "AddressSpace \<Rightarrow> mem_region \<Rightarrow> bool" where
  "region_is space r \<longleftrightarrow>
     (case r of (a, n, f) \<Rightarrow> unat a + n \<le> 2 ^ 64
        \<and> (\<forall>x. in_range a n x \<longrightarrow> space_access space x = Some (f (unat x - unat a))))"

definition apart :: "mem_region \<Rightarrow> mem_region \<Rightarrow> bool" where
  "apart r r' \<longleftrightarrow> (case (r, r') of ((a, n, _), (b, m, _)) \<Rightarrow> n = 0 \<or> m = 0 \<or> unat a + n \<le> unat b \<or> unat b + m \<le> unat a)"

definition regions_ok :: "AddressSpace \<Rightarrow> mem_region list \<Rightarrow> bool" where
  "regions_ok space rs \<longleftrightarrow> (\<forall>r\<in>set rs. region_is space r) \<and> sorted_wrt apart rs"

text \<open>The access of \<open>f\<close>, with the offsets from \<open>k\<close> on replaced.\<close>

definition override :: "nat \<Rightarrow> nat \<Rightarrow> page_access \<Rightarrow> (nat \<Rightarrow> page_access) \<Rightarrow> nat \<Rightarrow> page_access" where
  "override k n acc f i = (if k \<le> i \<and> i < k + n then acc else f i)"

lemma override_eq [simp]: "k \<le> i \<Longrightarrow> i < k + n \<Longrightarrow> override k n acc f i = acc"
  "i < k \<Longrightarrow> override k n acc f i = f i" "k + n \<le> i \<Longrightarrow> override k n acc f i = f i"
  by (auto simp: override_def)

lemma apart_sym: "apart r r' \<Longrightarrow> apart r' r"
  by (auto simp: apart_def split: prod.splits)

lemma apart_disjoint: "apart (a, n, f) (b, m, g) \<Longrightarrow> in_range a n x \<Longrightarrow> \<not> in_range b m x"
  by (auto simp: apart_def in_range_def)

lemma region_is_at: "region_is space (a, n, f) \<Longrightarrow> i < n \<Longrightarrow> space_access space (a + word_of_nat i) = Some (f i)"
  using unat_add_nat[of a i] by (auto simp: region_is_def in_range_def)

lemma region_is_access: "space_access space' = space_access space \<Longrightarrow> region_is space' r = region_is space r"
  by (simp add: region_is_def)

lemma regions_ok_access: "space_access space' = space_access space \<Longrightarrow> regions_ok space' rs = regions_ok space rs"
  using region_is_access[of space' space] by (simp only: regions_ok_def)

lemma reserve_apart:
  assumes "reserves page_size a len space space'" "region_is space (b, m, g)"
  shows "apart (b, m, g) (a, pages page_size len, f)"
proof (rule ccontr)
  let ?n = "pages page_size len"
  assume "\<not> apart (b, m, g) (a, ?n, f)"
  then have o: "0 < ?n" "0 < m" "unat a < unat b + m" "unat b < unat a + ?n" by (auto simp: apart_def)
  then have "\<exists>x. in_range a ?n x \<and> in_range b m x"
    by (intro exI[of _ "max a b"]) (auto simp: in_range_def max_def word_le_nat_alt)
  then show False using assms by (auto simp: reserves_def region_is_def)
qed

lemma reserve_region:
  assumes "regions_ok space rs" "reserves page_size a len space space'"
  shows "regions_ok space' (rs @ [(a, pages page_size len, \<lambda>_. NoAccess)])"
proof -
  have keep: "region_is space' r" if "r \<in> set rs" for r
  proof -
    have "region_is space r" using assms(1) that by (simp add: regions_ok_def)
    then show ?thesis using assms(2)
      by (auto simp: reserves_def region_is_def set_access_def split: prod.splits)
  qed
  moreover have "region_is space' (a, pages page_size len, \<lambda>_. NoAccess)"
    using assms(2) by (simp add: reserves_def region_is_def set_access_def)
  moreover have "apart r (a, pages page_size len, \<lambda>_. NoAccess)" if "r \<in> set rs" for r
    using reserve_apart[OF assms(2)] assms(1) that by (cases r) (auto simp: regions_ok_def)
  ultimately show ?thesis using assms(1) by (auto simp: regions_ok_def sorted_wrt_append)
qed

lemma apart_access: "apart (a, n, f) r = apart (a, n, f') r" "apart r (a, n, f) = apart r (a, n, f')"
  by (auto simp: apart_def split: prod.splits)

lemma apart_update:
  assumes "sorted_wrt apart rs" "j < length rs" "rs ! j = (a, n, f)"
  shows "sorted_wrt apart (rs[j := (a, n, f')])"
  unfolding sorted_wrt_iff_nth_less
proof (intro allI impI)
  fix i k
  assume "i < k" "k < length (rs[j := (a, n, f')])"
  moreover from this have "apart (rs ! i) (rs ! k)" using assms(1) by (simp add: sorted_wrt_iff_nth_less)
  ultimately show "apart (rs[j := (a, n, f')] ! i) (rs[j := (a, n, f')] ! k)"
    using assms(2,3) apart_access(1)[of a n f "rs ! k" f'] apart_access(2)[of "rs ! i" a n f f'] by (auto simp: nth_list_update)
qed

lemma apart_nth:
  assumes "sorted_wrt apart rs" "i < length rs" "j < length rs" "i \<noteq> j"
  shows "apart (rs ! i) (rs ! j)"
  using assms apart_sym by (cases "i < j") (auto simp: sorted_wrt_iff_nth_less)

text \<open>A change of protection inside a region, seen from this region and from the others.\<close>

lemma part_range:
  assumes "region_is space (a, n, f)" "k + m \<le> n" "0 < m"
  shows "in_range (a + word_of_nat k) m x \<longleftrightarrow> in_range a n x \<and> k \<le> unat x - unat a \<and> unat x - unat a < k + m"
proof -
  have "unat (a + word_of_nat k) = unat a + k"
    using assms by (intro unat_add_nat) (simp add: region_is_def)
  then show ?thesis using assms(2,3) by (auto simp: in_range_def)
qed

lemma protect_own:
  assumes "region_is space (a, n, f)" "protects page_size (a + word_of_nat k) len acc space space'"
    "k + pages page_size len \<le> n" "0 < pages page_size len"
  shows "region_is space' (a, n, override k (pages page_size len) acc f)"
  using assms(1,2) part_range[OF assms(1,3,4)]
  by (simp add: region_is_def protects_def set_access_def override_def)

lemma protect_other:
  assumes "region_is space (b, m, g)" "region_is space (a, n, f)" "apart (b, m, g) (a, n, f)"
    "protects page_size (a + word_of_nat k) len acc space space'" "k + pages page_size len \<le> n" "0 < pages page_size len"
  shows "region_is space' (b, m, g)"
  using assms(1,4) part_range[OF assms(2,5,6)] apart_disjoint[OF assms(3)]
  by (auto simp: region_is_def protects_def set_access_def)

lemma protect_region:
  assumes "regions_ok space rs" "j < length rs" "rs ! j = (a, n, f)"
    and "protects page_size (a + word_of_nat k) len acc space space'" "k + pages page_size len \<le> n"
  shows "regions_ok space' (rs[j := (a, n, override k (pages page_size len) acc f)])"
proof (cases "pages page_size len = 0")
  case True
  then have "space_access space' = space_access space" "override k (pages page_size len) acc f = f"
    using assms(4) by (auto simp: protects_def set_access_def in_range_def override_def fun_eq_iff)
  then show ?thesis using assms(1-3) regions_ok_access by (metis list_update_id)
next
  case False
  have r: "region_is space (a, n, f)" using assms(1-3) by (metis nth_mem regions_ok_def)
  have "region_is space' (rs[j := (a, n, override k (pages page_size len) acc f)] ! i)" if i: "i < length rs" for i
  proof (cases "i = j")
    case True
    then show ?thesis using protect_own[OF r assms(4,5)] assms(2) False by simp
  next
    case other: False
    obtain b m g where b: "rs ! i = (b, m, g)" by (cases "rs ! i")
    then have "region_is space (b, m, g)" "apart (b, m, g) (a, n, f)"
      using assms(1-3) i apart_nth[of rs i j] other nth_mem[OF i] by (auto simp: regions_ok_def)
    then show ?thesis using protect_other[OF _ r _ assms(4,5)] other b False by simp
  qed
  then have "\<forall>r\<in>set (rs[j := (a, n, override k (pages page_size len) acc f)]). region_is space' r"
    by (intro ballI all_nth_imp_all_set[where P = "region_is space'"]) simp_all
  then show ?thesis using assms(1-3) apart_update[of rs j a n f] by (simp add: regions_ok_def)
qed

lemma memcpy_access: "memcpy a bytes space = Some space' \<Longrightarrow> space_access space' = space_access space"
  by (auto simp: memcpy_def split: if_splits)

lemma memcpy_bytes:
  assumes "memcpy a bytes space = Some space'" "i < length bytes" "unat a + length bytes \<le> 2 ^ 64"
  shows "space_byte space' (a + word_of_nat i) = bytes ! i"
  using assms unat_add_nat[of a i] by (auto simp: memcpy_def in_range_def split: if_splits)

lemma memcpy_region:
  assumes "region_is space (a, n, f)" "k + length bytes \<le> n" "\<And>i. i < length bytes \<Longrightarrow> f (k + i) = ReadWriteAccess"
  obtains space' where "memcpy (a + word_of_nat k) bytes space = Some space'"
proof -
  have "space_access space (a + word_of_nat k + word_of_nat i) = Some ReadWriteAccess" if "i < length bytes" for i
    using region_is_at[OF assms(1), of "k + i"] assms(2,3) that by (simp add: add.assoc)
  then show thesis using that by (simp add: memcpy_def)
qed

section \<open>Sizes\<close>

lemma unat_page: "k \<le> 16 \<Longrightarrow> unat (2 ^ k :: u64) = 2 ^ k"
proof -
  assume "k \<le> 16"
  then have "(2 :: nat) ^ k < 2 ^ LENGTH(64)" by (intro power_strict_increasing) simp_all
  then show ?thesis using unat_word_of_nat[of "2 ^ k", where 'a = 64] by simp
qed

lemma pages_aligned:
  assumes "k \<le> 16" "2 ^ k dvd unat len"
  shows "pages (2 ^ k) len = unat len"
proof -
  obtain q where q: "unat len = 2 ^ k * q" using assms(2) by blast
  have "(p * q + p - 1) div p = q" if "0 < p" for p :: nat using that by (intro div_nat_eqI) auto
  then show ?thesis using q by (simp add: pages_def unat_page[OF assms(1)])
qed

text \<open>A region of whole pages with \<open>g\<close> guard pages.\<close>

lemma pages_guarded:
  assumes "k \<le> 16" "2 ^ k dvd unat len" "unat len + g * 2 ^ k < 2 ^ 64"
  shows "pages (2 ^ k) (len + word_of_nat (g * 2 ^ k)) = unat len + g * 2 ^ k"
  using assms pages_aligned[of k "len + word_of_nat (g * 2 ^ k)"] unat_add_nat[of len "g * 2 ^ k"] by simp

lemma scratch_sizes [simp]: "unat SCRATCH_STACK_BYTES = 0x10000" "unat SCRATCH_DATA_BYTES = 0x10000" "unat SCRATCH_STACK_HEADROOM = 0x100"
  by (simp_all add: SCRATCH_STACK_BYTES_def SCRATCH_DATA_BYTES_def SCRATCH_STACK_HEADROOM_def)

lemma page_dvd_scratch: "k \<le> 16 \<Longrightarrow> 2 ^ k dvd (0x10000 :: nat)"
  using le_imp_power_dvd[of k 16 "2 :: nat"] by simp

section \<open>The interface\<close>

text \<open>
  What a platform promises of its memory calls, for pages of \<open>2 ^ k\<close> and an allocation granularity of \<open>2 ^ g\<close>
  bytes: a reservation that does not answer the null pointer took free pages, at the address asked for if
  one was given on the granularity, and commit and protect change the pages they are called for.
\<close>

locale vm =
  fixes k g :: nat
    and alloc :: "u64 \<Rightarrow> AddressSpace \<Rightarrow> u64 \<times> AddressSpace"
    and alloc_at :: "u64 \<Rightarrow> u64 \<Rightarrow> AddressSpace \<Rightarrow> u64 \<times> AddressSpace"
    and commit :: "u64 \<Rightarrow> u64 \<Rightarrow> VMProtection \<Rightarrow> AddressSpace \<Rightarrow> bool \<times> AddressSpace"
    and protect :: "u64 \<Rightarrow> u64 \<Rightarrow> VMProtection \<Rightarrow> AddressSpace \<Rightarrow> bool \<times> AddressSpace"
  assumes page_exponent: "k \<le> 16"
    and alloc_reserves: "alloc len space = (a, space') \<Longrightarrow> a \<noteq> 0 \<Longrightarrow> reserves (2 ^ k) a len space space'"
    and alloc_at_reserves: "alloc_at b len space = (a, space') \<Longrightarrow> a \<noteq> 0 \<Longrightarrow> b \<noteq> 0 \<Longrightarrow> 2 ^ g dvd unat b \<Longrightarrow>
      a = b \<and> reserves (2 ^ k) a len space space'"
    and commit_protects: "page_aligned (2 ^ k) a \<Longrightarrow> commit a len prot space = (True, space') \<Longrightarrow>
      protects (2 ^ k) a len (native_protection prot) space space'"
    and protect_protects: "page_aligned (2 ^ k) a \<Longrightarrow> protect a len prot space = (True, space') \<Longrightarrow>
      protects (2 ^ k) a len (native_protection prot) space space' \<and> space_byte space' = space_byte space"
begin

lemma page_aligned_add:
  assumes "page_aligned (2 ^ k) a" "2 ^ k dvd i"
  shows "page_aligned (2 ^ k) (a + word_of_nat i)"
proof -
  have "unat (a + word_of_nat i) = (unat a + i) mod 2 ^ 64"
  proof -
    have "a + word_of_nat i = word_of_nat (unat a + i)" by simp
    then show ?thesis by (simp only: unsigned_of_nat take_bit_eq_mod) simp
  qed
  moreover have "(2 :: nat) ^ k dvd 2 ^ 64" using page_exponent by (intro le_imp_power_dvd) simp
  ultimately show ?thesis
    using assms by (simp add: page_aligned_def unat_page[OF page_exponent] dvd_mod)
qed

lemma reserve_next:
  assumes "regions_ok space rs" "reserves (2 ^ k) a (len + guards) space space'" "guards = word_of_nat (m * 2 ^ k)"
    "2 ^ k dvd unat len" "unat len + m * 2 ^ k < 2 ^ 64"
  shows "regions_ok space' (rs @ [(a, unat len + m * 2 ^ k, \<lambda>_. NoAccess)])" "page_aligned (2 ^ k) a"
  using reserve_region[OF assms(1,2)] assms(2,3) pages_guarded[OF page_exponent assms(4,5)] by (simp_all add: reserves_def)

lemma commit_region:
  assumes "regions_ok space rs" "j < length rs" "rs ! j = (a, n, f)" "page_aligned (2 ^ k) a" "2 ^ k dvd i" "2 ^ k dvd unat len"
    "i + unat len \<le> n" "commit (a + word_of_nat i) len prot space = (True, space')"
  shows "regions_ok space' (rs[j := (a, n, override i (unat len) (native_protection prot) f)])"
  using protect_region[OF assms(1-3) commit_protects[OF page_aligned_add[OF assms(4,5)] assms(8)]] assms(7)
  by (simp add: pages_aligned[OF page_exponent assms(6)])

end

text \<open>
  The layout of a sandbox: the code can be read and executed but not written, holds the bytes of the input
  and ends at a guard page; stack and data can be read and written and lie between two guard pages.
\<close>

definition access_from :: "AddressSpace \<Rightarrow> nat \<Rightarrow> nat \<Rightarrow> page_access \<Rightarrow> bool" where
  "access_from space first n acc \<longleftrightarrow> (\<forall>x. first \<le> unat x \<and> unat x < first + n \<longrightarrow> space_access space x = Some acc)"

definition sandbox_layout :: "nat \<Rightarrow> u8 list \<Rightarrow> u64 \<Rightarrow> u64 \<Rightarrow> u64 \<Rightarrow> AddressSpace \<Rightarrow> bool" where
  "sandbox_layout page code code_base initial_rsp data_base space \<longleftrightarrow>
     unat code_base + length code + page \<le> 2 ^ 64
     \<and> access_from space (unat code_base) (length code) ExecuteReadAccess
     \<and> (\<forall>i<length code. space_byte space (code_base + word_of_nat i) = code ! i)
     \<and> access_from space (unat code_base + length code) page NoAccess
     \<and> 16 dvd unat initial_rsp \<and> 0xFF00 + page \<le> unat initial_rsp \<and> unat initial_rsp + 0x100 + page \<le> 2 ^ 64
     \<and> access_from space (unat initial_rsp - 0xFF00 - page) page NoAccess
     \<and> access_from space (unat initial_rsp - 0xFF00) 0x10000 ReadWriteAccess
     \<and> access_from space (unat initial_rsp + 0x100) page NoAccess
     \<and> page \<le> unat data_base \<and> unat data_base + 0x10000 + page \<le> 2 ^ 64
     \<and> access_from space (unat data_base - page) page NoAccess
     \<and> access_from space (unat data_base) 0x10000 ReadWriteAccess
     \<and> access_from space (unat data_base + 0x10000) page NoAccess"

lemma region_access_from:
  assumes "region_is space (a, n, f)" "unat a \<le> first" "first + m \<le> unat a + n" "\<And>i. first - unat a \<le> i \<Longrightarrow> i < first - unat a + m \<Longrightarrow> f i = acc"
  shows "access_from space first m acc"
  unfolding access_from_def
proof (intro allI impI)
  fix x :: u64
  assume "first \<le> unat x \<and> unat x < first + m"
  then have "in_range a n x" "f (unat x - unat a) = acc" using assms(2-4) by (auto simp: in_range_def)
  then show "space_access space x = Some acc" using assms(1) by (auto simp: region_is_def)
qed

text \<open>A region between guard pages, with its first usable byte at \<open>base\<close>.\<close>

lemma guarded_region:
  assumes "region_is space (a, n + 2 * page, override page n acc (\<lambda>_. NoAccess))"
  shows "access_from space (unat a) page NoAccess" "access_from space (unat a + page) n acc"
    "access_from space (unat a + page + n) page NoAccess"
  by (rule region_access_from[OF assms]; simp add: override_def)+

context vm begin

text \<open>The three reservations, beside a region that was there before.\<close>

lemma reserve_sandbox:
  assumes "region_is s0 z" "2 ^ k dvd unat code_region" "unat code_region + 2 ^ k < 2 ^ 64" "base \<noteq> 0 \<and> 2 ^ g dvd unat base"
    and "alloc (code_region + 2 ^ k) s0 = (buffer, s1)" "alloc (SCRATCH_STACK_BYTES + 2 ^ k * 2) s1 = (stack, s2)"
      "alloc_at base (SCRATCH_DATA_BYTES + 2 ^ k * 2) s2 = (data, s3)" "buffer \<noteq> 0" "stack \<noteq> 0" "data \<noteq> 0"
  shows "regions_ok s3 [z, (buffer, unat code_region + 2 ^ k, \<lambda>_. NoAccess), (stack, 0x10000 + 2 * 2 ^ k, \<lambda>_. NoAccess),
      (data, 0x10000 + 2 * 2 ^ k, \<lambda>_. NoAccess)]"
    "page_aligned (2 ^ k) buffer" "page_aligned (2 ^ k) stack" "page_aligned (2 ^ k) data" "data = base"
proof -
  have p: "(2 :: nat) ^ k \<le> 0x10000" using power_increasing[OF page_exponent, of "2 :: nat"] by simp
  have w: "(2 ^ k * 2 :: u64) = word_of_nat (2 * 2 ^ k)" "(2 ^ k :: u64) = word_of_nat (1 * 2 ^ k)" by simp_all
  have z: "regions_ok s0 [z]" using assms(1) by (simp add: regions_ok_def)
  note d = page_dvd_scratch[OF page_exponent]
  note b = reserve_next[OF z alloc_reserves[OF assms(5,8)] w(2) assms(2)]
  note s = reserve_next[OF b(1) alloc_reserves[OF assms(6,9)] w(1)]
  note dr = alloc_at_reserves[OF assms(7,10) conjunct1[OF assms(4)] conjunct2[OF assms(4)]]
  note e = reserve_next[OF s(1) conjunct2[OF dr] w(1)]
  show "regions_ok s3 [z, (buffer, unat code_region + 2 ^ k, \<lambda>_. NoAccess), (stack, 0x10000 + 2 * 2 ^ k, \<lambda>_. NoAccess),
      (data, 0x10000 + 2 * 2 ^ k, \<lambda>_. NoAccess)]"
    "page_aligned (2 ^ k) buffer" "page_aligned (2 ^ k) stack" "page_aligned (2 ^ k) data" "data = base"
    using e b(2) s(2) dr assms(3) d p by simp_all
qed

text \<open>The three commits; \<open>rs\<close> are further regions.\<close>

lemma commit_sandbox:
  assumes "regions_ok s0 (z # (buffer, unat code_region + 2 ^ k, \<lambda>_. NoAccess) # (stack, 0x10000 + 2 * 2 ^ k, \<lambda>_. NoAccess)
      # (data, 0x10000 + 2 * 2 ^ k, \<lambda>_. NoAccess) # rs)"
    and "page_aligned (2 ^ k) buffer" "page_aligned (2 ^ k) stack" "page_aligned (2 ^ k) data" "2 ^ k dvd unat code_region"
    and "commit buffer code_region ReadWrite s0 = (True, s1)"
      "commit (stack + 2 ^ k) SCRATCH_STACK_BYTES ReadWrite s1 = (True, s2)"
      "commit (data + 2 ^ k) SCRATCH_DATA_BYTES ReadWrite s2 = (True, s3)"
  shows "regions_ok s3 (z # (buffer, unat code_region + 2 ^ k, override 0 (unat code_region) ReadWriteAccess (\<lambda>_. NoAccess))
      # (stack, 0x10000 + 2 * 2 ^ k, override (2 ^ k) 0x10000 ReadWriteAccess (\<lambda>_. NoAccess))
      # (data, 0x10000 + 2 * 2 ^ k, override (2 ^ k) 0x10000 ReadWriteAccess (\<lambda>_. NoAccess)) # rs)"
proof -
  note d = page_dvd_scratch[OF page_exponent]
  have "regions_ok s1 (z # (buffer, unat code_region + 2 ^ k, override 0 (unat code_region) ReadWriteAccess (\<lambda>_. NoAccess))
      # (stack, 0x10000 + 2 * 2 ^ k, \<lambda>_. NoAccess) # (data, 0x10000 + 2 * 2 ^ k, \<lambda>_. NoAccess) # rs)"
    using commit_region[OF assms(1), of 1 buffer "unat code_region + 2 ^ k" _ 0 code_region ReadWrite s1] assms(2,5,6) by simp
  from commit_region[OF this, of 2 stack "0x10000 + 2 * 2 ^ k" _ "2 ^ k" SCRATCH_STACK_BYTES ReadWrite s2]
  have "regions_ok s2 (z # (buffer, unat code_region + 2 ^ k, override 0 (unat code_region) ReadWriteAccess (\<lambda>_. NoAccess))
      # (stack, 0x10000 + 2 * 2 ^ k, override (2 ^ k) 0x10000 ReadWriteAccess (\<lambda>_. NoAccess))
      # (data, 0x10000 + 2 * 2 ^ k, \<lambda>_. NoAccess) # rs)"
    using assms(3,7) d by simp
  from commit_region[OF this, of 3 data "0x10000 + 2 * 2 ^ k" _ "2 ^ k" SCRATCH_DATA_BYTES ReadWrite s3] show ?thesis
    using assms(4,8) d by simp
qed

text \<open>Copying the code in and making it executable.\<close>

lemma load_sandbox:
  assumes "regions_ok s0 (z # (buffer, unat code_region + 2 ^ k, override 0 (unat code_region) ReadWriteAccess (\<lambda>_. NoAccess)) # rs)"
    and "page_aligned (2 ^ k) buffer" "2 ^ k dvd unat code_region" "length code \<le> unat code_region"
  obtains s1 where "memcpy (buffer + word_of_nat (unat code_region - length code)) code s0 = Some s1"
    and "\<And>s2. protect buffer code_region ExecuteRead s1 = (True, s2) \<Longrightarrow>
      regions_ok s2 (z # (buffer, unat code_region + 2 ^ k, override 0 (unat code_region) ExecuteReadAccess (\<lambda>_. NoAccess)) # rs)
      \<and> (\<forall>i<length code. space_byte s2 (buffer + word_of_nat (unat code_region - length code) + word_of_nat i) = code ! i)"
proof -
  let ?start = "unat code_region - length code"
  have r: "region_is s0 (buffer, unat code_region + 2 ^ k, override 0 (unat code_region) ReadWriteAccess (\<lambda>_. NoAccess))"
    using assms(1) by (simp add: regions_ok_def)
  then obtain s1 where copy: "memcpy (buffer + word_of_nat ?start) code s0 = Some s1"
    using memcpy_region[OF r, of ?start code] assms(4) by auto
  then have ok: "regions_ok s1 (z # (buffer, unat code_region + 2 ^ k, override 0 (unat code_region) ReadWriteAccess (\<lambda>_. NoAccess)) # rs)"
    using assms(1) regions_ok_access[OF memcpy_access] by blast
  have base: "unat (buffer + word_of_nat ?start) = unat buffer + ?start"
  proof (rule unat_add_nat)
    have "0 < (2 :: nat) ^ k" "unat buffer + (unat code_region + 2 ^ k) \<le> 2 ^ 64" using r by (simp_all add: region_is_def)
    then have "unat buffer + ?start < 2 ^ 64" by linarith
    then show "unat buffer + ?start < 2 ^ LENGTH(64)" by simp
  qed
  have bytes: "\<forall>i<length code. space_byte s1 (buffer + word_of_nat ?start + word_of_nat i) = code ! i"
    using memcpy_bytes[OF copy] base assms(4) r by (simp add: region_is_def)
  have twice: "override 0 n acc (override 0 n acc' f) = override 0 n acc f" for n acc acc' f
    by (auto simp: override_def)
  show thesis
  proof (rule that[OF copy], intro conjI)
    fix s2
    assume "protect buffer code_region ExecuteRead s1 = (True, s2)"
    then have s2: "protects (2 ^ k) buffer code_region ExecuteReadAccess s1 s2" "space_byte s2 = space_byte s1"
      using protect_protects[OF assms(2)] by force+
    show "regions_ok s2 (z # (buffer, unat code_region + 2 ^ k, override 0 (unat code_region) ExecuteReadAccess (\<lambda>_. NoAccess)) # rs)"
      using protect_region[OF ok, of 1 buffer "unat code_region + 2 ^ k" _ "2 ^ k" 0 code_region ExecuteReadAccess s2] s2(1)
      by (simp add: pages_aligned[OF page_exponent assms(3)] twice)
    show "\<forall>i<length code. space_byte s2 (buffer + word_of_nat ?start + word_of_nat i) = code ! i"
      using bytes s2(2) by simp
  qed
qed

end

text \<open>The code pages, and where the code starts in them.\<close>

lemma code_region_facts:
  assumes "k \<le> 16" "length code < 2 ^ 63"
  defines "code_region \<equiv> page_round (word_of_nat (length code)) (2 ^ k)"
  shows "2 ^ k dvd unat code_region" "unat code_region + 2 ^ k < 2 ^ 64" "length code \<le> unat code_region"
    "code_base_of buffer (word_of_nat (length code)) (2 ^ k) = buffer + word_of_nat (unat code_region - length code)"
proof -
  have p: "(2 :: nat) ^ k \<le> 0x10000" using power_increasing[OF assms(1), of "2 :: nat"] by simp
  have len: "unat (word_of_nat (length code) :: u64) = length code" using assms(2) by (intro unat_word_of_nat) simp
  note b = page_round_bounds[of k "word_of_nat (length code)", unfolded len]
  show "2 ^ k dvd unat code_region" "unat code_region + 2 ^ k < 2 ^ 64" "length code \<le> unat code_region"
    using b p assms(1,2) by (simp_all add: code_region_def)
  then show "code_base_of buffer (word_of_nat (length code)) (2 ^ k) = buffer + word_of_nat (unat code_region - length code)"
    by (simp add: code_base_of_def code_region_def of_nat_diff add_diff_eq)
qed

text \<open>The base of the reservation for data is on the granularity.\<close>

lemma reserve_base_granular:
  assumes "g \<le> 16"
  shows "scratch_reserve_base (2 ^ g) \<noteq> 0 \<and> 2 ^ g dvd unat (scratch_reserve_base (2 ^ g))"
proof -
  have "(2 :: nat) ^ g dvd 2 ^ 28" using assms by (intro le_imp_power_dvd) simp
  then have "unat (scratch_reserve_base (2 ^ g)) = 0x10000000"
    using assms by (simp add: scratch_reserve_base_def power_mask unat_and_not_mask SCRATCH_DATA_RESERVE_BASE_def dvd_imp_mod_0)
  then show ?thesis using \<open>2 ^ g dvd 2 ^ 28\<close> by auto
qed

text \<open>The regions at the end of the setup are a sandbox.\<close>

lemma layout_of_regions:
  assumes "regions_ok space (z # (buffer, unat code_region + page, override 0 (unat code_region) ExecuteReadAccess (\<lambda>_. NoAccess))
      # (stack, 0x10000 + 2 * page, override page 0x10000 ReadWriteAccess (\<lambda>_. NoAccess))
      # (data, 0x10000 + 2 * page, override page 0x10000 ReadWriteAccess (\<lambda>_. NoAccess)) # rs)"
    and "unat page_size = page" "16 dvd page" "0 < page" "16 dvd unat stack"
    and "unat code_base + length code = unat buffer + unat code_region" "unat buffer \<le> unat code_base"
    and "\<forall>i<length code. space_byte space (code_base + word_of_nat i) = code ! i"
  shows "sandbox_layout page code code_base (initial_rsp_of stack page_size) (data + page_size) space"
proof -
  have r: "region_is space (buffer, unat code_region + page, override 0 (unat code_region) ExecuteReadAccess (\<lambda>_. NoAccess))"
    "region_is space (stack, 0x10000 + 2 * page, override page 0x10000 ReadWriteAccess (\<lambda>_. NoAccess))"
    "region_is space (data, 0x10000 + 2 * page, override page 0x10000 ReadWriteAccess (\<lambda>_. NoAccess))"
    using assms(1) by (simp_all add: regions_ok_def)
  then have top: "unat stack + (0x10000 + 2 * page) \<le> 2 ^ 64" "unat data + (0x10000 + 2 * page) \<le> 2 ^ 64"
    "unat buffer + (unat code_region + page) \<le> 2 ^ 64"
    by (simp_all add: region_is_def)
  have rsp: "unat (initial_rsp_of stack page_size) = unat stack + page + 0xFF00"
  proof -
    have "16 dvd unat stack + page + 0xFF00" using assms(3,5) by simp
    then show ?thesis using unat_initial_rsp[of stack page_size] top(1) assms(2,4) by (simp add: Let_def)
  qed
  have data: "unat (data + page_size) = unat data + page"
  proof -
    have "unat data + page < 2 ^ LENGTH(64)" "page_size = word_of_nat page" using top(2) assms(2,4) by auto
    then show ?thesis using unat_add_nat[of data page] by simp
  qed
  note s = guarded_region[OF r(2)] and d = guarded_region[OF r(3)]
  have code: "access_from space (unat code_base) (length code) ExecuteReadAccess"
    "access_from space (unat code_base + length code) page NoAccess"
    using assms(6,7) by (intro region_access_from[OF r(1)]; simp add: override_def)+
  have "16 dvd unat stack + page + 0xFF00" using assms(3,5) by simp
  then show ?thesis
    using code s d assms(6,8) top by (simp add: sandbox_layout_def rsp data add.commute add.left_commute)
qed

lemma sandbox_of_regions:
  assumes "4 \<le> k" "k \<le> 16"
    and ok: "regions_ok space (z # (buffer, unat code_region + 2 ^ k, override 0 (unat code_region) ExecuteReadAccess (\<lambda>_. NoAccess))
      # (stack, 0x10000 + 2 * 2 ^ k, override (2 ^ k) 0x10000 ReadWriteAccess (\<lambda>_. NoAccess))
      # (data, 0x10000 + 2 * 2 ^ k, override (2 ^ k) 0x10000 ReadWriteAccess (\<lambda>_. NoAccess)) # rs)"
    and cr: "2 ^ k dvd unat code_region" "unat code_region + 2 ^ k < 2 ^ 64" "length code \<le> unat code_region"
    and "page_aligned (2 ^ k) stack" "code_base = buffer + word_of_nat (unat code_region - length code)"
    and "\<forall>i<length code. space_byte space (code_base + word_of_nat i) = code ! i"
  shows "sandbox_layout (2 ^ k) code code_base (initial_rsp_of stack (2 ^ k)) (data + 2 ^ k) space \<and> region_is space z"
proof
  have page: "16 dvd (2 :: nat) ^ k" using le_imp_power_dvd[OF assms(1), of "2 :: nat"] by simp
  have "unat buffer + (unat code_region + 2 ^ k) \<le> 2 ^ 64" using ok by (simp add: regions_ok_def region_is_def)
  moreover have "0 < (2 :: nat) ^ k" by simp
  ultimately have "unat buffer + (unat code_region - length code) < 2 ^ 64" using cr(3) by linarith
  then have "unat buffer + (unat code_region - length code) < 2 ^ LENGTH(64)" by simp
  then have base: "unat code_base = unat buffer + (unat code_region - length code)"
    unfolding assms(8) by (rule unat_add_nat)
  show "sandbox_layout (2 ^ k) code code_base (initial_rsp_of stack (2 ^ k)) (data + 2 ^ k) space"
    by (rule layout_of_regions[OF ok unat_page[OF assms(2)] page])
      (use assms(7,9) page base cr(3) in \<open>auto simp: page_aligned_def unat_page[OF assms(2)] dest: dvd_trans\<close>)
  show "region_is space z" using ok by (simp add: regions_ok_def)
qed

context vm begin

lemma sandbox_ready:
  assumes "4 \<le> k" "length code < 2 ^ 63" "page_aligned (2 ^ k) buffer" "page_aligned (2 ^ k) stack"
  defines "code_region \<equiv> page_round (word_of_nat (length code)) (2 ^ k)"
    and "code_base \<equiv> code_base_of buffer (word_of_nat (length code)) (2 ^ k)"
  assumes "regions_ok s0 (z # (buffer, unat code_region + 2 ^ k, override 0 (unat code_region) ReadWriteAccess (\<lambda>_. NoAccess))
      # (stack, 0x10000 + 2 * 2 ^ k, override (2 ^ k) 0x10000 ReadWriteAccess (\<lambda>_. NoAccess))
      # (data, 0x10000 + 2 * 2 ^ k, override (2 ^ k) 0x10000 ReadWriteAccess (\<lambda>_. NoAccess)) # rs)"
  obtains s1 where "memcpy code_base code s0 = Some s1"
    and "\<And>s2. protect buffer code_region ExecuteRead s1 = (True, s2) \<Longrightarrow>
      sandbox_layout (2 ^ k) code code_base (initial_rsp_of stack (2 ^ k)) (data + 2 ^ k) s2 \<and> region_is s2 z"
proof -
  note cr = code_region_facts[OF page_exponent assms(2), folded code_region_def]
  have base: "code_base = buffer + word_of_nat (unat code_region - length code)"
    unfolding code_base_def by (rule cr(4))
  obtain s1 where s1: "memcpy code_base code s0 = Some s1"
    and final: "\<And>s2. protect buffer code_region ExecuteRead s1 = (True, s2) \<Longrightarrow>
      regions_ok s2 (z # (buffer, unat code_region + 2 ^ k, override 0 (unat code_region) ExecuteReadAccess (\<lambda>_. NoAccess))
        # (stack, 0x10000 + 2 * 2 ^ k, override (2 ^ k) 0x10000 ReadWriteAccess (\<lambda>_. NoAccess))
        # (data, 0x10000 + 2 * 2 ^ k, override (2 ^ k) 0x10000 ReadWriteAccess (\<lambda>_. NoAccess)) # rs)
      \<and> (\<forall>i<length code. space_byte s2 (code_base + word_of_nat i) = code ! i)"
    using load_sandbox[OF assms(7,3) cr(1,3)] unfolding base by metis
  show thesis
  proof (rule that[OF s1])
    fix s2
    assume "protect buffer code_region ExecuteRead s1 = (True, s2)"
    note f = final[OF this]
    show "sandbox_layout (2 ^ k) code code_base (initial_rsp_of stack (2 ^ k)) (data + 2 ^ k) s2 \<and> region_is s2 z"
      by (rule sandbox_of_regions[OF assms(1) page_exponent conjunct1[OF f] cr(1-3) assms(4) base conjunct2[OF f]])
  qed
qed

end

section \<open>Address names\<close>

text \<open>How the memory at a named address may be accessed, going by the name alone.\<close>

fun named_access :: "AddressValue \<Rightarrow> page_access option" where
  "named_access (Absolute a) = None"
| "named_access (Above r d Inside) = Some (if r = CodeRegion then ExecuteReadAccess else ReadWriteAccess)"
| "named_access (Below r d Inside) = Some (if r = CodeRegion then ExecuteReadAccess else ReadWriteAccess)"
| "named_access (Above r d _) = Some NoAccess"
| "named_access (Below r d _) = Some NoAccess"

lemma access_fromD: "access_from space first n acc \<Longrightarrow> first \<le> unat x \<Longrightarrow> unat x < first + n \<Longrightarrow> space_access space x = Some acc"
  by (simp add: access_from_def)

lemma unat_add_le: "unat (x + y :: u64) \<le> unat x + unat y"
  by (simp add: unat_word_ariths)

lemma code_name:
  assumes "code_address trace page_size address = Some v" "named_access v = Some acc"
    and "access_from space (unat (reg_get (trace_seed trace) RIP)) (length (trace_code trace)) ExecuteReadAccess"
      "access_from space (unat (reg_get (trace_seed trace) RIP) + length (trace_code trace)) (unat page_size) NoAccess"
    and "length (trace_code trace) < 2 ^ 64" "0 < unat page_size"
  shows "space_access space address = Some acc"
proof -
  let ?base = "reg_get (trace_seed trace) RIP" and ?size = "word_of_nat (length (trace_code trace)) :: u64"
  have len: "unat ?size = length (trace_code trace)" using assms(5) by (intro unat_word_of_nat) simp
  have le: "?base \<le> address" using assms(1) by (auto simp: code_address_def Let_def split: if_splits)
  then have off: "unat (address - ?base) = unat address - unat ?base" "unat ?base \<le> unat address"
    by (simp_all add: unat_diff word_le_nat_alt)
  consider "unat address - unat ?base < length (trace_code trace)" "acc = ExecuteReadAccess"
    | "length (trace_code trace) \<le> unat address - unat ?base" "unat address - unat ?base < length (trace_code trace) + unat page_size" "acc = NoAccess"
    using assms(1,2,6) unat_add_le[of ?size page_size]
    by (auto simp: code_address_def Let_def word_less_nat_alt off len word_unat_eq_iff split: if_splits)
  then show ?thesis
    using off(2) access_fromD[OF assms(3), of address] access_fromD[OF assms(4), of address] by cases simp_all
qed

lemma stack_name:
  assumes "stack_address trace page_size address = Some v" "named_access v = Some acc"
    and "access_from space (unat (reg_get (trace_seed trace) RSP) - 0xFF00 - unat page_size) (unat page_size) NoAccess"
      "access_from space (unat (reg_get (trace_seed trace) RSP) - 0xFF00) 0x10000 ReadWriteAccess"
      "access_from space (unat (reg_get (trace_seed trace) RSP) + 0x100) (unat page_size) NoAccess"
    and "0xFF00 + unat page_size \<le> unat (reg_get (trace_seed trace) RSP)" "0 < unat page_size"
  shows "space_access space address = Some acc"
proof -
  let ?rsp = "reg_get (trace_seed trace) RSP"
  have head: "unat (SCRATCH_STACK_BYTES - SCRATCH_STACK_HEADROOM) = 0xFF00"
    by (simp add: SCRATCH_STACK_BYTES_def SCRATCH_STACK_HEADROOM_def)
  have off: "?rsp \<le> address \<Longrightarrow> unat (address - ?rsp) = unat address - unat ?rsp"
    "\<not> ?rsp \<le> address \<Longrightarrow> unat (?rsp - address) = unat ?rsp - unat address"
    by (simp_all add: unat_diff)
  consider "unat ?rsp \<le> unat address + 0xFF00" "unat address < unat ?rsp + 0x100" "acc = ReadWriteAccess"
    | "unat ?rsp + 0x100 \<le> unat address" "unat address < unat ?rsp + 0x100 + unat page_size" "acc = NoAccess"
    | "unat address + 0xFF00 < unat ?rsp" "unat ?rsp \<le> unat address + 0xFF00 + unat page_size" "acc = NoAccess"
  proof (cases "?rsp \<le> address")
    case True
    then show thesis
      using assms(1,2,7) that(1,2) unat_add_le[of SCRATCH_STACK_HEADROOM page_size] off(1)[OF True]
      by (auto simp: stack_address_def Let_def word_less_nat_alt word_le_nat_alt word_unat_eq_iff split: if_splits)
  next
    case False
    then show thesis
      using assms(1,2,7) that(1,3) unat_add_le[of "SCRATCH_STACK_BYTES - SCRATCH_STACK_HEADROOM" page_size] off(2)[OF False]
      by (auto simp: stack_address_def Let_def word_less_nat_alt word_le_nat_alt head split: if_splits)
  qed
  then show ?thesis
    using assms(6) access_fromD[OF assms(3), of address] access_fromD[OF assms(4), of address] access_fromD[OF assms(5), of address]
    by cases simp_all
qed

lemma data_name:
  assumes "data_address data_base page_size address = Some v" "named_access v = Some acc"
    and "access_from space (unat data_base - unat page_size) (unat page_size) NoAccess"
      "access_from space (unat data_base) 0x10000 ReadWriteAccess"
      "access_from space (unat data_base + 0x10000) (unat page_size) NoAccess"
    and "unat page_size \<le> unat data_base" "0 < unat page_size"
  shows "space_access space address = Some acc"
proof -
  have off: "data_base \<le> address \<Longrightarrow> unat (address - data_base) = unat address - unat data_base"
    "\<not> data_base \<le> address \<Longrightarrow> unat (data_base - address) = unat data_base - unat address"
    by (simp_all add: unat_diff)
  consider "unat data_base \<le> unat address" "unat address < unat data_base + 0x10000" "acc = ReadWriteAccess"
    | "unat data_base + 0x10000 \<le> unat address" "unat address < unat data_base + 0x10000 + unat page_size" "acc = NoAccess"
    | "unat address < unat data_base" "unat data_base \<le> unat address + unat page_size" "acc = NoAccess"
  proof (cases "data_base \<le> address")
    case True
    then show thesis
      using assms(1,2,7) that(1,2) unat_add_le[of SCRATCH_DATA_BYTES page_size] off(1)[OF True]
      by (auto simp: data_address_def Let_def word_less_nat_alt word_le_nat_alt word_unat_eq_iff split: if_splits)
  next
    case False
    then show thesis
      using assms(1,2) that(3) off(2)[OF False]
      by (auto simp: data_address_def Let_def word_less_nat_alt word_le_nat_alt split: if_splits)
  qed
  then show ?thesis
    using assms(6) access_fromD[OF assms(3), of address] access_fromD[OF assms(4), of address] access_fromD[OF assms(5), of address]
    by cases simp_all
qed

text \<open>
  C40: the names of addresses tell the truth about memory. In a sandbox layout, an address that
  \<open>format_address_value\<close> shows as inside the code can be executed but not written, one inside stack or data can
  be read and written, and one that it marks as a guard or as the end of a region cannot be accessed.
\<close>

theorem region_names_true:
  assumes "sandbox_layout (unat page_size) (trace_code trace) (reg_get (trace_seed trace) RIP) (reg_get (trace_seed trace) RSP)
      (scratch_data_base granularity page_size) space"
    and "0 < unat page_size" "named_access (format_address_value granularity page_size trace address normalized) = Some acc"
  shows "space_access space address = Some acc"
proof -
  note layout = assms(1)[unfolded sandbox_layout_def]
  consider v where "code_address trace page_size address = Some v" "named_access v = Some acc"
    | v where "stack_address trace page_size address = Some v" "named_access v = Some acc"
    | v where "data_address (scratch_data_base granularity page_size) page_size address = Some v" "named_access v = Some acc"
    using assms(3) by (auto simp: format_address_value_def split: if_splits option.splits)
  then show ?thesis
  proof cases
    case 1
    then show ?thesis by (rule code_name) (use layout assms(2) in auto)
  next
    case 2
    then show ?thesis by (rule stack_name) (use layout assms(2) in auto)
  next
    case 3
    then show ?thesis by (rule data_name) (use layout assms(2) in auto)
  qed
qed

text \<open>A request with one instruction, and memory without a reservation.\<close>

definition nop_request :: PlatformRunRequest where
  "nop_request = \<lparr>req_code = [0x90], req_seed = default_registers, req_max_steps = 1, req_stop_offset = None,
     req_seed_data_pointers = False\<rparr>"

definition empty_space :: AddressSpace where
  "empty_space = \<lparr>space_access = Map.empty, space_byte = (\<lambda>_. 0)\<rparr>"

text \<open>A one-byte program in a sandbox with pages of 4096 bytes.\<close>

definition example_space :: AddressSpace where
  "example_space = foldr (\<lambda>(a, n, acc). set_access a n (Some acc))
     [(0x70000000, 0x1000, ExecuteReadAccess), (0x70001000, 0x1000, NoAccess),
      (0x71000000, 0x1000, NoAccess), (0x71001000, 0x10000, ReadWriteAccess), (0x71011000, 0x1000, NoAccess),
      (0x10000000, 0x1000, NoAccess), (0x10001000, 0x10000, ReadWriteAccess), (0x10011000, 0x1000, NoAccess)]
     \<lparr>space_access = Map.empty, space_byte = (\<lambda>_. 0x90)\<rparr>"

definition example_sandbox_trace :: Trace where
  "example_sandbox_trace = default_trace\<lparr>trace_code := [0x90], trace_seed := reg_set (reg_set default_registers RIP 0x70000FFF) RSP 0x71010F00\<rparr>"

lemma example_space_layout: "sandbox_layout 4096 [0x90] 0x70000FFF 0x71010F00 0x10001000 example_space"
  by (simp add: sandbox_layout_def access_from_def example_space_def set_access_def in_range_def)

theorem region_names_true_witness: "space_access example_space 0x70001000 = Some NoAccess"
proof -
  have base: "scratch_data_base 4096 4096 = 0x10001000"
    by (simp add: scratch_data_base_def scratch_reserve_base_def SCRATCH_DATA_RESERVE_BASE_def)
  have seed: "trace_code example_sandbox_trace = [0x90]" "reg_get (trace_seed example_sandbox_trace) RIP = 0x70000FFF"
    "reg_get (trace_seed example_sandbox_trace) RSP = 0x71010F00"
    by (simp_all add: example_sandbox_trace_def reg_get_def reg_set_def default_registers_def)
  have "named_access (format_address_value 4096 4096 example_sandbox_trace 0x70001000 True) = Some NoAccess"
    by (simp add: format_address_value_def code_address_def seed Let_def)
  then show ?thesis
    using region_names_true[of 4096 example_sandbox_trace 4096 example_space "0x70001000" True NoAccess] example_space_layout
    by (simp add: seed base)
qed

end
