(* ===== verification/LinuxMemory.thy ===== *)
theory LinuxMemory
  imports Memory Linux
begin

text \<open>
  The memory calls of src/src/os.linux.cpp and the part of \<open>child_main\<close> that lays out the sandbox with them. The
  system calls are the parameter \<open>LinuxKernel\<close>; the locale \<open>linux_kernel\<close> states what their manual pages promise of
  the flags that are used, and the memory interface follows from it.
\<close>

section \<open>Memory calls\<close>

text \<open>
  \<open>mmap\<close> takes the address (0: anywhere), the length, the protection and whether \<open>MAP_FIXED_NOREPLACE\<close> is given;
  \<open>None\<close> is a failed call.
\<close>

record LinuxKernel =
  mmap :: "AddressSpace \<Rightarrow> u64 \<Rightarrow> u64 \<Rightarrow> page_access \<Rightarrow> bool \<Rightarrow> (u64 \<times> AddressSpace) option"
  mprotect :: "AddressSpace \<Rightarrow> u64 \<Rightarrow> u64 \<Rightarrow> page_access \<Rightarrow> AddressSpace option"
  munmap :: "AddressSpace \<Rightarrow> u64 \<Rightarrow> u64 \<Rightarrow> AddressSpace option"

definition vm_alloc :: "LinuxKernel \<Rightarrow> u64 \<Rightarrow> AddressSpace \<Rightarrow> u64 \<times> AddressSpace" where
  "vm_alloc sys len space =
     (case mmap sys space 0 len NoAccess False of None \<Rightarrow> (0, space) | Some (result, space') \<Rightarrow> (result, space'))"

definition vm_alloc_at :: "LinuxKernel \<Rightarrow> u64 \<Rightarrow> u64 \<Rightarrow> AddressSpace \<Rightarrow> u64 \<times> AddressSpace" where
  "vm_alloc_at sys address len space =
     (case mmap sys space address len NoAccess True of None \<Rightarrow> (0, space) | Some (result, space') \<Rightarrow> (result, space'))"

definition vm_commit :: "LinuxKernel \<Rightarrow> u64 \<Rightarrow> u64 \<Rightarrow> VMProtection \<Rightarrow> AddressSpace \<Rightarrow> bool \<times> AddressSpace" where
  "vm_commit sys address len protection space =
     (case mprotect sys space address len (native_protection protection) of
        None \<Rightarrow> (False, space) | Some space' \<Rightarrow> (True, space'))"

definition vm_protect :: "LinuxKernel \<Rightarrow> u64 \<Rightarrow> u64 \<Rightarrow> VMProtection \<Rightarrow> AddressSpace \<Rightarrow> bool \<times> AddressSpace" where
  "vm_protect sys address len protection space = vm_commit sys address len protection space"

text \<open>The result of \<open>munmap\<close> is not looked at.\<close>

definition vm_free :: "LinuxKernel \<Rightarrow> u64 \<Rightarrow> u64 \<Rightarrow> AddressSpace \<Rightarrow> AddressSpace" where
  "vm_free sys address len space =
     (if address = 0 then space
      else case munmap sys space address len of None \<Rightarrow> space | Some space' \<Rightarrow> space')"

text \<open>\<open>__builtin___clear_cache\<close> returns nothing and leaves the memory as it is.\<close>

definition vm_flush_instruction_cache :: "u64 \<Rightarrow> u64 \<Rightarrow> bool" where
  "vm_flush_instruction_cache address len = True"

definition vm_allocation_granularity :: "u64 \<Rightarrow> u64" where
  "vm_allocation_granularity page_size = page_size"

section \<open>The child's memory\<close>

text \<open>The chain of commits, which stops at the first that fails.\<close>

fun commit_all :: "LinuxKernel \<Rightarrow> (u64 \<times> u64) list \<Rightarrow> AddressSpace \<Rightarrow> bool \<times> AddressSpace" where
  "commit_all sys [] space = (True, space)"
| "commit_all sys ((address, len) # regions) space =
     (case vm_commit sys address len ReadWrite space of
        (False, space') \<Rightarrow> (False, space')
      | (True, space') \<Rightarrow> commit_all sys regions space')"

text \<open>
  \<open>child_main\<close> from the reservations to the instruction cache: \<open>None\<close> is a fault while copying the code, \<open>Inl\<close> the
  error that is reported, \<open>Inr\<close> the three addresses of the report and the memory of the child.
\<close>

definition child_memory ::
  "LinuxKernel \<Rightarrow> PlatformRunRequest \<Rightarrow> u64 \<Rightarrow> u64 \<Rightarrow> u64 \<Rightarrow> AddressSpace \<Rightarrow> (ChildError + ChildReady \<times> AddressSpace) option" where
  "child_memory sys request page_size signal_stack_size data_reserve_base space =
     (let code_size = word_of_nat (length (req_code request));
          code_region = page_round code_size page_size;
          (buffer, space) = vm_alloc sys (code_region + page_size) space;
          (stack, space) = vm_alloc sys (SCRATCH_STACK_BYTES + page_size * 2) space;
          (data, space) = vm_alloc_at sys data_reserve_base (SCRATCH_DATA_BYTES + page_size * 2) space;
          (signal_stack, space) = vm_alloc sys (signal_stack_size + page_size * 2) space;
          code_base = code_base_of buffer code_size page_size
      in if buffer = 0 \<or> stack = 0 \<or> data = 0 \<or> signal_stack = 0 then Some (Inl ChildAllocation)
         else case commit_all sys [(buffer, code_region), (stack + page_size, SCRATCH_STACK_BYTES),
                (data + page_size, SCRATCH_DATA_BYTES), (signal_stack + page_size, signal_stack_size)] space of
             (False, space) \<Rightarrow> Some (Inl ChildCommit)
           | (True, space) \<Rightarrow>
               (case memcpy code_base (req_code request) space of
                  None \<Rightarrow> None
                | Some space \<Rightarrow>
                    (case vm_protect sys buffer code_region ExecuteRead space of
                       (False, space) \<Rightarrow> Some (Inl ChildProtect)
                     | (True, space) \<Rightarrow>
                         if \<not> vm_flush_instruction_cache code_base code_size then Some (Inl ChildFlush)
                         else Some (Inr (\<lparr>ready_code_base = code_base, ready_initial_rsp = initial_rsp_of stack page_size,
                                ready_data_base = data + page_size, ready_error = ChildOk\<rparr>, space)))))"

text \<open>This is the run of \<open>child_main\<close> whose calls get these answers, up to the setup of the signal handlers.\<close>

lemma child_memory_child_main:
  assumes "child_memory sys request page_size signal_stack_size base space = Some result"
  obtains env where "ch_traceme env" "ch_signal_setup env"
    "child_main env request page_size signal_stack_size = (case result of Inl e \<Rightarrow> child_failed e | Inr (ready, space') \<Rightarrow> (ready, ch_write env))"
proof -
  let ?code_size = "word_of_nat (length (req_code request)) :: u64"
  obtain buffer s1 where 1: "vm_alloc sys (page_round ?code_size page_size + page_size) space = (buffer, s1)" by fastforce
  obtain stack s2 where 2: "vm_alloc sys (SCRATCH_STACK_BYTES + page_size * 2) s1 = (stack, s2)" by fastforce
  obtain data s3 where 3: "vm_alloc_at sys base (SCRATCH_DATA_BYTES + page_size * 2) s2 = (data, s3)" by fastforce
  obtain signal_stack s4 where 4: "vm_alloc sys (signal_stack_size + page_size * 2) s3 = (signal_stack, s4)" by fastforce
  define env where "env commits protected = \<lparr>ch_traceme = True, ch_buffer = buffer, ch_stack = stack, ch_data = data,
    ch_signal_stack = signal_stack, ch_commit = (\<lambda>_ _. commits), ch_protect = protected, ch_flush = True, ch_signal_setup = True,
    ch_write = True\<rparr>" for commits protected
  show thesis
    using assms that[of "env False False"] that[of "env True False"] that[of "env True True"]
    by (auto simp: child_memory_def child_main_def env_def vm_flush_instruction_cache_def 1 2 3 4 Let_def
        simp del: commit_all.simps split: if_splits option.splits prod.splits bool.splits)
qed

text \<open>The answers of the reservations and commits decide how the child goes on.\<close>

lemma child_memory_run:
  assumes "code_region = page_round (word_of_nat (length (req_code request))) page"
    and "vm_alloc sys (code_region + page) space = (buffer, s1)" "vm_alloc sys (SCRATCH_STACK_BYTES + page * 2) s1 = (stack, s2)"
      "vm_alloc_at sys base (SCRATCH_DATA_BYTES + page * 2) s2 = (data, s3)" "vm_alloc sys (signal_stack_size + page * 2) s3 = (signal_stack, s4)"
      "commit_all sys [(buffer, code_region), (stack + page, SCRATCH_STACK_BYTES), (data + page, SCRATCH_DATA_BYTES),
         (signal_stack + page, signal_stack_size)] s4 = (ok, s5)"
  shows "child_memory sys request page signal_stack_size base space =
    (if buffer = 0 \<or> stack = 0 \<or> data = 0 \<or> signal_stack = 0 then Some (Inl ChildAllocation)
     else if \<not> ok then Some (Inl ChildCommit)
     else case memcpy (code_base_of buffer (word_of_nat (length (req_code request))) page) (req_code request) s5 of
         None \<Rightarrow> None
       | Some space \<Rightarrow>
           (case vm_protect sys buffer code_region ExecuteRead space of
              (False, space) \<Rightarrow> Some (Inl ChildProtect)
            | (True, space) \<Rightarrow>
                Some (Inr (\<lparr>ready_code_base = code_base_of buffer (word_of_nat (length (req_code request))) page,
                  ready_initial_rsp = initial_rsp_of stack page, ready_data_base = data + page, ready_error = ChildOk\<rparr>, space))))"
  by (simp only: child_memory_def Let_def assms(1)[symmetric] assms(2-6) prod.case vm_flush_instruction_cache_def simp_thms if_False)
    (cases ok, simp_all)

section \<open>The kernel's promises\<close>

locale linux_kernel =
  fixes sys :: LinuxKernel and k :: nat
  assumes exponent: "k \<le> 16"
    and mmap_maps: "mmap sys space hint len NoAccess fixed = Some (a, space') \<Longrightarrow>
      reserves (2 ^ k) a len space space' \<and> (fixed \<longrightarrow> a = hint)"
    and mprotect_changes: "mprotect sys space a len prot = Some space' \<Longrightarrow>
      protects (2 ^ k) a len prot space space' \<and> space_byte space' = space_byte space"

sublocale linux_kernel \<subseteq> vm k k "vm_alloc sys" "vm_alloc_at sys" "vm_commit sys" "vm_protect sys"
proof
  show "k \<le> 16" by (rule exponent)
next
  fix len space a space'
  assume "vm_alloc sys len space = (a, space')" "a \<noteq> 0"
  then show "reserves (2 ^ k) a len space space'"
    using mmap_maps by (auto simp: vm_alloc_def split: option.splits)
next
  fix b len space a space'
  assume "vm_alloc_at sys b len space = (a, space')" "a \<noteq> 0"
  then show "a = b \<and> reserves (2 ^ k) a len space space'"
    using mmap_maps by (auto simp: vm_alloc_at_def split: option.splits)
next
  fix a len prot space space'
  assume "vm_commit sys a len prot space = (True, space')"
  then show "protects (2 ^ k) a len (native_protection prot) space space'"
    using mprotect_changes by (auto simp: vm_commit_def split: option.splits)
next
  fix a len prot space space'
  assume "vm_protect sys a len prot space = (True, space')"
  then show "protects (2 ^ k) a len (native_protection prot) space space' \<and> space_byte space' = space_byte space"
    using mprotect_changes by (auto simp: vm_protect_def vm_commit_def split: option.splits)
qed

context linux_kernel begin

lemma commit_all_Cons:
  assumes "commit_all sys ((a, len) # regions) space = (True, space')"
  obtains space1 where "vm_commit sys a len ReadWrite space = (True, space1)" "commit_all sys regions space1 = (True, space')"
  using assms by (auto split: prod.splits bool.splits)

text \<open>Reservations and commits of the child, with the regions that they leave.\<close>

lemma child_regions:
  assumes "region_is s0 z" "2 ^ k dvd unat code_region" "unat code_region + 2 ^ k < 2 ^ 64" "base \<noteq> 0 \<and> 2 ^ k dvd unat base"
    and "2 ^ k dvd unat signal_stack_size" "unat signal_stack_size < 2 ^ 63"
    and "vm_alloc sys (code_region + 2 ^ k) s0 = (buffer, s1)" "vm_alloc sys (SCRATCH_STACK_BYTES + 2 ^ k * 2) s1 = (stack, s2)"
      "vm_alloc_at sys base (SCRATCH_DATA_BYTES + 2 ^ k * 2) s2 = (data, s3)"
      "vm_alloc sys (signal_stack_size + 2 ^ k * 2) s3 = (signal_stack, s4)"
      "buffer \<noteq> 0" "stack \<noteq> 0" "data \<noteq> 0" "signal_stack \<noteq> 0"
    and "commit_all sys [(buffer, code_region), (stack + 2 ^ k, SCRATCH_STACK_BYTES), (data + 2 ^ k, SCRATCH_DATA_BYTES),
      (signal_stack + 2 ^ k, signal_stack_size)] s4 = (True, s5)"
  obtains r where "regions_ok s5 (z # (buffer, unat code_region + 2 ^ k, override 0 (unat code_region) ReadWriteAccess (\<lambda>_. NoAccess))
      # (stack, 0x10000 + 2 * 2 ^ k, override (2 ^ k) 0x10000 ReadWriteAccess (\<lambda>_. NoAccess))
      # (data, 0x10000 + 2 * 2 ^ k, override (2 ^ k) 0x10000 ReadWriteAccess (\<lambda>_. NoAccess)) # [r])"
proof -
  have p: "(2 :: nat) ^ k \<le> 0x10000" using power_increasing[OF exponent, of "2 :: nat"] by simp
  have w: "(2 ^ k * 2 :: u64) = word_of_nat (2 * 2 ^ k)" by simp
  note b = reserve_sandbox[OF assms(1-4,7-9,11-13)]
  note g = reserve_next[OF b(1) alloc_reserves[OF assms(10,14)] w assms(5)]
  obtain t1 where t1: "vm_commit sys buffer code_region ReadWrite s4 = (True, t1)"
    "commit_all sys [(stack + 2 ^ k, SCRATCH_STACK_BYTES), (data + 2 ^ k, SCRATCH_DATA_BYTES),
      (signal_stack + 2 ^ k, signal_stack_size)] t1 = (True, s5)"
    using commit_all_Cons[OF assms(15)] by blast
  obtain t2 where t2: "vm_commit sys (stack + 2 ^ k) SCRATCH_STACK_BYTES ReadWrite t1 = (True, t2)"
    "commit_all sys [(data + 2 ^ k, SCRATCH_DATA_BYTES), (signal_stack + 2 ^ k, signal_stack_size)] t2 = (True, s5)"
    using commit_all_Cons[OF t1(2)] by blast
  obtain t3 where t3: "vm_commit sys (data + 2 ^ k) SCRATCH_DATA_BYTES ReadWrite t2 = (True, t3)"
    "commit_all sys [(signal_stack + 2 ^ k, signal_stack_size)] t3 = (True, s5)"
    using commit_all_Cons[OF t2(2)] by blast
  obtain t4 where "vm_commit sys (signal_stack + 2 ^ k) signal_stack_size ReadWrite t3 = (True, t4)" "commit_all sys [] t4 = (True, s5)"
    using commit_all_Cons[OF t3(2)] by blast
  then have t4: "vm_commit sys (signal_stack + 2 ^ k) signal_stack_size ReadWrite t3 = (True, s5)" by simp
  have "regions_ok s4 (z # (buffer, unat code_region + 2 ^ k, \<lambda>_. NoAccess) # (stack, 0x10000 + 2 * 2 ^ k, \<lambda>_. NoAccess)
      # (data, 0x10000 + 2 * 2 ^ k, \<lambda>_. NoAccess) # [(signal_stack, unat signal_stack_size + 2 * 2 ^ k, \<lambda>_. NoAccess)])"
    "page_aligned (2 ^ k) signal_stack"
    using g p assms(6) by simp_all
  note c = commit_sandbox[OF this(1) b(2-4) assms(2) t1(1) t2(1) t3(1)]
  show thesis
    by (rule that) (use commit_region[OF c, of 4 signal_stack "unat signal_stack_size + 2 * 2 ^ k" _ "2 ^ k" signal_stack_size ReadWrite s5]
      t4 \<open>page_aligned (2 ^ k) signal_stack\<close> assms(5) in simp)
qed

text \<open>The copy of the code cannot fault, and a child that gets through has a sandbox beside what it had.\<close>

lemma child_memory_layout:
  assumes "4 \<le> k" "length (req_code request) < 2 ^ 63" "2 ^ k dvd unat signal_stack_size" "unat signal_stack_size < 2 ^ 63"
    and "region_is space z"
  obtains e where "child_memory sys request (2 ^ k) signal_stack_size (scratch_reserve_base (2 ^ k)) space = Some (Inl e)"
    | ready space' where "child_memory sys request (2 ^ k) signal_stack_size (scratch_reserve_base (2 ^ k)) space = Some (Inr (ready, space'))"
      "sandbox_layout (2 ^ k) (req_code request) (ready_code_base ready) (ready_initial_rsp ready) (ready_data_base ready) space'"
      "ready_data_base ready = scratch_data_base (2 ^ k) (2 ^ k)" "region_is space' z"
proof -
  let ?code = "req_code request"
  define code_region where "code_region = page_round (word_of_nat (length ?code)) (2 ^ k)"
  note cr = code_region_facts[OF exponent assms(2), folded code_region_def]
  obtain buffer s1 where 1: "vm_alloc sys (code_region + 2 ^ k) space = (buffer, s1)" by fastforce
  obtain stack s2 where 2: "vm_alloc sys (SCRATCH_STACK_BYTES + 2 ^ k * 2) s1 = (stack, s2)" by fastforce
  obtain data s3 where 3: "vm_alloc_at sys (scratch_reserve_base (2 ^ k)) (SCRATCH_DATA_BYTES + 2 ^ k * 2) s2 = (data, s3)" by fastforce
  obtain signal_stack s4 where 4: "vm_alloc sys (signal_stack_size + 2 ^ k * 2) s3 = (signal_stack, s4)" by fastforce
  obtain ok s5 where 5: "commit_all sys [(buffer, code_region), (stack + 2 ^ k, SCRATCH_STACK_BYTES), (data + 2 ^ k, SCRATCH_DATA_BYTES),
      (signal_stack + 2 ^ k, signal_stack_size)] s4 = (ok, s5)" by fastforce
  note run = child_memory_run[OF code_region_def 1 2 3 4 5]
  show thesis
  proof (cases "buffer = 0 \<or> stack = 0 \<or> data = 0 \<or> signal_stack = 0 \<or> \<not> ok")
    case True
    show thesis
      by (rule that(1)[of "if buffer = 0 \<or> stack = 0 \<or> data = 0 \<or> signal_stack = 0 then ChildAllocation else ChildCommit"])
        (use True in \<open>auto simp: run\<close>)
  next
    case False
    then have nz: "buffer \<noteq> 0" "stack \<noteq> 0" "data \<noteq> 0" "signal_stack \<noteq> 0" and ok by auto
    then have "ok = True" by simp
    note 6 = 5[unfolded this]
    note base = reserve_base_granular[OF exponent]
    note b = reserve_sandbox[OF assms(5) cr(1,2) base 1 2 3 nz(1-3)]
    obtain r where "regions_ok s5 (z # (buffer, unat code_region + 2 ^ k, override 0 (unat code_region) ReadWriteAccess (\<lambda>_. NoAccess))
        # (stack, 0x10000 + 2 * 2 ^ k, override (2 ^ k) 0x10000 ReadWriteAccess (\<lambda>_. NoAccess))
        # (data, 0x10000 + 2 * 2 ^ k, override (2 ^ k) 0x10000 ReadWriteAccess (\<lambda>_. NoAccess)) # [r])"
      by (rule child_regions[OF assms(5) cr(1,2) base assms(3,4) 1 2 3 4 nz 6])
    from sandbox_ready[OF assms(1,2) b(2,3), folded code_region_def, OF this]
    obtain s6 where s6: "memcpy (code_base_of buffer (word_of_nat (length ?code)) (2 ^ k)) ?code s5 = Some s6"
      and final: "\<And>s7. vm_protect sys buffer code_region ExecuteRead s6 = (True, s7) \<Longrightarrow>
        sandbox_layout (2 ^ k) ?code (code_base_of buffer (word_of_nat (length ?code)) (2 ^ k)) (initial_rsp_of stack (2 ^ k))
          (data + 2 ^ k) s7 \<and> region_is s7 z"
      by metis
    obtain protected s7 where 7: "vm_protect sys buffer code_region ExecuteRead s6 = (protected, s7)" by fastforce
    show thesis
    proof (cases protected)
      case False
      then show thesis using that(1) nz \<open>ok\<close> s6 7 by (auto simp: run)
    next
      case True
      then show thesis using that(2) nz \<open>ok\<close> s6 7 b(5) final by (simp add: run scratch_data_base_def)
    qed
  qed
qed

end

section \<open>A kernel\<close>

text \<open>
  A kernel with pages of 4096 bytes that maps where nothing is mapped (at an address that depends on the
  length, if none is asked for) and changes the protection of mapped pages.
\<close>

definition example_linux :: LinuxKernel where
  "example_linux = \<lparr>
     mmap = (\<lambda>space hint len prot fixed.
       let a = (if fixed then hint else 0x7F0000000000 + len * 0x1000); n = pages 4096 len
       in if page_aligned 4096 a \<and> unat a + n \<le> 2 ^ 64 \<and> (\<forall>x. in_range a n x \<longrightarrow> space_access space x = None)
          then Some (a, set_access a n (Some prot) space) else None),
     mprotect = (\<lambda>space a len prot.
       if page_aligned 4096 a \<and> (\<forall>x. in_range a (pages 4096 len) x \<longrightarrow> space_access space x \<noteq> None)
       then Some (set_access a (pages 4096 len) (Some prot) space) else None),
     munmap = (\<lambda>space a len. Some (set_access a (pages 4096 len) None space))\<rparr>"

interpretation example_linux: linux_kernel example_linux 12
  by unfold_locales
    (auto simp: example_linux_def reserves_def protects_def set_access_def Let_def split: if_splits)

section \<open>Properties\<close>

text \<open>
  C17: the sandbox of the Linux child. Whatever a kernel that keeps its promises answers, copying the code
  does not fault, and when the setup succeeds the reported addresses are those of a sandbox: the code is
  executable, not writable, holds the input and ends at a guard page; stack and data are writable between
  guard pages, the stack pointer is aligned and has its headroom; the data is where addresses are named
  from, and every region that was mapped before is still accessible in the same way.
\<close>

theorem linux_sandbox_layout:
  assumes "linux_kernel sys k" "4 \<le> k" "length (req_code request) < 2 ^ 63"
    and "2 ^ k dvd unat signal_stack_size" "unat signal_stack_size < 2 ^ 63"
  shows "\<exists>result. child_memory sys request (2 ^ k) signal_stack_size (scratch_reserve_base (vm_allocation_granularity (2 ^ k))) space = Some result
    \<and> (\<forall>ready space'. result = Inr (ready, space') \<longrightarrow>
         sandbox_layout (2 ^ k) (req_code request) (ready_code_base ready) (ready_initial_rsp ready) (ready_data_base ready) space'
         \<and> ready_data_base ready = scratch_data_base (vm_allocation_granularity (2 ^ k)) (2 ^ k)
         \<and> (\<forall>r. region_is space r \<longrightarrow> region_is space' r))"
proof -
  let ?run = "child_memory sys request (2 ^ k) signal_stack_size (scratch_reserve_base (2 ^ k)) space"
  have empty: "region_is space (0, 0, \<lambda>_. NoAccess)" by (simp add: region_is_def in_range_def)
  have each: "(\<exists>e. ?run = Some (Inl e)) \<or> (\<exists>ready space'. ?run = Some (Inr (ready, space'))
      \<and> sandbox_layout (2 ^ k) (req_code request) (ready_code_base ready) (ready_initial_rsp ready) (ready_data_base ready) space'
      \<and> ready_data_base ready = scratch_data_base (2 ^ k) (2 ^ k) \<and> region_is space' r)" if "region_is space r" for r
    by (rule linux_kernel.child_memory_layout[OF assms that]) auto
  then have "?run \<noteq> None" using empty by fastforce
  then show ?thesis using each[OF empty] each by (fastforce simp: vm_allocation_granularity_def)
qed

text \<open>The example kernel reserves and commits what the child asks for.\<close>

lemma example_alloc:
  assumes "page_aligned 4096 (0x7F0000000000 + len * 0x1000)" "unat (0x7F0000000000 + len * 0x1000) + pages 4096 len \<le> 2 ^ 64"
    "\<And>x. in_range (0x7F0000000000 + len * 0x1000) (pages 4096 len) x \<Longrightarrow> space_access space x = None"
  shows "vm_alloc example_linux len space
    = (0x7F0000000000 + len * 0x1000, set_access (0x7F0000000000 + len * 0x1000) (pages 4096 len) (Some NoAccess) space)"
  using assms by (simp add: vm_alloc_def example_linux_def Let_def)

lemma example_alloc_at:
  assumes "page_aligned 4096 a" "unat a + pages 4096 len \<le> 2 ^ 64" "\<And>x. in_range a (pages 4096 len) x \<Longrightarrow> space_access space x = None"
  shows "vm_alloc_at example_linux a len space = (a, set_access a (pages 4096 len) (Some NoAccess) space)"
  using assms by (simp add: vm_alloc_at_def example_linux_def Let_def)

lemma example_commit:
  assumes "page_aligned 4096 a" "\<And>x. in_range a (pages 4096 len) x \<Longrightarrow> space_access space x \<noteq> None"
  shows "vm_commit example_linux a len prot space = (True, set_access a (pages 4096 len) (Some (native_protection prot)) space)"
  using assms by (simp add: vm_commit_def example_linux_def)

text \<open>The address space of the example after the reservations, and after the commits.\<close>

definition example_reserved :: AddressSpace where
  "example_reserved = set_access 0x7F0004000000 0x4000 (Some NoAccess) (set_access 0x10000000 0x12000 (Some NoAccess)
     (set_access 0x7F0012000000 0x12000 (Some NoAccess) (set_access 0x7F0002000000 0x2000 (Some NoAccess) empty_space)))"

definition example_committed :: AddressSpace where
  "example_committed = set_access 0x7F0004001000 0x2000 (Some ReadWriteAccess) (set_access 0x10001000 0x10000 (Some ReadWriteAccess)
     (set_access 0x7F0012001000 0x10000 (Some ReadWriteAccess) (set_access 0x7F0002000000 0x1000 (Some ReadWriteAccess) example_reserved)))"

lemmas example_access = set_access_def in_range_def empty_space_def pages_def page_aligned_def SCRATCH_STACK_BYTES_def SCRATCH_DATA_BYTES_def

lemma example_reserves:
  obtains s1 s2 s3 where "vm_alloc example_linux 0x2000 empty_space = (0x7F0002000000, s1)"
    "vm_alloc example_linux (SCRATCH_STACK_BYTES + 0x2000) s1 = (0x7F0012000000, s2)"
    "vm_alloc_at example_linux 0x10000000 (SCRATCH_DATA_BYTES + 0x2000) s2 = (0x10000000, s3)"
    "vm_alloc example_linux 0x4000 s3 = (0x7F0004000000, example_reserved)"
proof
  let ?n = "Some NoAccess"
  let ?s1 = "set_access 0x7F0002000000 0x2000 ?n empty_space"
  let ?s2 = "set_access 0x7F0012000000 0x12000 ?n ?s1"
  let ?s3 = "set_access 0x10000000 0x12000 ?n ?s2"
  show "vm_alloc example_linux 0x2000 empty_space = (0x7F0002000000, ?s1)"
    using example_alloc[of "0x2000" empty_space] by (simp add: example_access)
  show "vm_alloc example_linux (SCRATCH_STACK_BYTES + 0x2000) ?s1 = (0x7F0012000000, ?s2)"
    using example_alloc[of "0x12000" ?s1] by (simp add: example_access)
  show "vm_alloc_at example_linux 0x10000000 (SCRATCH_DATA_BYTES + 0x2000) ?s2 = (0x10000000, ?s3)"
    using example_alloc_at[of "0x10000000" "0x12000" ?s2] by (simp add: example_access)
  show "vm_alloc example_linux 0x4000 ?s3 = (0x7F0004000000, example_reserved)"
    using example_alloc[of "0x4000" ?s3] by (simp add: example_access example_reserved_def)
qed

lemma example_commits:
  "commit_all example_linux [(0x7F0002000000, 0x1000), (0x7F0012001000, SCRATCH_STACK_BYTES), (0x10001000, SCRATCH_DATA_BYTES),
      (0x7F0004001000, 0x2000)] example_reserved = (True, example_committed)"
proof -
  let ?w = "Some ReadWriteAccess"
  define t1 where "t1 = set_access 0x7F0002000000 0x1000 ?w example_reserved"
  define t2 where "t2 = set_access 0x7F0012001000 0x10000 ?w t1"
  define t3 where "t3 = set_access 0x10001000 0x10000 ?w t2"
  note access = example_access example_reserved_def t1_def t2_def t3_def
  have "vm_commit example_linux 0x7F0002000000 0x1000 ReadWrite example_reserved = (True, t1)"
    using example_commit[of "0x7F0002000000" "0x1000" example_reserved ReadWrite] by (simp add: access)
  moreover have "vm_commit example_linux 0x7F0012001000 0x10000 ReadWrite t1 = (True, t2)"
    using example_commit[of "0x7F0012001000" "0x10000" t1 ReadWrite] by (simp add: access)
  moreover have "vm_commit example_linux 0x10001000 0x10000 ReadWrite t2 = (True, t3)"
    using example_commit[of "0x10001000" "0x10000" t2 ReadWrite] by (simp add: access)
  moreover have "vm_commit example_linux 0x7F0004001000 0x2000 ReadWrite t3 = (True, example_committed)"
    using example_commit[of "0x7F0004001000" "0x2000" t3 ReadWrite] by (simp add: access example_committed_def)
  ultimately show ?thesis by (simp add: SCRATCH_STACK_BYTES_def SCRATCH_DATA_BYTES_def)
qed

lemma example_child_succeeds:
  "\<exists>ready space'. child_memory example_linux nop_request 4096 0x2000 0x10000000 empty_space = Some (Inr (ready, space'))"
proof -
  obtain s1 s2 s3 where reserved: "vm_alloc example_linux 0x2000 empty_space = (0x7F0002000000, s1)"
    "vm_alloc example_linux (SCRATCH_STACK_BYTES + 0x2000) s1 = (0x7F0012000000, s2)"
    "vm_alloc_at example_linux 0x10000000 (SCRATCH_DATA_BYTES + 0x2000) s2 = (0x10000000, s3)"
    "vm_alloc example_linux 0x4000 s3 = (0x7F0004000000, example_reserved)"
    by (rule example_reserves)
  have region: "0x1000 = page_round (word_of_nat (length (req_code nop_request))) 4096"
    by (simp add: nop_request_def page_round_def)
  have code: "space_access example_committed 0x7F0002000FFF = Some ReadWriteAccess"
    "\<forall>x. in_range 0x7F0002000000 0x1000 x \<longrightarrow> space_access example_committed x \<noteq> None"
    by (simp_all add: example_access example_committed_def)
  obtain s6 where copied: "memcpy 0x7F0002000FFF [0x90] example_committed = Some s6" "space_access s6 = space_access example_committed"
    using code(1) by (simp add: memcpy_def)
  have "vm_protect example_linux 0x7F0002000000 0x1000 ExecuteRead s6
      = (True, set_access 0x7F0002000000 0x1000 (Some ExecuteReadAccess) s6)"
    using example_commit[of "0x7F0002000000" "0x1000" s6 ExecuteRead] code(2) copied(2)
    by (simp add: vm_protect_def pages_def page_aligned_def)
  then show ?thesis
    using child_memory_run[OF region, of example_linux empty_space "0x7F0002000000" s1 "0x7F0012000000" s2 "0x10000000" "0x10000000" s3
        "0x2000" "0x7F0004000000" example_reserved True example_committed] reserved example_commits copied(1)
    by (simp add: code_base_of_def page_round_def nop_request_def)
qed

theorem linux_sandbox_layout_witness:
  "\<exists>ready space'. child_memory example_linux nop_request 4096 0x2000 0x10000000 empty_space = Some (Inr (ready, space'))
    \<and> sandbox_layout 4096 [0x90] (ready_code_base ready) (ready_initial_rsp ready) (ready_data_base ready) space'"
proof -
  obtain ready space' where r: "child_memory example_linux nop_request 4096 0x2000 0x10000000 empty_space = Some (Inr (ready, space'))"
    using example_child_succeeds by blast
  have base: "scratch_reserve_base (vm_allocation_granularity 4096) = 0x10000000"
    by (simp add: scratch_reserve_base_def vm_allocation_granularity_def SCRATCH_DATA_RESERVE_BASE_def)
  have "req_code nop_request = [0x90]" by (simp add: nop_request_def)
  then have "sandbox_layout 4096 [0x90] (ready_code_base ready) (ready_initial_rsp ready) (ready_data_base ready) space'"
    using linux_sandbox_layout[OF example_linux.linux_kernel_axioms, of nop_request "0x2000" empty_space] r base by auto
  then show ?thesis using r by blast
qed

end
