(* ===== verification/WinHost.thy ===== *)
theory WinHost
  imports Text
begin

text \<open>
  What src/src/os.windows.cpp asks its host about: environment variables, the name of the parent process
  (\<open>parent_process_is\<close>, which walks the records of NtQuerySystemInformation) and the clipboard. The
  answers of the system are parameters. Reads of the process buffer are checked, so that a result
  \<open>Some b\<close> says that no read was outside the buffer.
\<close>

section \<open>Environment variables\<close>

text \<open>
  GetEnvironmentVariableA on the current value of a variable: the number it returns and, if the value
  and its terminator fit into the capacity, the text it writes.
\<close>

definition GetEnvironmentVariableA :: "string option \<Rightarrow> nat \<Rightarrow> nat \<times> string" where
  "GetEnvironmentVariableA value capacity =
     (case value of None \<Rightarrow> (0, [])
      | Some v \<Rightarrow> if length v < capacity then (length v, v) else (Suc (length v), []))"

text \<open>The value may change between calls: \<open>values k\<close> is the one that the call number \<open>k\<close> sees.\<close>

partial_function (option) environment_loop :: "(nat \<Rightarrow> string option) \<Rightarrow> nat \<Rightarrow> nat \<Rightarrow> string option" where
  "environment_loop values k capacity =
     (let (written, text) = GetEnvironmentVariableA (values k) capacity
      in if written = 0 then Some []
         else if written < capacity then Some text
         else environment_loop values (Suc k) written)"

definition environment_string :: "(string \<Rightarrow> nat \<Rightarrow> string option) \<Rightarrow> string \<Rightarrow> string option" where
  "environment_string getenv name =
     (if name = [] then Some []
      else let required = fst (GetEnvironmentVariableA (getenv name 0) 0)
           in if required = 0 then Some [] else environment_loop (getenv name) 1 required)"

text \<open>The last error after a call that returns zero: an absent variable, or an empty value.\<close>

definition environment_present :: "(string \<Rightarrow> nat \<Rightarrow> string option) \<Rightarrow> string \<Rightarrow> bool" where
  "environment_present getenv name =
     (if name = [] then False
      else let required = fst (GetEnvironmentVariableA (getenv name 0) 0); error_success = (getenv name 0 \<noteq> None)
           in required \<noteq> 0 \<or> error_success)"

section \<open>The parent process\<close>

definition PROCESS_QUERY_INITIAL_BYTES :: nat where "PROCESS_QUERY_INITIAL_BYTES = 0x10000"
definition PROCESS_QUERY_MAX_BYTES :: nat where "PROCESS_QUERY_MAX_BYTES = 0x4000000"

text \<open>
  Where the members of SYSTEM_PROCESS_INFORMATION lie. The structure is declared in winternl.h; the code takes the
  offset of \<open>UniqueProcessId\<close> from there, finds the parent's id in the handle after it, and takes a record to be
  complete up to the end of that handle.
\<close>

record ProcessLayout =
  off_NextEntryOffset :: nat
  off_ImageName_Length :: nat
  off_ImageName_Buffer :: nat
  off_UniqueProcessId :: nat

definition SIZEOF_HANDLE :: nat where "SIZEOF_HANDLE = 8"
definition SIZEOF_WCHAR :: nat where "SIZEOF_WCHAR = 2"

definition PROCESS_PARENT_ID_OFFSET :: "ProcessLayout \<Rightarrow> nat" where
  "PROCESS_PARENT_ID_OFFSET layout = off_UniqueProcessId layout + SIZEOF_HANDLE"

definition PROCESS_RECORD_MIN_BYTES :: "ProcessLayout \<Rightarrow> nat" where
  "PROCESS_RECORD_MIN_BYTES layout = PROCESS_PARENT_ID_OFFSET layout + SIZEOF_HANDLE"

datatype query_status = STATUS_SUCCESS | STATUS_INFO_LENGTH_MISMATCH | STATUS_BUFFER_TOO_SMALL | STATUS_OTHER

text \<open>The buffer after a successful query: its address, its bytes, and how many of them are filled in.\<close>

record ProcessBuffer =
  pb_address :: u64
  pb_length :: nat
  pb_bytes :: "nat \<Rightarrow> u8"

record HostEnv =
  he_getenv :: "string \<Rightarrow> nat \<Rightarrow> string option"
  he_query_found :: bool
  he_query :: "nat \<Rightarrow> query_status \<times> nat"
  he_buffer :: "nat \<Rightarrow> ProcessBuffer"
  he_process_id :: u32
  he_module :: "string \<Rightarrow> bool"
  he_layout :: ProcessLayout

text \<open>The next buffer size after a query that needs more room; \<open>None\<close> gives up.\<close>

definition next_query_size :: "nat \<Rightarrow> nat \<Rightarrow> nat option" where
  "next_query_size len process_buffer_length =
     (let next_size = (if process_buffer_length > len then process_buffer_length
            else if len \<le> PROCESS_QUERY_MAX_BYTES div 2 then len * 2
            else PROCESS_QUERY_MAX_BYTES)
      in if next_size \<le> len \<or> next_size > PROCESS_QUERY_MAX_BYTES then None else Some next_size)"

lemma next_query_size_grows: "next_query_size n l = Some m \<Longrightarrow> n < m \<and> m \<le> PROCESS_QUERY_MAX_BYTES"
  by (auto simp: next_query_size_def Let_def split: if_splits)

function query_processes :: "HostEnv \<Rightarrow> nat \<Rightarrow> (nat \<times> nat) option" where
  "query_processes env len =
     (case he_query env len of (status, process_buffer_length) \<Rightarrow>
        if status = STATUS_SUCCESS
        then if process_buffer_length > len then None else Some (len, process_buffer_length)
        else if status \<noteq> STATUS_INFO_LENGTH_MISMATCH \<and> status \<noteq> STATUS_BUFFER_TOO_SMALL then None
        else case next_query_size len process_buffer_length of
               None \<Rightarrow> None
             | Some next_size \<Rightarrow> query_processes env next_size)"
  by pat_completeness auto
termination
  by (relation "measure (\<lambda>(env, n). PROCESS_QUERY_MAX_BYTES - n)") (auto dest: next_query_size_grows)

declare query_processes.simps [simp del]

definition process_id_from_handle :: "u64 \<Rightarrow> u32" where
  "process_id_from_handle h = ucast h"

text \<open>A checked read of an integer of \<open>n\<close> bytes.\<close>

definition read_field :: "ProcessBuffer \<Rightarrow> nat \<Rightarrow> nat \<Rightarrow> u64 option" where
  "read_field buffer offset n =
     (if offset + n \<le> pb_length buffer then Some (le_value (map (pb_bytes buffer) [offset..<offset + n])) else None)"

function find_process :: "ProcessLayout \<Rightarrow> ProcessBuffer \<Rightarrow> u32 \<Rightarrow> nat \<Rightarrow> nat option option" where
  "find_process layout buffer target_process_id process_offset =
     (let buffer_size = pb_length buffer
      in if process_offset > buffer_size \<or> buffer_size - process_offset < PROCESS_RECORD_MIN_BYTES layout then Some None
         else Option.bind (read_field buffer (process_offset + off_UniqueProcessId layout) SIZEOF_HANDLE) (\<lambda>process_id.
              if process_id_from_handle process_id = target_process_id then Some (Some process_offset)
              else Option.bind (read_field buffer (process_offset + off_NextEntryOffset layout) 4) (\<lambda>next.
                   let next_offset = unat next
                   in if next_offset = 0 \<or> next_offset < PROCESS_RECORD_MIN_BYTES layout \<or> next_offset > buffer_size - process_offset
                      then Some None
                      else find_process layout buffer target_process_id (process_offset + next_offset))))"
  by pat_completeness auto
termination
  by (relation "measure (\<lambda>(layout, buffer, target, offset). pb_length buffer - offset)") auto

declare find_process.simps [simp del]

text \<open>A checked read of \<open>n\<close> UTF-16 units at an address.\<close>

definition read_units :: "ProcessBuffer \<Rightarrow> u64 \<Rightarrow> nat \<Rightarrow> u16 list option" where
  "read_units buffer address n =
     (if unat (pb_address buffer) \<le> unat address \<and> unat address + SIZEOF_WCHAR * n \<le> unat (pb_address buffer) + pb_length buffer
      then let offset = unat address - unat (pb_address buffer)
           in Some (map (\<lambda>i. ucast (le_value (map (pb_bytes buffer) [offset + SIZEOF_WCHAR * i..<offset + SIZEOF_WCHAR * i + SIZEOF_WCHAR]))) [0..<n])
      else None)"

definition wide_lowercase :: "u16 \<Rightarrow> u16" where
  "wide_lowercase c = (if 65 \<le> c \<and> c \<le> 90 then c + 32 else c)"

definition wide_case_insensitive_equal :: "u16 list \<Rightarrow> string \<Rightarrow> bool" where
  "wide_case_insensitive_equal left right =
     list_all2 (\<lambda>l r. wide_lowercase l = wide_lowercase (word_of_nat (of_char r))) left right"

text \<open>The part of a path after its last slash or backslash.\<close>

definition executable_name :: "u16 list \<Rightarrow> u16 list" where
  "executable_name path = rev (takeWhile (\<lambda>c. c \<noteq> 0x5C \<and> c \<noteq> 0x2F) (rev path))"

definition parent_image_name :: "ProcessLayout \<Rightarrow> ProcessBuffer \<Rightarrow> u32 \<Rightarrow> u16 list option option" where
  "parent_image_name layout buffer current_id =
     Option.bind (find_process layout buffer current_id 0) (\<lambda>current. case current of
       None \<Rightarrow> Some None
     | Some current_process \<Rightarrow>
         Option.bind (read_field buffer (current_process + PROCESS_PARENT_ID_OFFSET layout) SIZEOF_HANDLE) (\<lambda>native_parent_id.
         Option.bind (find_process layout buffer (process_id_from_handle native_parent_id) 0) (\<lambda>parent. case parent of
           None \<Rightarrow> Some None
         | Some p \<Rightarrow>
             Option.bind (read_field buffer (p + off_ImageName_Buffer layout) 8) (\<lambda>image_begin.
             if image_begin = 0 then Some None
             else Option.bind (read_field buffer (p + off_ImageName_Length layout) 2) (\<lambda>image_length.
               let image_length_bytes = unat image_length; buffer_begin = pb_address buffer;
                   buffer_end = buffer_begin + word_of_nat (pb_length buffer)
               in if image_length_bytes mod SIZEOF_WCHAR \<noteq> 0 then Some None
                  else if image_begin < buffer_begin \<or> image_begin > buffer_end then Some None
                  else if image_length > buffer_end - image_begin then Some None
                  else map_option (Some \<circ> executable_name) (read_units buffer image_begin (image_length_bytes div SIZEOF_WCHAR)))))))"

definition parent_process_is :: "HostEnv \<Rightarrow> string list \<Rightarrow> bool option" where
  "parent_process_is env executable_names =
     (if \<not> he_query_found env then Some False
      else case query_processes env PROCESS_QUERY_INITIAL_BYTES of
        None \<Rightarrow> Some False
      | Some (capacity, filled) \<Rightarrow>
          map_option (\<lambda>name. case name of None \<Rightarrow> False
              | Some n \<Rightarrow> list_ex (\<lambda>expected. wide_case_insensitive_equal n expected) executable_names)
            (parent_image_name (he_layout env) ((he_buffer env capacity)\<lparr>pb_length := filled\<rparr>) (he_process_id env)))"

text \<open>The disjunction of \<open>instrumentation_detected\<close>, evaluated from the left.\<close>

fun or_else :: "bool option \<Rightarrow> bool option \<Rightarrow> bool option" where
  "or_else (Some True) b = Some True"
| "or_else (Some False) b = b"
| "or_else None b = None"

definition instrumentation_detected :: "HostEnv \<Rightarrow> bool option" where
  "instrumentation_detected env =
     or_else (Some (environment_present (he_getenv env) ''SDE_COMMAND_LINE''))
     (or_else (parent_process_is env [''sde.exe''])
     (or_else (Some (he_module env ''sde.dll''))
     (or_else (Some (environment_present (he_getenv env) ''PIN_COMMAND_LINE''))
     (or_else (parent_process_is env [''pin.exe'', ''pinbin.exe''])
      (Some (he_module env ''pinvm.dll''))))))"

section \<open>Clipboard\<close>

datatype clipboard_action = OpenClipboard | EmptyClipboard | CloseClipboard | GlobalAlloc nat | GlobalFree | SetClipboardData string

record ClipboardEnv =
  cb_open :: bool
  cb_empty :: bool
  cb_alloc :: bool
  cb_lock :: bool
  cb_set :: bool
  cb_close :: bool

definition copy_to_clipboard :: "ClipboardEnv \<Rightarrow> string \<Rightarrow> bool \<times> clipboard_action list" where
  "copy_to_clipboard env text =
     (if text = [] \<or> \<not> cb_open env then (False, [])
      else if \<not> cb_empty env then (False, [OpenClipboard, CloseClipboard])
      else let (copied, acts) =
             (if \<not> cb_alloc env then (False, [])
              else let allocated = [GlobalAlloc (length text + 1)]
                   in if \<not> cb_lock env then (False, allocated @ [GlobalFree])
                      else if \<not> cb_set env then (False, allocated @ [GlobalFree])
                      else (True, allocated @ [SetClipboardData (text @ [CHR 0x00])]))
           in (cb_close env \<and> copied, [OpenClipboard, EmptyClipboard] @ acts @ [CloseClipboard]))"

section \<open>Environment variables\<close>

lemma environment_loop_stable:
  assumes "\<And>k. values k = Some v" "length v < capacity"
  shows "environment_loop values k capacity = Some v"
  using assms by (subst environment_loop.simps) (simp add: GetEnvironmentVariableA_def)

lemma environment_loop_value:
  assumes "environment_loop values k capacity = Some s"
  shows "s = [] \<or> (\<exists>j. values j = Some s)"
proof (rule environment_loop.raw_induct[OF _ assms, where P = "\<lambda>values k capacity s. s = [] \<or> (\<exists>j. values j = Some s)"])
  fix rec :: "(nat \<Rightarrow> string option) \<Rightarrow> nat \<Rightarrow> nat \<Rightarrow> string option"
    and vs :: "nat \<Rightarrow> string option" and k capacity :: nat and r
  assume "\<And>vs k capacity r. rec vs k capacity = Some r \<Longrightarrow> r = [] \<or> (\<exists>j. vs j = Some r)"
    and "(let (written, text) = GetEnvironmentVariableA (vs k) capacity
      in if written = 0 then Some [] else if written < capacity then Some text else rec vs (Suc k) written) = Some r"
  then show "r = [] \<or> (\<exists>j. vs j = Some r)"
    by (auto simp: GetEnvironmentVariableA_def split: option.splits if_splits)
qed

section \<open>Reads of the process buffer\<close>

text \<open>
  The members that the code reads besides the parent's id lie in front of the end of \<open>UniqueProcessId\<close>, as winternl.h
  declares them, and the buffer lies inside the address space.
\<close>

definition layout_ok :: "ProcessLayout \<Rightarrow> bool" where
  "layout_ok layout \<longleftrightarrow> off_NextEntryOffset layout + 4 \<le> off_UniqueProcessId layout
     \<and> off_ImageName_Length layout + 2 \<le> off_UniqueProcessId layout \<and> off_ImageName_Buffer layout + 8 \<le> off_UniqueProcessId layout"

definition buffer_fits :: "ProcessBuffer \<Rightarrow> bool" where
  "buffer_fits buffer \<longleftrightarrow> unat (pb_address buffer) + pb_length buffer < 2 ^ 64"

lemmas record_defs = PROCESS_RECORD_MIN_BYTES_def PROCESS_PARENT_ID_OFFSET_def SIZEOF_HANDLE_def

lemma read_field_inside: "offset + n \<le> pb_length buffer \<Longrightarrow> \<exists>v. read_field buffer offset n = Some v"
  by (simp add: read_field_def)

text \<open>A complete record: every member that is read from it lies inside the buffer.\<close>

definition record_inside :: "ProcessLayout \<Rightarrow> ProcessBuffer \<Rightarrow> nat \<Rightarrow> bool" where
  "record_inside layout buffer p \<longleftrightarrow> p + PROCESS_RECORD_MIN_BYTES layout \<le> pb_length buffer"

lemma record_fields:
  assumes "record_inside layout buffer p" "layout_ok layout"
  shows "\<exists>v. read_field buffer (p + off_UniqueProcessId layout) SIZEOF_HANDLE = Some v"
    "\<exists>v. read_field buffer (p + PROCESS_PARENT_ID_OFFSET layout) SIZEOF_HANDLE = Some v"
    "\<exists>v. read_field buffer (p + off_NextEntryOffset layout) 4 = Some v"
    "\<exists>v. read_field buffer (p + off_ImageName_Buffer layout) 8 = Some v"
    "\<exists>v. read_field buffer (p + off_ImageName_Length layout) 2 = Some v"
  using assms by (simp_all add: read_field_def record_inside_def layout_ok_def record_defs)

lemma find_process_safe:
  "layout_ok layout \<Longrightarrow> \<exists>r. find_process layout buffer target offset = Some r \<and> (\<forall>p. r = Some p \<longrightarrow> record_inside layout buffer p)"
proof (induction layout buffer target offset rule: find_process.induct)
  case (1 layout buffer target offset)
  show ?case
  proof (cases "offset > pb_length buffer \<or> pb_length buffer - offset < PROCESS_RECORD_MIN_BYTES layout")
    case True
    then show ?thesis by (subst find_process.simps) simp
  next
    case False
    then have inside: "record_inside layout buffer offset" unfolding record_inside_def by linarith
    obtain id next_entry where "read_field buffer (offset + off_UniqueProcessId layout) SIZEOF_HANDLE = Some id"
      "read_field buffer (offset + off_NextEntryOffset layout) 4 = Some next_entry"
      using record_fields(1,3)[OF inside 1(2)] by blast
    then show ?thesis using False inside 1(1)[OF refl False _ _ _ _ _ 1(2)] by (subst find_process.simps) (simp add: Let_def)
  qed
qed

lemma read_units_safe:
  assumes "buffer_fits buffer" "\<not> (address < pb_address buffer \<or> address > pb_address buffer + word_of_nat (pb_length buffer))"
    and "\<not> n > pb_address buffer + word_of_nat (pb_length buffer) - address"
  shows "\<exists>units. read_units buffer address (unat n div SIZEOF_WCHAR) = Some units"
proof -
  let ?stop = "pb_address buffer + word_of_nat (pb_length buffer)"
  have s: "unat ?stop = unat (pb_address buffer) + pb_length buffer"
    using assms(1) by (simp add: buffer_fits_def unat_add_nat)
  have "unat (?stop - address) = unat ?stop - unat address" using assms(2) by (simp add: unat_diff not_less)
  then have "unat n \<le> unat ?stop - unat address" using assms(3) by (simp add: word_le_nat_alt not_less)
  moreover have "unat (pb_address buffer) \<le> unat address" "unat address \<le> unat ?stop"
    using assms(2) by (simp_all add: word_le_nat_alt not_less)
  ultimately show ?thesis unfolding read_units_def s by (simp add: SIZEOF_WCHAR_def Let_def)
qed

lemma parent_image_name_safe:
  assumes "buffer_fits buffer" "layout_ok layout"
  shows "\<exists>r. parent_image_name layout buffer i = Some r"
proof -
  obtain current where c: "find_process layout buffer i 0 = Some current" "\<forall>p. current = Some p \<longrightarrow> record_inside layout buffer p"
    using find_process_safe[OF assms(2)] by blast
  show ?thesis
  proof (cases current)
    case None
    then show ?thesis using c by (simp add: parent_image_name_def)
  next
    case (Some q)
    obtain h where h: "read_field buffer (q + PROCESS_PARENT_ID_OFFSET layout) SIZEOF_HANDLE = Some h"
      using record_fields(2)[OF _ assms(2)] c(2) Some by blast
    obtain parent where p: "find_process layout buffer (process_id_from_handle h) 0 = Some parent"
      "\<forall>p. parent = Some p \<longrightarrow> record_inside layout buffer p"
      using find_process_safe[OF assms(2)] by blast
    show ?thesis
    proof (cases parent)
      case None
      then show ?thesis using c p h \<open>current = Some q\<close> by (simp add: parent_image_name_def)
    next
      case (Some r)
      then obtain b n where "read_field buffer (r + off_ImageName_Buffer layout) 8 = Some b"
        "read_field buffer (r + off_ImageName_Length layout) 2 = Some n"
        using record_fields(4,5)[OF _ assms(2)] p(2) by blast
      then show ?thesis
        using c p h \<open>current = Some q\<close> Some read_units_safe[OF assms(1), of b n] by (auto simp: parent_image_name_def Let_def)
    qed
  qed
qed

lemma query_processes_bounds:
  "query_processes env n = Some (capacity, filled) \<Longrightarrow> filled \<le> capacity \<and> capacity \<le> max n PROCESS_QUERY_MAX_BYTES"
proof (induction env n rule: query_processes.induct)
  case (1 env n)
  show ?case
    using 1(1)[OF prod.collapse] 1(2)[unfolded query_processes.simps[of env n]]
    by (auto simp: case_prod_beta max_def dest!: next_query_size_grows split: if_splits option.splits)
qed

section \<open>Properties\<close>

text \<open>
  C30: the search for the parent process returns and reads nothing outside the process buffer: the query loop
  ends with a buffer no larger than the limit, and every member that is read from a record, the parent's id behind
  \<open>UniqueProcessId\<close> included, and the image name lie inside the filled part of it. The hypotheses are that the members
  have the order of winternl.h and that the buffer lies inside the address space.
\<close>

theorem parent_process_is_safe:
  assumes "layout_ok (he_layout env)"
    and "\<And>capacity filled. query_processes env PROCESS_QUERY_INITIAL_BYTES = Some (capacity, filled) \<Longrightarrow>
      filled \<le> capacity \<Longrightarrow> capacity \<le> PROCESS_QUERY_MAX_BYTES \<Longrightarrow> buffer_fits ((he_buffer env capacity)\<lparr>pb_length := filled\<rparr>)"
  shows "\<exists>b. parent_process_is env names = Some b"
proof (cases "query_processes env PROCESS_QUERY_INITIAL_BYTES")
  case None
  then have "parent_process_is env names = Some False" by (simp add: parent_process_is_def)
  then show ?thesis ..
next
  case (Some r)
  obtain capacity filled where r: "r = (capacity, filled)" by fastforce
  have "buffer_fits ((he_buffer env capacity)\<lparr>pb_length := filled\<rparr>)"
    using assms(2)[of capacity filled] query_processes_bounds[OF Some[unfolded r]] Some r
    by (simp add: PROCESS_QUERY_INITIAL_BYTES_def PROCESS_QUERY_MAX_BYTES_def)
  from parent_image_name_safe[OF this assms(1)] show ?thesis
    using Some r by (auto simp: parent_process_is_def)
qed

text \<open>
  Reading an environment variable on Windows. If its value does not change while it is read, the
  value is returned, and the empty string if it is absent; if it does change, whatever is returned is
  empty or a value that the variable had at some call.
\<close>

lemma environment_string_value:
  "(environment_string (\<lambda>_ _. v) name = Some (if name = [] then [] else case v of None \<Rightarrow> [] | Some t \<Rightarrow> t))
   \<and> (case environment_string getenv name of None \<Rightarrow> True | Some s \<Rightarrow> s = [] \<or> (\<exists>k. getenv name k = Some s))"
proof
  have "environment_loop (\<lambda>_. Some t) 1 (Suc (length t)) = Some t" for t
    by (rule environment_loop_stable) simp_all
  then show "environment_string (\<lambda>_ _. v) name = Some (if name = [] then [] else case v of None \<Rightarrow> [] | Some t \<Rightarrow> t)"
    by (simp add: environment_string_def GetEnvironmentVariableA_def split: option.split)
  show "case environment_string getenv name of None \<Rightarrow> True | Some s \<Rightarrow> s = [] \<or> (\<exists>k. getenv name k = Some s)"
    by (auto simp: environment_string_def Let_def split: option.split dest: environment_loop_value)
qed

text \<open>
  The Windows clipboard is closed exactly when it was opened, and the block with the text is handed
  over or freed whenever it was allocated; the copy succeeds exactly when the text and its terminator were
  handed over and the clipboard could be closed.
\<close>

lemma copy_to_clipboard_releases:
  "let (copied, acts) = copy_to_clipboard env t
   in count_list acts CloseClipboard = count_list acts OpenClipboard
     \<and> count_list acts (GlobalAlloc (length t + 1))
       = count_list acts GlobalFree + count_list acts (SetClipboardData (t @ [CHR 0x00]))
     \<and> copied = (SetClipboardData (t @ [CHR 0x00]) \<in> set acts \<and> cb_close env)"
  by (simp add: copy_to_clipboard_def Let_def)

text \<open>
  A process list of two records of 0x60 bytes, the program itself and its parent, and the parent's image name
  \<open>C:\sde.exe\<close>; the offsets are those of the 64-bit structure.
\<close>

definition example_layout :: ProcessLayout where
  "example_layout = \<lparr>off_NextEntryOffset = 0, off_ImageName_Length = 56, off_ImageName_Buffer = 64, off_UniqueProcessId = 80\<rparr>"

definition example_process :: "u64 \<Rightarrow> u64 \<Rightarrow> u64 \<Rightarrow> u64 \<Rightarrow> u64 \<Rightarrow> u8 list" where
  "example_process next_entry image_length image_buffer process_id parent_id =
     le_bytes 4 next_entry @ replicate 52 0 @ le_bytes 2 image_length @ replicate 6 0 @ le_bytes 8 image_buffer @ replicate 8 0
     @ le_bytes 8 process_id @ le_bytes 8 parent_id"

definition example_bytes :: "u8 list" where
  "example_bytes = example_process 0x60 0 0 12 4 @ example_process 0 20 0x5000C0 4 0
     @ concat (map (\<lambda>c. [c, 0]) [0x43, 0x3A, 0x5C, 0x73, 0x64, 0x65, 0x2E, 0x65, 0x78, 0x65])"

definition example_buffer :: ProcessBuffer where
  "example_buffer = \<lparr>pb_address = 0x500000, pb_length = 0, pb_bytes = (\<lambda>i. example_bytes ! i)\<rparr>"

definition example_host :: HostEnv where
  "example_host = \<lparr>he_getenv = (\<lambda>_ _. None), he_query_found = True, he_query = (\<lambda>n. (STATUS_SUCCESS, 0xD4)),
     he_buffer = (\<lambda>_. example_buffer), he_process_id = 12, he_module = (\<lambda>_. False), he_layout = example_layout\<rparr>"

lemma example_query: "query_processes example_host PROCESS_QUERY_INITIAL_BYTES = Some (PROCESS_QUERY_INITIAL_BYTES, 0xD4)"
  by (subst query_processes.simps) (simp add: example_host_def PROCESS_QUERY_INITIAL_BYTES_def)

theorem parent_process_is_safe_witness: "\<exists>b. parent_process_is example_host [''sde.exe''] = Some b"
  by (rule parent_process_is_safe)
    (simp add: example_host_def example_layout_def layout_ok_def, simp add: example_query,
     simp add: example_host_def example_buffer_def buffer_fits_def)

end
