(* ===== verification/Windows.thy ===== *)
theory Windows
  imports Seeding WinHost
begin

text \<open>
  The Windows backend, src/src/os.windows.cpp: the engine state behind \<open>g_engine\<close>, the vectored exception
  handler \<open>bme_veh\<close>, the sandbox thread that runs under it, and \<open>run_platform_steps\<close>. The operating system
  is the record \<open>WinEnv\<close> of what each call answers; what the thread does next is \<open>we_event env n\<close>. Besides
  the result the run returns the list of the resources it acquired and released and what it leaves in
  \<open>g_engine\<close>.
\<close>

section \<open>Data\<close>

datatype exception_code =
    EXCEPTION_SINGLE_STEP | EXCEPTION_BREAKPOINT | EXCEPTION_ACCESS_VIOLATION | EXCEPTION_ILLEGAL_INSTRUCTION
  | EXCEPTION_PRIV_INSTRUCTION | EXCEPTION_INT_DIVIDE_BY_ZERO | EXCEPTION_INT_OVERFLOW | EXCEPTION_STACK_OVERFLOW
  | EXCEPTION_DATATYPE_MISALIGNMENT | EXCEPTION_IN_PAGE_ERROR | EXCEPTION_GUARD_PAGE | EXCEPTION_ARRAY_BOUNDS_EXCEEDED
  | EXCEPTION_FLT_DIVIDE_BY_ZERO | EXCEPTION_FLT_INVALID_OPERATION | EXCEPTION_FLT_OVERFLOW | EXCEPTION_FLT_UNDERFLOW
  | EXCEPTION_FLT_INEXACT_RESULT | EXCEPTION_FLT_DENORMAL_OPERAND | EXCEPTION_FLT_STACK_CHECK
  | EXCEPTION_NONCONTINUABLE_EXCEPTION | EXCEPTION_INVALID_DISPOSITION | OtherException u32

text \<open>
  The parts of \<open>CONTEXT\<close> that the program touches; \<open>FltSave\<close> has sixteen XMM pairs (low, high) and eight
  float registers of sixteen bytes.
\<close>

record CONTEXT =
  c_Rax :: u64
  c_Rbx :: u64
  c_Rcx :: u64
  c_Rdx :: u64
  c_Rsi :: u64
  c_Rdi :: u64
  c_Rbp :: u64
  c_Rsp :: u64
  c_R8 :: u64
  c_R9 :: u64
  c_R10 :: u64
  c_R11 :: u64
  c_R12 :: u64
  c_R13 :: u64
  c_R14 :: u64
  c_R15 :: u64
  c_Rip :: u64
  c_EFlags :: u32
  c_MxCsr :: u32
  c_ControlWord :: u16
  c_StatusWord :: u16
  c_TagWord :: u8
  c_FltMxCsr :: u32
  c_MxCsr_Mask :: u32
  c_XmmRegisters :: "(u64 \<times> u64) list"
  c_FloatRegisters :: "u8 list list"

definition wf_context :: "CONTEXT \<Rightarrow> bool" where
  "wf_context c \<longleftrightarrow> length (c_XmmRegisters c) = 16 \<and> length (c_FloatRegisters c) = 8
     \<and> (\<forall>b\<in>set (c_FloatRegisters c). length b = 16)"

record RawStep =
  raw_rip :: u64
  raw_registers :: Registers

record Engine =
  eng_base :: u64
  eng_code_length :: u64
  eng_max_steps :: nat
  eng_target_address :: u64
  eng_has_target :: bool
  eng_thread_id :: u32
  eng_previous_rip :: u64
  eng_saved_context :: CONTEXT
  eng_active :: bool
  eng_raw_steps :: "RawStep list"
  eng_outcome :: Outcome
  eng_fault_code :: exception_code
  eng_fault_address :: u64
  eng_fault_memory_address :: "u64 option"
  eng_fault_access :: FaultAccess
  eng_fault_registers :: Registers
  eng_stopped_at_target :: bool

text \<open>The value-initialised \<open>CONTEXT{}\<close> and \<open>Engine{}\<close>.\<close>

definition default_context :: CONTEXT where
  "default_context =
     \<lparr>c_Rax = 0, c_Rbx = 0, c_Rcx = 0, c_Rdx = 0, c_Rsi = 0, c_Rdi = 0, c_Rbp = 0, c_Rsp = 0, c_R8 = 0, c_R9 = 0,
      c_R10 = 0, c_R11 = 0, c_R12 = 0, c_R13 = 0, c_R14 = 0, c_R15 = 0, c_Rip = 0, c_EFlags = 0, c_MxCsr = 0,
      c_ControlWord = 0, c_StatusWord = 0, c_TagWord = 0, c_FltMxCsr = 0, c_MxCsr_Mask = 0,
      c_XmmRegisters = replicate 16 (0, 0), c_FloatRegisters = replicate 8 (replicate 16 0)\<rparr>"

definition default_engine :: Engine where
  "default_engine =
     \<lparr>eng_base = 0, eng_code_length = 0, eng_max_steps = 0, eng_target_address = 0, eng_has_target = False,
      eng_thread_id = 0, eng_previous_rip = 0, eng_saved_context = default_context, eng_active = False, eng_raw_steps = [],
      eng_outcome = Finished, eng_fault_code = OtherException 0, eng_fault_address = 0, eng_fault_memory_address = None,
      eng_fault_access = AccessNone, eng_fault_registers = default_registers, eng_stopped_at_target = False\<rparr>"

record ExceptionRecord =
  exc_code :: exception_code
  exc_address :: u64
  exc_information :: "u64 list"

datatype disposition = EXCEPTION_CONTINUE_SEARCH | EXCEPTION_CONTINUE_EXECUTION

definition fault_name :: "exception_code \<Rightarrow> string" where
  "fault_name code =
     (case code of
        EXCEPTION_ACCESS_VIOLATION \<Rightarrow> ''Access violation''
      | EXCEPTION_ILLEGAL_INSTRUCTION \<Rightarrow> ''Illegal instruction''
      | EXCEPTION_PRIV_INSTRUCTION \<Rightarrow> ''Privileged instruction''
      | EXCEPTION_INT_DIVIDE_BY_ZERO \<Rightarrow> ''Divide by zero''
      | EXCEPTION_INT_OVERFLOW \<Rightarrow> ''Integer overflow''
      | EXCEPTION_STACK_OVERFLOW \<Rightarrow> ''Stack overflow''
      | EXCEPTION_DATATYPE_MISALIGNMENT \<Rightarrow> ''Misaligned access''
      | EXCEPTION_BREAKPOINT \<Rightarrow> ''Breakpoint (int3)''
      | EXCEPTION_IN_PAGE_ERROR \<Rightarrow> ''In-page error''
      | EXCEPTION_GUARD_PAGE \<Rightarrow> ''Guard page violation''
      | EXCEPTION_ARRAY_BOUNDS_EXCEEDED \<Rightarrow> ''Array bounds exceeded''
      | EXCEPTION_FLT_DIVIDE_BY_ZERO \<Rightarrow> ''FP divide by zero''
      | EXCEPTION_FLT_INVALID_OPERATION \<Rightarrow> ''FP invalid operation''
      | EXCEPTION_FLT_OVERFLOW \<Rightarrow> ''FP overflow''
      | EXCEPTION_FLT_UNDERFLOW \<Rightarrow> ''FP underflow''
      | EXCEPTION_FLT_INEXACT_RESULT \<Rightarrow> ''FP inexact result''
      | EXCEPTION_FLT_DENORMAL_OPERAND \<Rightarrow> ''FP denormal operand''
      | EXCEPTION_FLT_STACK_CHECK \<Rightarrow> ''FP stack check''
      | EXCEPTION_NONCONTINUABLE_EXCEPTION \<Rightarrow> ''Noncontinuable exception''
      | EXCEPTION_INVALID_DISPOSITION \<Rightarrow> ''Invalid disposition''
      | _ \<Rightarrow> ''Exception'')"

section \<open>Snapshots\<close>

definition snapshot_fpu :: "CONTEXT \<Rightarrow> Registers \<Rightarrow> Registers" where
  "snapshot_fpu context registers =
     registers\<lparr>xmm := map (\<lambda>i. c_XmmRegisters context ! i) [0..<16],
               st := map (\<lambda>i. take 10 (c_FloatRegisters context ! i)) [0..<8],
               mxcsr := c_MxCsr context, fpu_control_word := c_ControlWord context,
               fpu_status_word := c_StatusWord context, fpu_tag_word_abridged := c_TagWord context\<rparr>"

definition snapshot :: "CONTEXT \<Rightarrow> Registers \<Rightarrow> Registers" where
  "snapshot context registers =
     snapshot_fpu context (registers\<lparr>gpr := [c_Rax context, c_Rbx context, c_Rcx context, c_Rdx context,
         c_Rsi context, c_Rdi context, c_Rbp context, c_Rsp context, c_R8 context, c_R9 context, c_R10 context,
         c_R11 context, c_R12 context, c_R13 context, c_R14 context, c_R15 context],
       rip := c_Rip context, rflags := ucast (c_EFlags context) AND NOT RFLAGS_TRAP_FLAG\<rparr>)"

section \<open>The vectored exception handler\<close>

text \<open>The branch for \<open>EXCEPTION_SINGLE_STEP\<close>: the engine and the context to continue with.\<close>

definition veh_single_step :: "CONTEXT \<Rightarrow> Engine \<Rightarrow> CONTEXT \<times> Engine" where
  "veh_single_step context e =
     (let next_rip = c_Rip context; code_begin = eng_base e;
          e = e\<lparr>eng_raw_steps := eng_raw_steps e
                @ [\<lparr>raw_rip = eng_previous_rip e, raw_registers = snapshot context default_registers\<rparr>]\<rparr>;
          code_end = code_begin + eng_code_length e
      in if eng_has_target e \<and> next_rip = eng_target_address e
         then (eng_saved_context e,
               e\<lparr>eng_outcome := Stopped, eng_fault_address := next_rip, eng_stopped_at_target := True\<rparr>)
         else if next_rip < code_begin \<or> next_rip \<ge> code_end
         then (eng_saved_context e, e\<lparr>eng_outcome := Finished\<rparr>)
         else if length (eng_raw_steps e) \<ge> eng_max_steps e
         then (eng_saved_context e, e\<lparr>eng_outcome := AbortedCap\<rparr>)
         else (context\<lparr>c_EFlags := c_EFlags context OR ucast RFLAGS_TRAP_FLAG\<rparr>, e\<lparr>eng_previous_rip := next_rip\<rparr>))"

definition information_access :: "u64 \<Rightarrow> FaultAccess" where
  "information_access i = (if i = 0 then Read else if i = 1 then Write else if i = 8 then Execute else Unknown)"

definition veh_fault :: "ExceptionRecord \<Rightarrow> CONTEXT \<Rightarrow> Engine \<Rightarrow> CONTEXT \<times> Engine" where
  "veh_fault record context e =
     (let e = e\<lparr>eng_outcome := Faulted, eng_fault_code := exc_code record, eng_fault_address := exc_address record\<rparr>;
          e = (if (exc_code record = EXCEPTION_ACCESS_VIOLATION \<or> exc_code record = EXCEPTION_IN_PAGE_ERROR)
                  \<and> length (exc_information record) \<ge> 2
               then e\<lparr>eng_fault_memory_address := Some (exc_information record ! 1),
                      eng_fault_access := information_access (exc_information record ! 0)\<rparr>
               else e)
      in (eng_saved_context e, e\<lparr>eng_fault_registers := snapshot context (eng_fault_registers e)\<rparr>))"

definition bme_veh ::
  "u32 \<Rightarrow> ExceptionRecord \<Rightarrow> CONTEXT \<Rightarrow> Engine option \<Rightarrow> disposition \<times> CONTEXT \<times> Engine option" where
  "bme_veh current_thread_id record context g_engine =
     (case g_engine of
        None \<Rightarrow> (EXCEPTION_CONTINUE_SEARCH, context, None)
      | Some e \<Rightarrow>
          if \<not> eng_active e \<or> current_thread_id \<noteq> eng_thread_id e
          then (EXCEPTION_CONTINUE_SEARCH, context, Some e)
          else let (context', e') =
                 (if exc_code record = EXCEPTION_SINGLE_STEP then veh_single_step context e
                  else if exc_code record = EXCEPTION_BREAKPOINT
                  then (eng_saved_context e,
                        e\<lparr>eng_outcome := Stopped, eng_fault_address := eng_previous_rip e\<rparr>)
                  else veh_fault record context e)
               in (EXCEPTION_CONTINUE_EXECUTION, context', Some e'))"

lemma bme_veh_continues:
  assumes "bme_veh tid record context (Some e) = (EXCEPTION_CONTINUE_EXECUTION, context', Some e')"
    and "context' \<noteq> eng_saved_context e"
  shows "length (eng_raw_steps e') = Suc (length (eng_raw_steps e)) \<and> length (eng_raw_steps e') < eng_max_steps e'
    \<and> eng_max_steps e' = eng_max_steps e"
  using assms by (auto simp: bme_veh_def veh_single_step_def veh_fault_def Let_def split: if_splits)

section \<open>The sandbox thread\<close>

text \<open>
  What the system answers. \<open>we_event env n\<close> is what the sandbox thread does after \<open>n\<close> completed steps while
  its trap flag is set: it raises an exception, or it exits (through a system call of the traced code).
  A reservation that fails is the null pointer.
\<close>

datatype thread_event = Raised ExceptionRecord CONTEXT | ThreadExited

record WinEnv =
  we_host :: HostEnv
  we_page_size :: u64
  we_buffer :: u64
  we_stack :: u64
  we_data :: u64
  we_commit :: "u64 \<Rightarrow> u64 \<Rightarrow> bool"
  we_protect :: bool
  we_flush :: bool
  we_create_thread :: bool
  we_thread_id :: u32
  we_get_context :: "CONTEXT option"
  we_set_context :: bool
  we_add_handler :: bool
  we_resume :: bool
  we_wait :: bool
  we_event :: "nat \<Rightarrow> thread_event"

definition we_instrumented :: "WinEnv \<Rightarrow> bool" where
  "we_instrumented env \<longleftrightarrow> instrumentation_detected (we_host env) = Some True"

text \<open>
  The thread from its resumption to its end. An exception goes to \<open>bme_veh\<close>. When the handler has put the
  saved start-up context back, the thread runs \<open>sandbox_thread_main\<close> and ends; otherwise it executes the
  next instruction with the trap flag set. An exception that the handler passes on is not handled by
  anyone; \<open>sandbox_thread_handled\<close> shows that there is none.
\<close>

function sandbox_thread :: "WinEnv \<Rightarrow> Engine \<Rightarrow> Engine" where
  "sandbox_thread env e =
     (case we_event env (length (eng_raw_steps e)) of
        ThreadExited \<Rightarrow> e
      | Raised record context \<Rightarrow>
          (case bme_veh (we_thread_id env) record context (Some e) of
             (EXCEPTION_CONTINUE_EXECUTION, context', Some e') \<Rightarrow>
               if context' = eng_saved_context e then e' else sandbox_thread env e'
           | _ \<Rightarrow> e))"
  by pat_completeness auto
termination
  by (relation "measure (\<lambda>(env, e). eng_max_steps e - length (eng_raw_steps e))")
    (auto dest!: bme_veh_continues[OF sym])

declare sandbox_thread.simps [simp del]

section \<open>Seeding the thread\<close>

definition mxcsr_mask_of :: "u32 \<Rightarrow> u32" where
  "mxcsr_mask_of m = (if m \<noteq> 0 then m else MXCSR_FALLBACK_MASK)"

definition reset_fpu :: "Registers \<Rightarrow> CONTEXT \<Rightarrow> CONTEXT" where
  "reset_fpu seed c =
     c\<lparr>c_ControlWord := fpu_control_word seed, c_StatusWord := 0, c_TagWord := 0, c_FltMxCsr := mxcsr seed, c_MxCsr := mxcsr seed\<rparr>"

definition seed_fpu :: "Registers \<Rightarrow> CONTEXT \<Rightarrow> CONTEXT" where
  "seed_fpu seed c =
     foldl (\<lambda>c i. if bit (fpu_tag_word_abridged seed) i
         then c\<lparr>c_FloatRegisters := (c_FloatRegisters c)[i := st seed ! i @ drop 10 (c_FloatRegisters c ! i)],
                c_TagWord := c_TagWord c OR push_bit i 1\<rparr> else c)
       ((reset_fpu seed c)\<lparr>c_XmmRegisters := map (\<lambda>i. xmm seed ! i) [0..<16]\<rparr>) [0..<8]"

definition seeded_flags :: "Registers \<Rightarrow> u64" where
  "seeded_flags seed = (reg_get seed RFLAGS AND RFLAGS_STATUS_MASK) OR RFLAGS_RESERVED_BIT1 OR RFLAGS_INTERRUPT_FLAG"

definition seed_context :: "PlatformRunRequest \<Rightarrow> u64 \<Rightarrow> u64 \<Rightarrow> u64 \<Rightarrow> CONTEXT \<Rightarrow> CONTEXT" where
  "seed_context request base initial_rsp data_base c =
     (let seed = req_seed request; pointer = effective_pointer (req_seed_data_pointers request) data_base
      in (seed_fpu seed c)\<lparr>c_Rax := reg_get seed RAX, c_Rbx := reg_get seed RBX, c_Rcx := reg_get seed RCX,
           c_Rdx := reg_get seed RDX, c_Rsi := pointer (reg_get seed RSI), c_Rdi := pointer (reg_get seed RDI),
           c_Rbp := reg_get seed RBP, c_R8 := reg_get seed R8, c_R9 := reg_get seed R9, c_R10 := reg_get seed R10,
           c_R11 := reg_get seed R11, c_R12 := reg_get seed R12, c_R13 := reg_get seed R13, c_R14 := reg_get seed R14,
           c_R15 := reg_get seed R15, c_Rsp := initial_rsp, c_Rip := base,
           c_EFlags := ucast (seeded_flags seed OR RFLAGS_TRAP_FLAG)\<rparr>)"

text \<open>The reported seed, in the two places that fill it in.\<close>

definition seed_addresses :: "PlatformRunRequest \<Rightarrow> u64 \<Rightarrow> u64 \<Rightarrow> u64 \<Rightarrow> Registers \<Rightarrow> Registers" where
  "seed_addresses request base initial_rsp data_base target =
     (let seed = req_seed request; pointer = effective_pointer (req_seed_data_pointers request) data_base;
          target = reg_set target RSP initial_rsp;
          target = reg_set target RDI (pointer (reg_get seed RDI));
          target = reg_set target RSI (pointer (reg_get seed RSI));
          target = reg_set target RIP base
      in reg_set target RFLAGS (seeded_flags seed))"

definition seed_reported_fpu :: "Registers \<Rightarrow> CONTEXT \<Rightarrow> Registers \<Rightarrow> Registers" where
  "seed_reported_fpu seed c target =
     (let target = snapshot_fpu (reset_fpu seed c) target;
          target = target\<lparr>xmm := map (\<lambda>i. xmm seed ! i) [0..<16]\<rparr>;
          target = foldl (\<lambda>target i. if bit (fpu_tag_word_abridged seed) i
                then target\<lparr>st := (st target)[i := st seed ! i]\<rparr> else target) target [0..<8]
      in target\<lparr>fpu_tag_word_abridged := c_TagWord (seed_fpu seed c)\<rparr>)"

section \<open>run\_platform\_steps\<close>

text \<open>
  Besides the result, a run returns the resources it acquired and released, in order, and what it
  leaves in \<open>g_engine\<close>.
\<close>

datatype win_action =
    Reserve u64 | Release u64 | CreateThread | TerminateThread | CloseHandle
  | AddVectoredExceptionHandler | RemoveVectoredExceptionHandler

type_synonym win_result = "PlatformRunResult \<times> win_action list \<times> Engine option"

definition win_regions :: "WinEnv \<Rightarrow> u64 list" where
  "win_regions env = filter (\<lambda>a. a \<noteq> 0) [we_buffer env, we_stack env, we_data env]"

definition release_regions :: "WinEnv \<Rightarrow> win_action list" where
  "release_regions env = map Release (win_regions env)"

definition win_fail :: "WinEnv \<Rightarrow> platform_error \<Rightarrow> PlatformRunResult \<Rightarrow> win_result" where
  "win_fail env error result = (result\<lparr>res_outcome := Error, res_error := Some error\<rparr>, release_regions env, None)"

definition terminate_thread :: "win_action list" where
  "terminate_thread = [TerminateThread, CloseHandle]"

definition win_fail_thread :: "WinEnv \<Rightarrow> platform_error \<Rightarrow> PlatformRunResult \<Rightarrow> win_result" where
  "win_fail_thread env error result =
     (result\<lparr>res_outcome := Error, res_error := Some error\<rparr>, terminate_thread @ release_regions env, None)"

text \<open>The captured steps become the result.\<close>

definition collect_steps :: "Engine \<Rightarrow> PlatformRunResult \<Rightarrow> PlatformRunResult" where
  "collect_steps e result =
     (let steps = map (\<lambda>raw. \<lparr>step_rip = raw_rip raw, step_registers = raw_registers raw, step_faulted = False\<rparr>)
            (eng_raw_steps e);
          faulted = (if eng_outcome e = Faulted
            then [\<lparr>step_rip = eng_fault_address e, step_registers = eng_fault_registers e, step_faulted = True\<rparr>] else []);
          result = result\<lparr>res_steps := res_steps result @ steps @ faulted, res_outcome := eng_outcome e,
            res_stop_address := eng_fault_address e, res_fault_memory_address := eng_fault_memory_address e,
            res_fault_access := eng_fault_access e, res_stopped_at_target := eng_stopped_at_target e\<rparr>
      in if eng_outcome e = Faulted then result\<lparr>res_fault_name := fault_name (eng_fault_code e)\<rparr> else result)"

text \<open>From the installation of the handler on.\<close>

definition win_execute :: "WinEnv \<Rightarrow> Engine \<Rightarrow> PlatformRunResult \<Rightarrow> win_result" where
  "win_execute env e result =
     (if \<not> we_add_handler env then win_fail_thread env ExceptionHandlerFailed result
      else let handler = (\<lambda>(r, acts, g). (r, [AddVectoredExceptionHandler, RemoveVectoredExceptionHandler] @ acts, g));
               e = e\<lparr>eng_active := True\<rparr>
           in if \<not> we_resume env then handler (win_fail_thread env ResumeThreadFailed result)
              else let e = (sandbox_thread env e)\<lparr>eng_active := False\<rparr>
                   in if \<not> we_wait env then handler (win_fail_thread env WaitForSingleObjectFailed result)
                      else handler (collect_steps e result, CloseHandle # release_regions env, None))"

text \<open>From the thread's creation on; \<open>e\<close> is the engine as it was set up.\<close>

definition win_thread :: "WinEnv \<Rightarrow> PlatformRunRequest \<Rightarrow> u64 \<Rightarrow> u64 \<Rightarrow> Engine \<Rightarrow> PlatformRunResult \<Rightarrow> win_result" where
  "win_thread env request initial_rsp data_base e result =
     (let e = e\<lparr>eng_thread_id := we_thread_id env\<rparr>; seed = req_seed request
      in if eng_thread_id e = 0 then win_fail_thread env GetThreadIdFailed result
         else case we_get_context env of
           None \<Rightarrow> win_fail_thread env GetThreadContextFailed result
         | Some context \<Rightarrow>
             let e = e\<lparr>eng_saved_context := context\<rparr>
             in if mxcsr seed AND NOT (mxcsr_mask_of (c_MxCsr_Mask context)) \<noteq> 0
                then win_fail_thread env UnsupportedMXCSR result
                else let result = result\<lparr>res_seed := seed_reported_fpu seed context (res_seed result)\<rparr>
                     in if \<not> we_set_context env then win_fail_thread env SetThreadContextFailed result
                        else if req_stop_offset request = Some 0
                        then (result\<lparr>res_outcome := Stopped, res_stop_address := eng_base e, res_stopped_at_target := True\<rparr>,
                              terminate_thread @ release_regions env, None)
                        else win_execute env e result)"

definition win_engine :: "PlatformRunRequest \<Rightarrow> u64 \<Rightarrow> Engine" where
  "win_engine request base =
     default_engine\<lparr>eng_base := base, eng_code_length := word_of_nat (length (req_code request)),
       eng_max_steps := effective_cap (req_max_steps request),
       eng_target_address := (case req_stop_offset request of None \<Rightarrow> 0 | Some offset \<Rightarrow> base + word_of_nat offset),
       eng_has_target := (req_stop_offset request \<noteq> None), eng_previous_rip := base\<rparr>"

definition win_run :: "WinEnv \<Rightarrow> PlatformRunRequest \<Rightarrow> win_result" where
  "win_run env request =
     (let (prepared, result) = prepare_platform_run (we_instrumented env) request default_result
      in if \<not> prepared then (result, [], None)
         else let page_size = we_page_size env; code_size = word_of_nat (length (req_code request)) :: u64;
                  code_region = page_round code_size page_size;
                  reserved = (\<lambda>(r, acts, g). (r, map Reserve (win_regions env) @ acts, g))
              in if we_buffer env = 0 \<or> we_stack env = 0 \<or> we_data env = 0
                 then reserved (win_fail env VirtualAllocFailed result)
                 else if \<not> (we_commit env (we_buffer env) code_region
                      \<and> we_commit env (we_stack env + page_size) SCRATCH_STACK_BYTES
                      \<and> we_commit env (we_data env + page_size) SCRATCH_DATA_BYTES)
                 then reserved (win_fail env VirtualAllocCommitFailed result)
                 else if \<not> we_protect env then reserved (win_fail env VirtualProtectFailed result)
                 else if \<not> we_flush env then reserved (win_fail env FlushInstructionCacheFailed result)
                 else let initial_rsp = initial_rsp_of (we_stack env) page_size;
                          data_base = we_data env + page_size;
                          base = code_base_of (we_buffer env) code_size page_size;
                          result = result\<lparr>res_seed := seed_addresses request base initial_rsp data_base (res_seed result)\<rparr>
                      in if \<not> we_create_thread env then reserved (win_fail env CreateThreadFailed result)
                         else reserved ((\<lambda>(r, acts, g). (r, CreateThread # acts, g))
                                (win_thread env request initial_rsp data_base (win_engine request base) result)))"

definition run_platform_steps :: "WinEnv \<Rightarrow> PlatformRunRequest \<Rightarrow> PlatformRunResult" where
  "run_platform_steps env request = fst (win_run env request)"

section \<open>The handler records single steps\<close>

definition win_step :: "RawStep \<Rightarrow> PlatformStep" where
  "win_step raw = \<lparr>step_rip = raw_rip raw, step_registers = raw_registers raw, step_faulted = False\<rparr>"

lemma collect_steps_fields [simp]:
  "res_steps (collect_steps e r) = res_steps r @ map win_step (eng_raw_steps e)
     @ (if eng_outcome e = Faulted
        then [\<lparr>step_rip = eng_fault_address e, step_registers = eng_fault_registers e, step_faulted = True\<rparr>] else [])"
  "res_outcome (collect_steps e r) = eng_outcome e" "res_stop_address (collect_steps e r) = eng_fault_address e"
  "res_stopped_at_target (collect_steps e r) = eng_stopped_at_target e" "res_error (collect_steps e r) = res_error r"
  "res_seed (collect_steps e r) = res_seed r"
  "res_instrumentation_detected (collect_steps e r) = res_instrumentation_detected r"
  by (simp_all add: collect_steps_def Let_def win_step_def[abs_def])

text \<open>
  The engine while the thread runs: the captured steps are a running state, \<open>previous_rip\<close> is where the
  next instruction is, the limits are those of the request, and the context to return to has the trap
  flag clear.
\<close>

definition win_invariant :: "WinEnv \<Rightarrow> PlatformRunRequest \<Rightarrow> u64 \<Rightarrow> Engine \<Rightarrow> bool" where
  "win_invariant env request base e \<longleftrightarrow>
     running base (base + word_of_nat (length (req_code request))) (target_of base (req_stop_offset request))
       (effective_cap (req_max_steps request)) (map win_step (eng_raw_steps e))
     \<and> eng_previous_rip e = final_rip base (map win_step (eng_raw_steps e))
     \<and> eng_base e = base \<and> eng_code_length e = word_of_nat (length (req_code request))
     \<and> eng_max_steps e = effective_cap (req_max_steps request)
     \<and> target_of base (req_stop_offset request) = (if eng_has_target e then Some (eng_target_address e) else None)
     \<and> eng_active e \<and> eng_thread_id e = we_thread_id env \<and> \<not> eng_stopped_at_target e
     \<and> c_EFlags (eng_saved_context e) AND ucast RFLAGS_TRAP_FLAG = 0"

lemma rip_snapshot [simp]: "rip (snapshot c r) = c_Rip c"
  by (simp add: snapshot_def snapshot_fpu_def)

lemma trap_flag_set: "c_EFlags (c\<lparr>c_EFlags := c_EFlags c OR ucast RFLAGS_TRAP_FLAG\<rparr>) AND ucast RFLAGS_TRAP_FLAG \<noteq> 0"
  by (simp add: RFLAGS_TRAP_FLAG_def bit.conj_disj_distrib2)

lemma win_out_of_code: "r < base \<or> r \<ge> code_end \<longleftrightarrow> \<not> in_code base code_end r"
  by (auto simp: in_code_def)

definition win_ends :: "PlatformRunRequest \<Rightarrow> u64 \<Rightarrow> Engine \<Rightarrow> bool" where
  "win_ends request base e \<longleftrightarrow>
     (\<forall>result. res_steps result = [] \<longrightarrow>
        ends base (base + word_of_nat (length (req_code request))) (target_of base (req_stop_offset request))
          (effective_cap (req_max_steps request)) (collect_steps e result))"

text \<open>A single step in a running engine: the thread is put back at the target, outside the code or at the cap, or goes on.\<close>

lemma veh_single_step_eq:
  fixes "context" :: CONTEXT
  assumes "win_invariant env request base e"
  defines "recorded \<equiv> e\<lparr>eng_raw_steps := eng_raw_steps e
      @ [\<lparr>raw_rip = eng_previous_rip e, raw_registers = snapshot context default_registers\<rparr>]\<rparr>"
  shows "veh_single_step context e
    = (if target_of base (req_stop_offset request) = Some (c_Rip context)
       then (eng_saved_context e, recorded\<lparr>eng_outcome := Stopped, eng_fault_address := c_Rip context, eng_stopped_at_target := True\<rparr>)
       else if \<not> in_code base (base + word_of_nat (length (req_code request))) (c_Rip context)
       then (eng_saved_context e, recorded\<lparr>eng_outcome := Finished\<rparr>)
       else if effective_cap (req_max_steps request) \<le> Suc (length (eng_raw_steps e))
       then (eng_saved_context e, recorded\<lparr>eng_outcome := AbortedCap\<rparr>)
       else (context\<lparr>c_EFlags := c_EFlags context OR ucast RFLAGS_TRAP_FLAG\<rparr>, recorded\<lparr>eng_previous_rip := c_Rip context\<rparr>))"
proof -
  have inv: "eng_base e = base" "eng_code_length e = word_of_nat (length (req_code request))"
    "eng_max_steps e = effective_cap (req_max_steps request)"
    and target: "target_of base (req_stop_offset request) = (if eng_has_target e then Some (eng_target_address e) else None)"
    using assms(1) unfolding win_invariant_def by blast+
  have "eng_has_target e \<and> c_Rip context = eng_target_address e \<longleftrightarrow> target_of base (req_stop_offset request) = Some (c_Rip context)"
    using target by auto
  then show ?thesis unfolding veh_single_step_def Let_def recorded_def by (simp add: inv win_out_of_code)
qed

lemma win_step_ends:
  fixes "context" :: CONTEXT
  assumes "win_invariant env request base e"
  defines "raw \<equiv> \<lparr>raw_rip = eng_previous_rip e, raw_registers = snapshot context default_registers\<rparr>"
  shows "ends_with_step base (base + word_of_nat (length (req_code request))) (target_of base (req_stop_offset request))
      (effective_cap (req_max_steps request)) (map win_step (eng_raw_steps e)) (win_step raw)"
    "rip (step_registers (win_step raw)) = c_Rip context" "length (eng_raw_steps e) < effective_cap (req_max_steps request)"
    "context\<lparr>c_EFlags := c_EFlags context OR ucast RFLAGS_TRAP_FLAG\<rparr> \<noteq> eng_saved_context e"
proof -
  have inv: "running base (base + word_of_nat (length (req_code request))) (target_of base (req_stop_offset request))
      (effective_cap (req_max_steps request)) (map win_step (eng_raw_steps e))"
    "eng_previous_rip e = final_rip base (map win_step (eng_raw_steps e))" "c_EFlags (eng_saved_context e) AND ucast RFLAGS_TRAP_FLAG = 0"
    using assms(1) unfolding win_invariant_def by blast+
  then show "ends_with_step base (base + word_of_nat (length (req_code request))) (target_of base (req_stop_offset request))
      (effective_cap (req_max_steps request)) (map win_step (eng_raw_steps e)) (win_step raw)"
    "length (eng_raw_steps e) < effective_cap (req_max_steps request)"
    by (simp_all add: ends_with_step_def win_step_def raw_def running_def)
  show "rip (step_registers (win_step raw)) = c_Rip context" by (simp add: win_step_def raw_def)
  show "context\<lparr>c_EFlags := c_EFlags context OR ucast RFLAGS_TRAP_FLAG\<rparr> \<noteq> eng_saved_context e"
    using inv(3) trap_flag_set[of "context"] by metis
qed

lemma veh_single_step_invariant:
  assumes "win_invariant env request base e" "veh_single_step context e = (context', e')"
  shows "context' = eng_saved_context e \<Longrightarrow> win_ends request base e'"
    and "context' \<noteq> eng_saved_context e \<Longrightarrow> win_invariant env request base e'"
proof -
  let ?stop = "base + word_of_nat (length (req_code request))" and ?target = "target_of base (req_stop_offset request)"
  note step = win_step_ends(1,2,4)[OF assms(1), of "context"] win_step_ends(3)[OF assms(1)]
    and eq = assms(2)[unfolded veh_single_step_eq[OF assms(1)]]
  show "win_ends request base e'" if "context' = eng_saved_context e"
    unfolding win_ends_def
  proof (intro allI impI)
    fix result :: PlatformRunResult
    assume none: "res_steps result = []"
    show "ends base ?stop ?target (effective_cap (req_max_steps request)) (collect_steps e' result)"
    proof (cases "?target = Some (c_Rip context)")
      case True
      show ?thesis by (rule ends.at_target[OF step(1)]) (use True eq step(2) none in auto)
    next
      case target: False
      show ?thesis
      proof (cases "in_code base ?stop (c_Rip context)")
        case False
        show ?thesis by (rule ends.finished[OF step(1)]) (use target False eq step(2) none in auto)
      next
        case True
        show ?thesis by (rule ends.capped[OF step(1)]) (use target True eq step(2-4) that none in \<open>auto split: if_splits\<close>)
      qed
    qed
  qed
  show "win_invariant env request base e'" if "context' \<noteq> eng_saved_context e"
    using that assms(1) eq step(2) running_snoc[OF step(1)] by (auto simp: win_invariant_def split: if_splits)
qed

lemma bme_veh_invariant:
  assumes "win_invariant env request base e"
    and "bme_veh (we_thread_id env) record context (Some e) = (d, context', g)"
  shows "d = EXCEPTION_CONTINUE_EXECUTION" "g \<noteq> None"
    and "g = Some e' \<Longrightarrow> context' = eng_saved_context e \<Longrightarrow> win_ends request base e'"
    and "g = Some e' \<Longrightarrow> context' \<noteq> eng_saved_context e \<Longrightarrow> win_invariant env request base e'"
proof -
  let ?stop = "base + word_of_nat (length (req_code request))" and ?target = "target_of base (req_stop_offset request)"
  have run: "running base ?stop ?target (effective_cap (req_max_steps request)) (map win_step (eng_raw_steps e))"
    and prev: "eng_previous_rip e = final_rip base (map win_step (eng_raw_steps e))" and nt: "\<not> eng_stopped_at_target e"
    and veh: "eng_active e" "we_thread_id env = eng_thread_id e"
    using assms(1) by (auto simp: win_invariant_def)
  show "d = EXCEPTION_CONTINUE_EXECUTION" "g \<noteq> None"
    using assms(2) veh by (auto simp: bme_veh_def case_prod_beta)
  let ?b = "e\<lparr>eng_outcome := Stopped, eng_fault_address := eng_previous_rip e\<rparr>"
  have bp: "win_ends request base ?b"
    unfolding win_ends_def by (intro allI impI, rule ends.breakpoint[OF run]) (use prev nt in simp_all)
  have flt: "win_ends request base (snd (veh_fault record context e))"
    unfolding win_ends_def
    by (intro allI impI, rule ends.faulted[OF run, where s = "\<lparr>step_rip = exc_address record,
          step_registers = snapshot context (eng_fault_registers e), step_faulted = True\<rparr>"])
      (simp_all add: veh_fault_def Let_def)
  have fc: "fst (veh_fault record context e) = eng_saved_context e" by (simp add: veh_fault_def Let_def)
  consider (step) "exc_code record = EXCEPTION_SINGLE_STEP" | (bp) "exc_code record = EXCEPTION_BREAKPOINT"
    | (flt) "exc_code record \<noteq> EXCEPTION_SINGLE_STEP" "exc_code record \<noteq> EXCEPTION_BREAKPOINT" by blast
  note code = this
  have "(context' = eng_saved_context e \<longrightarrow> win_ends request base e')
    \<and> (context' \<noteq> eng_saved_context e \<longrightarrow> win_invariant env request base e')" if g: "g = Some e'"
  proof (cases rule: code)
    case step
    then have "veh_single_step context e = (context', e')"
      using assms(2) veh g by (simp add: bme_veh_def case_prod_beta prod_eq_iff)
    note v = veh_single_step_invariant[OF assms(1) this]
    show ?thesis using v by blast
  next
    case bp
    then have "context' = eng_saved_context e" "e' = ?b" using assms(2) veh g by (simp_all add: bme_veh_def)
    then show ?thesis using \<open>win_ends request base ?b\<close> by simp_all
  next
    case flt
    then have "context' = eng_saved_context e" "e' = snd (veh_fault record context e)"
      using assms(2) veh g fc by (auto simp: bme_veh_def case_prod_beta)
    then show ?thesis
      using \<open>win_ends request base (snd (veh_fault record context e))\<close> by simp_all
  qed
  then show "g = Some e' \<Longrightarrow> context' = eng_saved_context e \<Longrightarrow> win_ends request base e'"
    "g = Some e' \<Longrightarrow> context' \<noteq> eng_saved_context e \<Longrightarrow> win_invariant env request base e'" by blast+
qed

text \<open>The thread never exits on its own, so that it ends when the handler has put the saved context back.\<close>

definition no_exit :: "WinEnv \<Rightarrow> bool" where
  "no_exit env \<longleftrightarrow> (\<forall>n. we_event env n \<noteq> ThreadExited)"

lemma sandbox_thread_ends:
  "no_exit env \<Longrightarrow> win_invariant env request base e \<Longrightarrow> win_ends request base (sandbox_thread env e)"
proof (induction env e rule: sandbox_thread.induct)
  case (1 env e)
  obtain r c where ev: "we_event env (length (eng_raw_steps e)) = Raised r c"
    using 1(2) by (cases "we_event env (length (eng_raw_steps e))") (auto simp: no_exit_def)
  obtain d context' g where v: "bme_veh (we_thread_id env) r c (Some e) = (d, context', g)" by (metis prod_cases3)
  note inv = bme_veh_invariant[OF 1(3) v]
  from inv(1,2) obtain e' where d: "d = EXCEPTION_CONTINUE_EXECUTION" "g = Some e'" by blast
  show ?case
    using inv(3,4)[OF d(2)] 1(1)[OF ev v[symmetric] d(1) refl d(2)] 1(2)
    by (subst sandbox_thread.simps) (simp add: ev v d)
qed

section \<open>The contract\<close>

definition thread_ok :: "WinEnv \<Rightarrow> bool" where
  "thread_ok env \<longleftrightarrow> no_exit env
     \<and> (case we_get_context env of None \<Rightarrow> True | Some c \<Rightarrow> c_EFlags c AND ucast RFLAGS_TRAP_FLAG = 0)"

definition fresh_result :: "u64 \<Rightarrow> PlatformRunResult \<Rightarrow> bool" where
  "fresh_result base result \<longleftrightarrow> res_error result = None \<and> res_steps result = [] \<and> \<not> res_stopped_at_target result
     \<and> \<not> res_instrumentation_detected result \<and> rip (res_seed result) = base"

lemma rip_foldl_st: "rip (foldl (\<lambda>t i. if p i then t\<lparr>st := g t i\<rparr> else t) t is) = rip t"
  by (induction "is" arbitrary: t) auto

lemma rip_seed_reported_fpu [simp]: "rip (seed_reported_fpu seed c target) = rip target"
  unfolding seed_reported_fpu_def Let_def by (simp add: rip_foldl_st snapshot_fpu_def del: upt_rec_numeral)

lemma rip_seed_addresses [simp]: "rip (seed_addresses request base rsp db target) = base"
  by (simp add: seed_addresses_def Let_def reg_set_def)

lemma win_fail_contract:
  "\<not> res_instrumentation_detected result \<Longrightarrow> stepper_contract request (fst (win_fail env e result))"
  "\<not> res_instrumentation_detected result \<Longrightarrow> stepper_contract request (fst (win_fail_thread env e result))"
  by (simp_all add: win_fail_def win_fail_thread_def stepper_contract_def)

lemma fst_fst3: "fst ((\<lambda>(r, acts, g). (r, f acts, g)) x) = fst x"
  by (simp add: case_prod_beta)

lemma recording_contract:
  assumes "ends base (base + word_of_nat (length (req_code request))) (target_of base (req_stop_offset request))
      (effective_cap (req_max_steps request)) r"
    and "rip (res_seed r) = base" "res_error r = None" "\<not> res_instrumentation_detected r"
  shows "stepper_contract request r"
  using assms by (simp add: stepper_contract_def recording_def Let_def)

lemma win_execute_contract:
  assumes "no_exit env" "win_invariant env request base (e\<lparr>eng_active := True\<rparr>)" "fresh_result base result"
  shows "stepper_contract request (fst (win_execute env e result))"
proof -
  have "stepper_contract request (collect_steps (sandbox_thread env (e\<lparr>eng_active := True\<rparr>)\<lparr>eng_active := False\<rparr>) result)"
  proof (rule recording_contract)
    have "collect_steps (x\<lparr>eng_active := False\<rparr>) r = collect_steps x r" for x r by (simp add: collect_steps_def)
    then show "ends base (base + word_of_nat (length (req_code request))) (target_of base (req_stop_offset request))
       (effective_cap (req_max_steps request)) (collect_steps (sandbox_thread env (e\<lparr>eng_active := True\<rparr>)\<lparr>eng_active := False\<rparr>) result)"
      using sandbox_thread_ends[OF assms(1,2)] assms(3) by (simp add: win_ends_def fresh_result_def)
  qed (use assms(3) in \<open>simp_all add: fresh_result_def\<close>)
  then show ?thesis
    using assms(3) by (simp add: win_execute_def Let_def case_prod_beta win_fail_contract fresh_result_def)
qed

lemma win_engine_invariant:
  assumes "c_EFlags c AND ucast RFLAGS_TRAP_FLAG = 0"
  shows "win_invariant env request base
    ((win_engine request base)\<lparr>eng_thread_id := we_thread_id env, eng_saved_context := c, eng_active := True\<rparr>)"
proof -
  have "0 < effective_cap n" for n using effective_cap_bounds[of n] by simp
  moreover have "target_of base (req_stop_offset request)
      = (if req_stop_offset request \<noteq> None
         then Some (case req_stop_offset request of None \<Rightarrow> 0 | Some offset \<Rightarrow> base + word_of_nat offset) else None)"
    by (simp add: target_of_def split: option.split)
  ultimately show ?thesis using assms by (simp add: win_invariant_def win_engine_def default_engine_def running_def)
qed

lemma win_thread_contract:
  assumes "thread_ok env" "fresh_result base result"
  shows "stepper_contract request (fst (win_thread env request rsp db (win_engine request base) result))"
proof (cases "we_get_context env")
  case None
  then show ?thesis using assms(2) by (simp add: win_thread_def Let_def win_fail_contract fresh_result_def)
next
  case (Some c)
  let ?e = "(win_engine request base)\<lparr>eng_thread_id := we_thread_id env, eng_saved_context := c\<rparr>"
  let ?r = "result\<lparr>res_seed := seed_reported_fpu (req_seed request) c (res_seed result)\<rparr>"
  have tf: "c_EFlags c AND ucast RFLAGS_TRAP_FLAG = 0" "no_exit env" using assms(1) Some by (simp_all add: thread_ok_def)
  have fresh: "fresh_result base ?r" using assms(2) by (simp add: fresh_result_def)
  have run: "stepper_contract request (fst (win_execute env ?e ?r))"
    by (rule win_execute_contract[OF tf(2) _ fresh]) (use win_engine_invariant[OF tf(1)] in simp)
  have base: "eng_base ?e = base" by (simp add: win_engine_def)
  have start: "stepper_contract request (?r\<lparr>res_outcome := Stopped, res_stop_address := base, res_stopped_at_target := True\<rparr>)"
    if "req_stop_offset request = Some 0"
  proof (rule recording_contract)
    show "ends base (base + word_of_nat (length (req_code request))) (target_of base (req_stop_offset request))
      (effective_cap (req_max_steps request)) (?r\<lparr>res_outcome := Stopped, res_stop_address := base, res_stopped_at_target := True\<rparr>)"
      by (rule ends.at_start) (use fresh that in \<open>simp_all add: fresh_result_def target_of_def\<close>)
  qed (use fresh in \<open>simp_all add: fresh_result_def\<close>)
  show ?thesis
    unfolding win_thread_def Let_def Some
    using run start assms(2) base by (simp add: win_fail_contract fresh_result_def)
qed

lemma win_run_contract:
  assumes "thread_ok env"
  shows "stepper_contract request (run_platform_steps env request)"
proof (cases rule: prepare_platform_run_cases[of request "we_instrumented env"])
  case 4
  let ?r = "default_result\<lparr>res_seed := req_seed request\<rparr>"
  let ?seeded = "\<lambda>base rsp db. ?r\<lparr>res_seed := seed_addresses request base rsp db (res_seed ?r)\<rparr>"
  have ni: "\<not> res_instrumentation_detected ?r" "\<not> res_instrumentation_detected (?seeded base rsp db)" for base rsp db
    by (simp_all add: default_result_def)
  have fresh: "fresh_result base (?seeded base rsp db)" for base rsp db
    by (simp add: fresh_result_def default_result_def)
  show ?thesis
    unfolding run_platform_steps_def win_run_def 4(3) Let_def
    using win_thread_contract[OF assms fresh] win_fail_contract(1)[OF ni(1)] win_fail_contract(1)[OF ni(2)]
    by (simp add: case_prod_beta)
qed (simp_all add: run_platform_steps_def win_run_def stepper_contract_def default_result_def)

lemma windows_stepper: "thread_ok env \<Longrightarrow> stepper (run_platform_steps env)"
  using win_run_contract[of env] by unfold_locales (simp_all add: stepper_contract_def)

section \<open>Resources\<close>

text \<open>Every acquired resource is released as often as it was acquired.\<close>

definition regions_released :: "win_action list \<Rightarrow> bool" where
  "regions_released acts \<longleftrightarrow> (\<forall>a. count_list acts (Release a) = count_list acts (Reserve a))"

definition handles_released :: "win_action list \<Rightarrow> bool" where
  "handles_released acts \<longleftrightarrow> count_list acts CloseHandle = count_list acts CreateThread
     \<and> count_list acts RemoveVectoredExceptionHandler = count_list acts AddVectoredExceptionHandler"

lemma count_list_map_inj: "inj f \<Longrightarrow> count_list (map f xs) (f a) = count_list xs a"
  by (induction xs) (auto simp: inj_eq)

lemma count_list_regions:
  "count_list (map Reserve xs) (Reserve a) = count_list xs a" "count_list (map Release xs) (Release a) = count_list xs a"
  by (rule count_list_map_inj, simp add: inj_def)+

lemma count_list_other:
  "count_list (map Reserve xs) (Release a) = 0" "count_list (map Release xs) (Reserve a) = 0"
  "count_list (map Reserve xs) CloseHandle = 0" "count_list (map Release xs) CloseHandle = 0"
  "count_list (map Reserve xs) CreateThread = 0" "count_list (map Release xs) CreateThread = 0"
  "count_list (map Reserve xs) AddVectoredExceptionHandler = 0" "count_list (map Release xs) AddVectoredExceptionHandler = 0"
  "count_list (map Reserve xs) RemoveVectoredExceptionHandler = 0" "count_list (map Release xs) RemoveVectoredExceptionHandler = 0"
  by (induction xs) auto

text \<open>What \<open>win_thread\<close> does: the handler in a pair, the thread closed once, then the regions.\<close>

lemma win_thread_actions:
  "\<exists>pre. fst (snd (win_thread env request rsp db e result)) = pre @ release_regions env
     \<and> pre \<in> {terminate_thread, [AddVectoredExceptionHandler, RemoveVectoredExceptionHandler] @ terminate_thread,
         [AddVectoredExceptionHandler, RemoveVectoredExceptionHandler, CloseHandle]}"
  by (simp add: win_thread_def win_execute_def Let_def win_fail_thread_def case_prod_beta split: option.split)

lemma win_thread_engine: "snd (snd (win_thread env request rsp db e result)) = None"
  by (simp add: win_thread_def win_execute_def Let_def win_fail_thread_def case_prod_beta split: option.split)

section \<open>The reported seed\<close>

lemma flags_in_32_bits: "(seeded_flags seed OR RFLAGS_TRAP_FLAG) AND mask 32 = seeded_flags seed OR RFLAGS_TRAP_FLAG"
proof -
  have "(x AND RFLAGS_STATUS_MASK) AND mask 32 = x AND RFLAGS_STATUS_MASK" for x
    unfolding and.assoc
    by (simp add: RFLAGS_STATUS_MASK_def mask_eq_exp_minus_1 CF_def PF_def AF_def ZF_def SF_def DF_def OF_def)
  moreover have "RFLAGS_RESERVED_BIT1 AND mask 32 = RFLAGS_RESERVED_BIT1" "RFLAGS_INTERRUPT_FLAG AND mask 32 = RFLAGS_INTERRUPT_FLAG"
    "RFLAGS_TRAP_FLAG AND mask 32 = RFLAGS_TRAP_FLAG"
    by (simp_all add: RFLAGS_RESERVED_BIT1_def RFLAGS_INTERRUPT_FLAG_def RFLAGS_TRAP_FLAG_def mask_eq_exp_minus_1)
  ultimately show ?thesis by (simp only: seeded_flags_def bit.conj_disj_distrib2)
qed

lemma seeded_flags_reported:
  "ucast (ucast (seeded_flags seed OR RFLAGS_TRAP_FLAG) :: u32) AND NOT RFLAGS_TRAP_FLAG = seeded_flags seed"
proof -
  let ?f = "seeded_flags seed"
  have "ucast (ucast (?f OR RFLAGS_TRAP_FLAG) :: u32) = (?f OR RFLAGS_TRAP_FLAG) AND mask 32"
    by (simp add: unsigned_ucast_eq take_bit_eq_mask)
  also have "\<dots> = ?f OR RFLAGS_TRAP_FLAG" by (rule flags_in_32_bits)
  finally have "ucast (ucast (?f OR RFLAGS_TRAP_FLAG) :: u32) AND NOT RFLAGS_TRAP_FLAG = ?f AND NOT RFLAGS_TRAP_FLAG"
    by (simp add: bit.conj_disj_distrib2)
  then show ?thesis using seeded_flags_no_trap by (simp add: seeded_flags_def)
qed

lemma foldl_seed_float:
  "foldl (\<lambda>c i. if p i then c\<lparr>c_FloatRegisters := (c_FloatRegisters c)[i := new i @ drop 10 (c_FloatRegisters c ! i)],
       c_TagWord := c_TagWord c OR push_bit i 1\<rparr> else c) c is
   = c\<lparr>c_FloatRegisters := foldl (\<lambda>xs i. if p i then xs[i := new i @ drop 10 (xs ! i)] else xs) (c_FloatRegisters c) is,
       c_TagWord := foldl (\<lambda>t i. if p i then t OR push_bit i 1 else t) (c_TagWord c) is\<rparr>"
  by (induction "is" arbitrary: c) auto

lemma seed_fpu_fields:
  assumes "wf_context c"
  shows "c_ControlWord (seed_fpu seed c) = fpu_control_word seed" "c_StatusWord (seed_fpu seed c) = 0"
    "c_MxCsr (seed_fpu seed c) = mxcsr seed" "c_XmmRegisters (seed_fpu seed c) = map (\<lambda>i. xmm seed ! i) [0..<16]"
    "c_FloatRegisters (seed_fpu seed c) = map (\<lambda>i. if bit (fpu_tag_word_abridged seed) i
        then st seed ! i @ drop 10 (c_FloatRegisters c ! i) else c_FloatRegisters c ! i) [0..<8]"
  using assms unfolding seed_fpu_def wf_context_def reset_fpu_def
  by (simp_all add: foldl_seed_float foldl_list_prefix_8 del: upt_rec_numeral)

lemma seed_reported_eq:
  assumes "wf_context c" "seed = req_seed request"
  shows "seed_reported_fpu seed c (seed_addresses request base initial_rsp data_base seed) =
    \<lparr>gpr = (gpr seed)[7 := initial_rsp,
        5 := effective_pointer (req_seed_data_pointers request) data_base (gpr seed ! 5),
        4 := effective_pointer (req_seed_data_pointers request) data_base (gpr seed ! 4)],
      rip = base, rflags = seeded_flags seed, xmm = map (\<lambda>i. xmm seed ! i) [0..<16], mxcsr = mxcsr seed,
      st = map (\<lambda>i. if bit (fpu_tag_word_abridged seed) i then st seed ! i else take 10 (c_FloatRegisters c ! i)) [0..<8],
      fpu_control_word = fpu_control_word seed, fpu_status_word = 0,
      fpu_tag_word_abridged = c_TagWord (seed_fpu seed c)\<rparr>"
  using assms unfolding seed_reported_fpu_def seed_addresses_def snapshot_fpu_def Let_def reset_fpu_def
  by (simp add: foldl_reported_st foldl_list_set_8 reg_set_def reg_get_def del: upt_rec_numeral)

lemma win_seed_matches:
  assumes "wf_registers (req_seed request)" "wf_context c"
  shows "snapshot (seed_context request base initial_rsp data_base c) default_registers
    = seed_reported_fpu (req_seed request) c (seed_addresses request base initial_rsp data_base (req_seed request))"
proof -
  let ?seed = "req_seed request" and ?c = "seed_fpu (req_seed request) c"
  have len: "length (gpr ?seed) = 16" and st: "\<forall>i<8. length (st ?seed ! i) = 10"
    using assms(1) by (auto simp: wf_registers_def)
  have stf: "map (\<lambda>i. take 10 (c_FloatRegisters ?c ! i)) [0..<8]
      = map (\<lambda>i. if bit (fpu_tag_word_abridged ?seed) i then st ?seed ! i else take 10 (c_FloatRegisters c ! i)) [0..<8]"
    using st by (intro map_cong) (simp_all add: seed_fpu_fields[OF assms(2)] del: upt_rec_numeral)
  have xm: "map (\<lambda>i. c_XmmRegisters ?c ! i) [0..<16] = map (\<lambda>i. xmm ?seed ! i) [0..<16]"
    by (intro map_cong) (simp_all add: seed_fpu_fields[OF assms(2)] del: upt_rec_numeral)
  show ?thesis
    unfolding seed_reported_eq[OF assms(2) refl] snapshot_def snapshot_fpu_def gpr_reported_seed[OF len]
    by (simp add: stf xm seed_fpu_fields(1-3)[OF assms(2)] default_registers_def seed_context_def Let_def reg_get_def
        seeded_flags_reported del: upt_rec_numeral)
qed

section \<open>Runs that start\<close>

text \<open>Every call up to the resumption of the thread succeeds, and so does the wait for its end.\<close>

definition win_succeeds :: "WinEnv \<Rightarrow> PlatformRunRequest \<Rightarrow> bool" where
  "win_succeeds env request \<longleftrightarrow> \<not> we_instrumented env \<and> we_buffer env \<noteq> 0 \<and> we_stack env \<noteq> 0 \<and> we_data env \<noteq> 0
     \<and> we_commit env (we_buffer env) (page_round (word_of_nat (length (req_code request))) (we_page_size env))
     \<and> we_commit env (we_stack env + we_page_size env) SCRATCH_STACK_BYTES
     \<and> we_commit env (we_data env + we_page_size env) SCRATCH_DATA_BYTES
     \<and> we_protect env \<and> we_flush env \<and> we_create_thread env \<and> we_thread_id env \<noteq> 0
     \<and> (case we_get_context env of None \<Rightarrow> False
        | Some c \<Rightarrow> mxcsr (req_seed request) AND NOT (mxcsr_mask_of (c_MxCsr_Mask c)) = 0)
     \<and> we_set_context env \<and> we_add_handler env \<and> we_resume env \<and> we_wait env"

definition win_code_base :: "WinEnv \<Rightarrow> PlatformRunRequest \<Rightarrow> u64" where
  "win_code_base env request = code_base_of (we_buffer env) (word_of_nat (length (req_code request))) (we_page_size env)"

definition win_started :: "WinEnv \<Rightarrow> PlatformRunRequest \<Rightarrow> CONTEXT \<Rightarrow> PlatformRunResult" where
  "win_started env request c =
     default_result\<lparr>res_seed := seed_reported_fpu (req_seed request) c (seed_addresses request (win_code_base env request)
       (initial_rsp_of (we_stack env) (we_page_size env)) (we_data env + we_page_size env) (req_seed request))\<rparr>"

definition win_start_engine :: "WinEnv \<Rightarrow> PlatformRunRequest \<Rightarrow> CONTEXT \<Rightarrow> Engine" where
  "win_start_engine env request c = (win_engine request (win_code_base env request))
     \<lparr>eng_thread_id := we_thread_id env, eng_saved_context := c, eng_active := True\<rparr>"

lemma win_run_started:
  assumes "win_succeeds env request" "we_get_context env = Some c" "request_ok request"
  shows "run_platform_steps env request
    = (if req_stop_offset request = Some 0
       then (win_started env request c)\<lparr>res_outcome := Stopped, res_stop_address := win_code_base env request, res_stopped_at_target := True\<rparr>
       else collect_steps (sandbox_thread env (win_start_engine env request c)) (win_started env request c))"
proof -
  have e: "\<not> we_instrumented env" "we_buffer env \<noteq> 0" "we_stack env \<noteq> 0" "we_data env \<noteq> 0"
    "we_commit env (we_buffer env) (page_round (word_of_nat (length (req_code request))) (we_page_size env))"
    "we_commit env (we_stack env + we_page_size env) SCRATCH_STACK_BYTES"
    "we_commit env (we_data env + we_page_size env) SCRATCH_DATA_BYTES"
    "we_protect env" "we_flush env" "we_create_thread env" "we_thread_id env \<noteq> 0" "we_set_context env" "we_add_handler env"
    "we_resume env" "we_wait env" "mxcsr (req_seed request) AND NOT (mxcsr_mask_of (c_MxCsr_Mask c)) = 0"
    using assms(1,2) by (simp_all add: win_succeeds_def)
  have inactive: "collect_steps (x\<lparr>eng_active := False\<rparr>) r = collect_steps x r" for x r by (simp add: collect_steps_def)
  have engine: "(win_engine request base)\<lparr>eng_thread_id := t, eng_saved_context := c, eng_active := a\<rparr>
    = (win_engine request base)\<lparr>eng_active := a, eng_thread_id := t, eng_saved_context := c\<rparr>" for base t a by simp
  have b: "eng_base (win_engine request base) = base" for base by (simp add: win_engine_def)
  show ?thesis
    by (simp add: run_platform_steps_def win_run_def e prepare_platform_run_ok[OF assms(3)] Let_def case_prod_beta
        win_thread_def assms(2) win_execute_def win_started_def win_start_engine_def win_code_base_def inactive b)
qed

lemma res_seed_win_started:
  "res_seed (win_started env request c) = seed_reported_fpu (req_seed request) c (seed_addresses request (win_code_base env request)
       (initial_rsp_of (we_stack env) (we_page_size env)) (we_data env + we_page_size env) (req_seed request))"
  by (simp add: win_started_def)

section \<open>Properties\<close>

text \<open>
  C8: the trace that the engine returns on Windows. As long as the traced code does not end its own
  thread (and a new thread starts with the trap flag clear), the run returns and the trace is a failure
  with an error and without events, or a chain of completed events from the code base, at most one
  faulted event after it, and outcome, stop reason, stop address and message of the point where the
  chain ends: the same contract as on Linux.
\<close>

theorem windows_engine_trace:
  assumes "thread_ok env"
  shows "let t = run_engine host (run_platform_steps env) code seed max_steps backend syn seed_data_pointers stop_offset
   in trace_code t = code \<and> trace_effective_max_steps t = effective_cap max_steps
     \<and> (trace_failed t \<or> (\<exists>events. trace_of_run t stop_offset events))"
  unfolding Let_def by (rule stepper.run_engine_trace[OF windows_stepper[OF assms]])

text \<open>
  C26: the run on a cooperative Windows system: when the request is valid, no instrumentation is detected, the
  processor supports the MXCSR seed, every call succeeds, the thread starts with its trap flag clear and the traced
  code does not end the thread itself, \<open>run_platform_steps\<close> returns without an error and its result is a
  recording of single steps.
\<close>

theorem windows_run_completes:
  assumes "win_succeeds env request" "thread_ok env" "request_ok request"
  shows "res_error (run_platform_steps env request) = None \<and> recording request (run_platform_steps env request)"
proof -
  obtain c where "we_get_context env = Some c"
    using assms(1) by (auto simp: win_succeeds_def split: option.splits)
  from win_run_started[OF assms(1) this assms(3)]
  have "res_error (run_platform_steps env request) = None"
    by (simp add: win_started_def default_result_def)
  then show ?thesis using win_run_contract[OF assms(2), of request] by (simp add: stepper_contract_def)
qed

text \<open>
  C27: the seed that a Windows trace reports is what a snapshot of the thread reads after its context has
  been written; only the trap flag, which the written context has set, is masked.
\<close>

theorem windows_seed_reported:
  assumes "win_succeeds env request" "we_get_context env = Some c" "request_ok request"
    and "wf_registers (req_seed request)" "wf_context c"
  shows "res_seed (run_platform_steps env request)
    = snapshot (seed_context request (win_code_base env request) (initial_rsp_of (we_stack env) (we_page_size env))
        (we_data env + we_page_size env) c) default_registers"
  unfolding win_run_started[OF assms(1-3)] win_seed_matches[OF assms(4,5)] by (simp add: res_seed_win_started)

text \<open>
  C28: resources of a Windows run. On every path, error paths included, every reserved region is released,
  the thread's handle is closed once if the thread was created, the exception handler is removed if it
  was installed, and no engine is left behind.
\<close>

theorem windows_resources:
  "let (result, acts, g_engine) = win_run env request
   in regions_released acts \<and> handles_released acts \<and> g_engine = None"
proof -
  have thread: "regions_released (map Reserve (win_regions env) @ CreateThread # acts)
      \<and> handles_released (map Reserve (win_regions env) @ CreateThread # acts)"
    if "acts = fst (snd (win_thread env request rsp db e result))" for acts rsp db e result
    using win_thread_actions[of env request rsp db e result] that
    by (auto simp: regions_released_def handles_released_def release_regions_def terminate_thread_def
        count_list_regions count_list_other)
  have fail: "regions_released (map Reserve (win_regions env) @ release_regions env)
      \<and> handles_released (map Reserve (win_regions env) @ release_regions env)"
    by (simp add: regions_released_def handles_released_def release_regions_def count_list_regions count_list_other)
  have none: "regions_released []" "handles_released []"
    by (simp_all add: regions_released_def handles_released_def)
  show ?thesis
    using thread[OF refl] fail none win_thread_engine
    by (simp add: win_run_def Let_def case_prod_beta win_fail_def)
qed

text \<open>
  C29: code that ends its own thread. If the sandbox thread exits before its first step completes, the
  result has outcome Finished, no steps and no error, although no instruction has left the input: the
  outcome is the one the engine was initialised with.
\<close>

theorem windows_thread_exit_reported_finished:
  assumes "win_succeeds env request" "request_ok request" "req_stop_offset request \<noteq> Some 0" "we_event env 0 = ThreadExited"
  shows "res_outcome (run_platform_steps env request) = Finished \<and> res_steps (run_platform_steps env request) = []
    \<and> res_error (run_platform_steps env request) = None"
proof -
  obtain c where c: "we_get_context env = Some c"
    using assms(1) by (auto simp: win_succeeds_def split: option.splits)
  have "eng_raw_steps (win_start_engine env request c) = []" "eng_outcome (win_start_engine env request c) = Finished"
    by (simp_all add: win_start_engine_def win_engine_def default_engine_def)
  moreover from this have "sandbox_thread env (win_start_engine env request c) = win_start_engine env request c"
    using assms(4) by (subst sandbox_thread.simps) simp
  ultimately show ?thesis
    using win_run_started[OF assms(1) c assms(2)] assms(3) by (simp add: win_started_def default_result_def)
qed

text \<open>A cooperative system that runs a two-byte program to its end, and one whose thread exits at once.\<close>

definition example_context :: CONTEXT where
  "example_context = default_context\<lparr>c_Rip := 0x7FF000, c_EFlags := 0x202\<rparr>"

definition example_env :: WinEnv where
  "example_env = \<lparr>we_host = \<lparr>he_getenv = (\<lambda>_ _. None), he_query_found = False,
       he_query = (\<lambda>_. (STATUS_OTHER, 0)), he_buffer = (\<lambda>_. example_buffer), he_process_id = 12, he_module = (\<lambda>_. False), he_layout = example_layout\<rparr>,
     we_page_size = 0x1000, we_buffer = 0x20000, we_stack = 0x40000, we_data = 0x10000000,
     we_commit = (\<lambda>_ _. True), we_protect = True, we_flush = True, we_create_thread = True, we_thread_id = 7,
     we_get_context = Some example_context, we_set_context = True, we_add_handler = True, we_resume = True, we_wait = True,
     we_event = (\<lambda>n. Raised \<lparr>exc_code = EXCEPTION_SINGLE_STEP, exc_address = 0x21000, exc_information = []\<rparr>
       (default_context\<lparr>c_Rip := 0x21000, c_EFlags := 0x302\<rparr>))\<rparr>"

definition example_request :: PlatformRunRequest where
  "example_request = \<lparr>req_code = [0x90, 0x90], req_seed = default_registers, req_max_steps = 10, req_stop_offset = None,
     req_seed_data_pointers = True\<rparr>"

lemma example_ok: "win_succeeds (example_env\<lparr>we_event := ev\<rparr>) example_request" "thread_ok example_env" "request_ok example_request"
  "wf_registers (req_seed example_request)" "wf_context example_context"
  by (simp_all add: win_succeeds_def we_instrumented_def instrumentation_detected_def environment_present_def
      GetEnvironmentVariableA_def parent_process_is_def thread_ok_def no_exit_def request_ok_def example_env_def example_request_def
      example_context_def default_context_def default_registers_def mxcsr_mask_of_def MXCSR_FALLBACK_MASK_def DEFAULT_MXCSR_def
      RFLAGS_TRAP_FLAG_def wf_registers_def wf_context_def)

lemma example_succeeds: "win_succeeds example_env example_request"
  using example_ok(1)[of "we_event example_env"] by simp

theorem windows_engine_trace_witness:
  "let t = run_engine \<lparr>host_cpu_fingerprint = None, host_page_size = 0x1000, host_granularity = 0x10000\<rparr>
      (run_platform_steps example_env) [0x90, 0x90] default_registers 10 Zydis Intel True None
   in trace_code t = [0x90, 0x90] \<and> trace_effective_max_steps t = effective_cap 10
     \<and> (trace_failed t \<or> (\<exists>events. trace_of_run t None events))"
  by (rule windows_engine_trace[OF example_ok(2)])

theorem windows_run_completes_witness:
  "res_error (run_platform_steps example_env example_request) = None
    \<and> recording example_request (run_platform_steps example_env example_request)"
  by (rule windows_run_completes[OF example_succeeds example_ok(2,3)])

theorem windows_seed_reported_witness:
  "res_seed (run_platform_steps example_env example_request)
    = snapshot (seed_context example_request (win_code_base example_env example_request) (initial_rsp_of 0x40000 0x1000)
        (0x10000000 + 0x1000) example_context) default_registers"
  using windows_seed_reported[OF example_succeeds _ example_ok(3-5)] by (simp add: example_env_def)

theorem windows_thread_exit_reported_finished_witness:
  "res_outcome (run_platform_steps (example_env\<lparr>we_event := \<lambda>n. ThreadExited\<rparr>) example_request) = Finished
    \<and> res_steps (run_platform_steps (example_env\<lparr>we_event := \<lambda>n. ThreadExited\<rparr>) example_request) = []"
  using windows_thread_exit_reported_finished[OF example_ok(1,3), of "\<lambda>n. ThreadExited"] by (simp add: example_request_def)

end
