(* ===== verification/WindowsMemory.thy ===== *)
theory WindowsMemory
  imports Memory Windows
begin

text \<open>
  The memory calls of src/src/os.windows.cpp and the part of its \<open>run_platform_steps\<close> that lays out the sandbox with
  them. The calls of the Windows API are the parameter \<open>WinMemory\<close>; the locale \<open>windows_memory\<close> states what their
  documentation promises, and the memory interface follows from it.
\<close>

section \<open>Memory calls\<close>

text \<open>
  \<open>VirtualAlloc\<close> answers the null pointer when it fails; both values come from \<open>GetSystemInfo\<close>; \<open>VirtualFree\<close> is
  called with \<open>MEM_RELEASE\<close>.
\<close>

datatype allocation_type = MEM_RESERVE | MEM_COMMIT

record WinMemory =
  VirtualAlloc :: "AddressSpace \<Rightarrow> u64 \<Rightarrow> u64 \<Rightarrow> allocation_type \<Rightarrow> page_access \<Rightarrow> u64 \<times> AddressSpace"
  VirtualProtect :: "AddressSpace \<Rightarrow> u64 \<Rightarrow> u64 \<Rightarrow> page_access \<Rightarrow> bool \<times> AddressSpace"
  VirtualFree :: "AddressSpace \<Rightarrow> u64 \<Rightarrow> AddressSpace"
  FlushInstructionCache :: "u64 \<Rightarrow> u64 \<Rightarrow> bool"
  dwPageSize :: u32
  dwAllocationGranularity :: u32

definition vm_alloc :: "WinMemory \<Rightarrow> u64 \<Rightarrow> AddressSpace \<Rightarrow> u64 \<times> AddressSpace" where
  "vm_alloc sys len space = VirtualAlloc sys space 0 len MEM_RESERVE NoAccess"

definition vm_alloc_at :: "WinMemory \<Rightarrow> u64 \<Rightarrow> u64 \<Rightarrow> AddressSpace \<Rightarrow> u64 \<times> AddressSpace" where
  "vm_alloc_at sys address len space = VirtualAlloc sys space address len MEM_RESERVE NoAccess"

definition vm_commit :: "WinMemory \<Rightarrow> u64 \<Rightarrow> u64 \<Rightarrow> VMProtection \<Rightarrow> AddressSpace \<Rightarrow> bool \<times> AddressSpace" where
  "vm_commit sys address len protection space =
     (let (result, space') = VirtualAlloc sys space address len MEM_COMMIT (native_protection protection)
      in (result \<noteq> 0, space'))"

definition vm_protect :: "WinMemory \<Rightarrow> u64 \<Rightarrow> u64 \<Rightarrow> VMProtection \<Rightarrow> AddressSpace \<Rightarrow> bool \<times> AddressSpace" where
  "vm_protect sys address len protection space = VirtualProtect sys space address len (native_protection protection)"

definition vm_free :: "WinMemory \<Rightarrow> u64 \<Rightarrow> u64 \<Rightarrow> AddressSpace \<Rightarrow> AddressSpace" where
  "vm_free sys address len space = (if address \<noteq> 0 then VirtualFree sys space address else space)"

definition vm_page_size :: "WinMemory \<Rightarrow> u64" where
  "vm_page_size sys = ucast (dwPageSize sys)"

definition vm_allocation_granularity :: "WinMemory \<Rightarrow> u64" where
  "vm_allocation_granularity sys = ucast (dwAllocationGranularity sys)"

definition vm_flush_instruction_cache :: "WinMemory \<Rightarrow> u64 \<Rightarrow> u64 \<Rightarrow> bool" where
  "vm_flush_instruction_cache sys address len = FlushInstructionCache sys address len"

section \<open>The memory of a run\<close>

text \<open>The lambda \<open>release_regions\<close>.\<close>

definition release_memory :: "WinMemory \<Rightarrow> u64 \<Rightarrow> u64 \<Rightarrow> u64 \<Rightarrow> u64 \<Rightarrow> u64 \<Rightarrow> AddressSpace \<Rightarrow> AddressSpace" where
  "release_memory sys buffer stack data code_region page_size space =
     vm_free sys data (SCRATCH_DATA_BYTES + page_size * 2)
       (vm_free sys stack (SCRATCH_STACK_BYTES + page_size * 2)
         (vm_free sys buffer (code_region + page_size) space))"

fun commit_all :: "WinMemory \<Rightarrow> (u64 \<times> u64) list \<Rightarrow> AddressSpace \<Rightarrow> bool \<times> AddressSpace" where
  "commit_all sys [] space = (True, space)"
| "commit_all sys ((address, len) # regions) space =
     (case vm_commit sys address len ReadWrite space of
        (False, space') \<Rightarrow> (False, space')
      | (True, space') \<Rightarrow> commit_all sys regions space')"

record WinSandbox =
  box_code_base :: u64
  box_initial_rsp :: u64
  box_data_base :: u64

text \<open>
  From the reservations to the addresses: \<open>None\<close> is a fault while copying the code, \<open>Inl\<close> the error with the memory
  after the release, \<open>Inr\<close> the addresses and the memory of the sandbox.
\<close>

definition sandbox_memory ::
  "WinMemory \<Rightarrow> PlatformRunRequest \<Rightarrow> AddressSpace \<Rightarrow> (platform_error \<times> AddressSpace + WinSandbox \<times> AddressSpace) option" where
  "sandbox_memory sys request space =
     (let page_size = vm_page_size sys;
          code_size = word_of_nat (length (req_code request));
          code_region = page_round code_size page_size;
          (buffer, space) = vm_alloc sys (code_region + page_size) space;
          (stack, space) = vm_alloc sys (SCRATCH_STACK_BYTES + page_size * 2) space;
          (data, space) = vm_alloc_at sys (scratch_reserve_base (vm_allocation_granularity sys)) (SCRATCH_DATA_BYTES + page_size * 2) space;
          fail = (\<lambda>error space. Some (Inl (error, release_memory sys buffer stack data code_region page_size space)));
          code_base = code_base_of buffer code_size page_size
      in if buffer = 0 \<or> stack = 0 \<or> data = 0 then fail VirtualAllocFailed space
         else case commit_all sys [(buffer, code_region), (stack + page_size, SCRATCH_STACK_BYTES),
                (data + page_size, SCRATCH_DATA_BYTES)] space of
             (False, space) \<Rightarrow> fail VirtualAllocCommitFailed space
           | (True, space) \<Rightarrow>
               (case memcpy code_base (req_code request) space of
                  None \<Rightarrow> None
                | Some space \<Rightarrow>
                    (case vm_protect sys buffer code_region ExecuteRead space of
                       (False, space) \<Rightarrow> fail VirtualProtectFailed space
                     | (True, space) \<Rightarrow>
                         if \<not> vm_flush_instruction_cache sys code_base code_size then fail FlushInstructionCacheFailed space
                         else Some (Inr (\<lparr>box_code_base = code_base, box_initial_rsp = initial_rsp_of stack page_size,
                                box_data_base = data + page_size\<rparr>, space)))))"

section \<open>The promises of the API\<close>

text \<open>
  Reservations at an address are rounded down to the allocation granularity and taken there; a commit answers
  the null pointer if it fails and may be called again for the same pages.
\<close>

locale windows_memory =
  fixes sys :: WinMemory and k g :: nat
  assumes exponent: "k \<le> 16" "g \<le> 16"
    and system_info: "dwPageSize sys = 2 ^ k" "dwAllocationGranularity sys = 2 ^ g"
    and reserve_anywhere: "VirtualAlloc sys space 0 len MEM_RESERVE NoAccess = (a, space') \<Longrightarrow> a \<noteq> 0 \<Longrightarrow> reserves (2 ^ k) a len space space'"
    and reserve_there: "VirtualAlloc sys space b len MEM_RESERVE NoAccess = (a, space') \<Longrightarrow> a \<noteq> 0 \<Longrightarrow> b \<noteq> 0 \<Longrightarrow> 2 ^ g dvd unat b \<Longrightarrow>
      a = b \<and> reserves (2 ^ k) a len space space'"
    and commit_pages: "page_aligned (2 ^ k) a \<Longrightarrow> VirtualAlloc sys space a len MEM_COMMIT acc = (r, space') \<Longrightarrow> r \<noteq> 0 \<Longrightarrow>
      protects (2 ^ k) a len acc space space'"
    and protect_pages: "page_aligned (2 ^ k) a \<Longrightarrow> VirtualProtect sys space a len acc = (True, space') \<Longrightarrow>
      protects (2 ^ k) a len acc space space' \<and> space_byte space' = space_byte space"

sublocale windows_memory \<subseteq> vm k g "vm_alloc sys" "vm_alloc_at sys" "vm_commit sys" "vm_protect sys"
proof
  show "k \<le> 16" by (rule exponent)
next
  fix len space a space'
  assume "vm_alloc sys len space = (a, space')" "a \<noteq> 0"
  then show "reserves (2 ^ k) a len space space'"
    using reserve_anywhere by (simp add: vm_alloc_def)
next
  fix b len space a space'
  assume "vm_alloc_at sys b len space = (a, space')" "a \<noteq> 0" "b \<noteq> 0" "2 ^ g dvd unat b"
  then show "a = b \<and> reserves (2 ^ k) a len space space'"
    using reserve_there by (simp add: vm_alloc_at_def)
next
  fix a len prot space space'
  assume "page_aligned (2 ^ k) a" "vm_commit sys a len prot space = (True, space')"
  then show "protects (2 ^ k) a len (native_protection prot) space space'"
    using commit_pages by (auto simp: vm_commit_def split: prod.splits)
next
  fix a len prot space space'
  assume "page_aligned (2 ^ k) a" "vm_protect sys a len prot space = (True, space')"
  then show "protects (2 ^ k) a len (native_protection prot) space space' \<and> space_byte space' = space_byte space"
    using protect_pages by (simp add: vm_protect_def)
qed

context windows_memory begin

lemma system_pages: "vm_page_size sys = 2 ^ k" "vm_allocation_granularity sys = 2 ^ g"
proof -
  have "(ucast (2 ^ n :: u32) :: u64) = 2 ^ n" if "n \<le> 16" for n
    using that by (intro bit_word_eqI) (auto simp: bit_simps)
  then show "vm_page_size sys = 2 ^ k" "vm_allocation_granularity sys = 2 ^ g"
    using exponent by (simp_all add: vm_page_size_def vm_allocation_granularity_def system_info)
qed

lemma run_regions:
  assumes "region_is s0 z" "2 ^ k dvd unat code_region" "unat code_region + 2 ^ k < 2 ^ 64"
    and "vm_alloc sys (code_region + 2 ^ k) s0 = (buffer, s1)" "vm_alloc sys (SCRATCH_STACK_BYTES + 2 ^ k * 2) s1 = (stack, s2)"
      "vm_alloc_at sys (scratch_reserve_base (2 ^ g)) (SCRATCH_DATA_BYTES + 2 ^ k * 2) s2 = (data, s3)" "buffer \<noteq> 0" "stack \<noteq> 0" "data \<noteq> 0"
    and "commit_all sys [(buffer, code_region), (stack + 2 ^ k, SCRATCH_STACK_BYTES), (data + 2 ^ k, SCRATCH_DATA_BYTES)] s3 = (True, s4)"
  shows "regions_ok s4 (z # (buffer, unat code_region + 2 ^ k, override 0 (unat code_region) ReadWriteAccess (\<lambda>_. NoAccess))
      # (stack, 0x10000 + 2 * 2 ^ k, override (2 ^ k) 0x10000 ReadWriteAccess (\<lambda>_. NoAccess))
      # (data, 0x10000 + 2 * 2 ^ k, override (2 ^ k) 0x10000 ReadWriteAccess (\<lambda>_. NoAccess)) # [])"
proof -
  note b = reserve_sandbox[OF assms(1-3) reserve_base_granular[OF exponent(2)] assms(4-9)]
  obtain t1 t2 where "vm_commit sys buffer code_region ReadWrite s3 = (True, t1)"
    "vm_commit sys (stack + 2 ^ k) SCRATCH_STACK_BYTES ReadWrite t1 = (True, t2)"
    "vm_commit sys (data + 2 ^ k) SCRATCH_DATA_BYTES ReadWrite t2 = (True, s4)"
    using assms(10) by (auto split: prod.splits bool.splits)
  from commit_sandbox[OF b(1-4) assms(2) this] show ?thesis .
qed

text \<open>The answers of the reservations and commits decide how the run goes on.\<close>

lemma sandbox_memory_run:
  assumes "code_region = page_round (word_of_nat (length (req_code request))) (2 ^ k)"
    and "vm_alloc sys (code_region + 2 ^ k) space = (buffer, s1)" "vm_alloc sys (SCRATCH_STACK_BYTES + 2 ^ k * 2) s1 = (stack, s2)"
      "vm_alloc_at sys (scratch_reserve_base (2 ^ g)) (SCRATCH_DATA_BYTES + 2 ^ k * 2) s2 = (data, s3)"
      "commit_all sys [(buffer, code_region), (stack + 2 ^ k, SCRATCH_STACK_BYTES), (data + 2 ^ k, SCRATCH_DATA_BYTES)] s3 = (ok, s4)"
  defines "fail error state \<equiv> Some (Inl (error, release_memory sys buffer stack data code_region (2 ^ k) state))"
    and "code_base \<equiv> code_base_of buffer (word_of_nat (length (req_code request))) (2 ^ k)"
  shows "sandbox_memory sys request space =
    (if buffer = 0 \<or> stack = 0 \<or> data = 0 then fail VirtualAllocFailed s3
     else if \<not> ok then fail VirtualAllocCommitFailed s4
     else case memcpy code_base (req_code request) s4 of
         None \<Rightarrow> None
       | Some space \<Rightarrow>
           (case vm_protect sys buffer code_region ExecuteRead space of
              (False, space) \<Rightarrow> fail VirtualProtectFailed space
            | (True, space) \<Rightarrow>
                if \<not> vm_flush_instruction_cache sys code_base (word_of_nat (length (req_code request))) then fail FlushInstructionCacheFailed space
                else Some (Inr (\<lparr>box_code_base = code_base, box_initial_rsp = initial_rsp_of stack (2 ^ k),
                  box_data_base = data + 2 ^ k\<rparr>, space))))"
  unfolding fail_def code_base_def
  by (simp only: sandbox_memory_def Let_def system_pages assms(1)[symmetric] assms(2-5) prod.case) (cases ok, simp_all)

lemma sandbox_memory_layout:
  assumes "4 \<le> k" "length (req_code request) < 2 ^ 63" "region_is space z"
  obtains failed where "sandbox_memory sys request space = Some (Inl failed)"
    | box space' where "sandbox_memory sys request space = Some (Inr (box, space'))"
      "sandbox_layout (2 ^ k) (req_code request) (box_code_base box) (box_initial_rsp box) (box_data_base box) space'"
      "box_data_base box = scratch_data_base (2 ^ g) (2 ^ k)" "region_is space' z"
proof -
  let ?code = "req_code request"
  define code_region where "code_region = page_round (word_of_nat (length ?code)) (2 ^ k)"
  define code_base where "code_base buffer = code_base_of buffer (word_of_nat (length ?code)) (2 ^ k)" for buffer
  note cr = code_region_facts[OF exponent(1) assms(2), folded code_region_def]
  obtain buffer s1 where 1: "vm_alloc sys (code_region + 2 ^ k) space = (buffer, s1)" by fastforce
  obtain stack s2 where 2: "vm_alloc sys (SCRATCH_STACK_BYTES + 2 ^ k * 2) s1 = (stack, s2)" by fastforce
  obtain data s3 where 3: "vm_alloc_at sys (scratch_reserve_base (2 ^ g)) (SCRATCH_DATA_BYTES + 2 ^ k * 2) s2 = (data, s3)" by fastforce
  obtain ok s4 where 4: "commit_all sys [(buffer, code_region), (stack + 2 ^ k, SCRATCH_STACK_BYTES), (data + 2 ^ k, SCRATCH_DATA_BYTES)] s3
      = (ok, s4)" by fastforce
  note run = sandbox_memory_run[OF code_region_def 1 2 3 4, folded code_base_def]
  show thesis
  proof (cases "buffer = 0 \<or> stack = 0 \<or> data = 0 \<or> \<not> ok")
    case True
    then have "\<exists>failed. sandbox_memory sys request space = Some (Inl failed)" by (auto simp: run)
    then show thesis using that(1) by blast
  next
    case False
    then have nz: "buffer \<noteq> 0" "stack \<noteq> 0" "data \<noteq> 0" and ok: "ok = True" by auto
    note b = reserve_sandbox[OF assms(3) cr(1,2) reserve_base_granular[OF exponent(2)] 1 2 3 nz]
    from sandbox_ready[OF assms(1,2) b(2,3), folded code_region_def code_base_def, OF run_regions[OF assms(3) cr(1,2) 1 2 3 nz 4[unfolded ok]]]
    obtain s5 where s5: "memcpy (code_base buffer) ?code s4 = Some s5"
      and final: "\<And>s6. vm_protect sys buffer code_region ExecuteRead s5 = (True, s6) \<Longrightarrow>
        sandbox_layout (2 ^ k) ?code (code_base buffer) (initial_rsp_of stack (2 ^ k)) (data + 2 ^ k) s6 \<and> region_is s6 z"
      by metis
    obtain protected s6 where 6: "vm_protect sys buffer code_region ExecuteRead s5 = (protected, s6)" by fastforce
    show thesis
    proof (cases "protected \<and> vm_flush_instruction_cache sys (code_base buffer) (word_of_nat (length ?code))")
      case False
      then have "\<exists>failed. sandbox_memory sys request space = Some (Inl failed)" using nz ok s5 6 by (cases protected) (auto simp: run)
      then show thesis using that(1) by blast
    next
      case True
      then show thesis using that(2) nz ok s5 6 b(5) final by (simp add: run scratch_data_base_def)
    qed
  qed
qed

end

section \<open>An instance\<close>

text \<open>
  Memory with pages of 4 KiB and a granularity of 64 KiB: reservations are taken where nothing is reserved (at
  an address that depends on the length, if none is asked for), commits where everything is.
\<close>

definition example_windows :: WinMemory where
  "example_windows = \<lparr>
     VirtualAlloc = (\<lambda>space address len type acc.
       let a = (if type = MEM_RESERVE \<and> address = 0 then 0x20000000000 + len * 0x10000 else address); n = pages 4096 len
       in if page_aligned 4096 a \<and> unat a + n \<le> 2 ^ 64 \<and> (\<forall>x. in_range a n x \<longrightarrow> (space_access space x = None) = (type = MEM_RESERVE))
          then (a, set_access a n (Some acc) space) else (0, space)),
     VirtualProtect = (\<lambda>space a len acc.
       if \<forall>x. in_range a (pages 4096 len) x \<longrightarrow> space_access space x \<noteq> None
       then (True, set_access a (pages 4096 len) (Some acc) space) else (False, space)),
     VirtualFree = (\<lambda>space a. space),
     FlushInstructionCache = (\<lambda>a len. True),
     dwPageSize = 0x1000, dwAllocationGranularity = 0x10000\<rparr>"

interpretation example_windows: windows_memory example_windows 12 16
  by unfold_locales
    (auto simp: example_windows_def reserves_def protects_def set_access_def Let_def split: if_splits)

lemma example_reserve:
  assumes "a = (if address = 0 then 0x20000000000 + len * 0x10000 else address)" "page_aligned 4096 a" "unat a + pages 4096 len \<le> 2 ^ 64"
    "\<And>x. in_range a (pages 4096 len) x \<Longrightarrow> space_access space x = None"
  shows "VirtualAlloc example_windows space address len MEM_RESERVE NoAccess = (a, set_access a (pages 4096 len) (Some NoAccess) space)"
  using assms by (simp add: example_windows_def Let_def)

lemma example_commit_pages:
  assumes "a \<noteq> 0" "page_aligned 4096 a" "unat a + pages 4096 len \<le> 2 ^ 64" "\<And>x. in_range a (pages 4096 len) x \<Longrightarrow> space_access space x \<noteq> None"
  shows "vm_commit example_windows a len prot space = (True, set_access a (pages 4096 len) (Some (native_protection prot)) space)"
  using assms by (simp add: vm_commit_def example_windows_def Let_def)

lemma example_run_succeeds: "\<exists>box space'. sandbox_memory example_windows nop_request empty_space = Some (Inr (box, space'))"
proof -
  let ?n = "Some NoAccess" and ?w = "Some ReadWriteAccess"
  define s1 where "s1 = set_access 0x20020000000 0x2000 ?n empty_space"
  define s2 where "s2 = set_access 0x20120000000 0x12000 ?n s1"
  define s3 where "s3 = set_access 0x10000000 0x12000 ?n s2"
  define t1 where "t1 = set_access 0x20020000000 0x1000 ?w s3"
  define t2 where "t2 = set_access 0x20120001000 0x10000 ?w t1"
  define s4 where "s4 = set_access 0x10001000 0x10000 ?w t2"
  note access = s4_def t2_def t1_def s3_def s2_def s1_def set_access_def in_range_def empty_space_def
  note sizes = pages_def page_aligned_def
  have info: "vm_page_size example_windows = 0x1000" "scratch_reserve_base (vm_allocation_granularity example_windows) = 0x10000000"
    by (simp_all add: vm_page_size_def vm_allocation_granularity_def example_windows_def scratch_reserve_base_def SCRATCH_DATA_RESERVE_BASE_def)
  have region: "page_round (word_of_nat (length (req_code nop_request))) 4096 = 0x1000"
    by (simp add: nop_request_def page_round_def)
  have 1: "vm_alloc example_windows 0x2000 empty_space = (0x20020000000, s1)"
    using example_reserve[of _ 0 "0x2000" empty_space] by (simp add: vm_alloc_def sizes s1_def empty_space_def)
  have 2: "vm_alloc example_windows 0x12000 s1 = (0x20120000000, s2)"
    using example_reserve[of _ 0 "0x12000" s1] by (simp add: vm_alloc_def sizes access)
  have 3: "vm_alloc_at example_windows 0x10000000 0x12000 s2 = (0x10000000, s3)"
    using example_reserve[of _ "0x10000000" "0x12000" s2] by (simp add: vm_alloc_at_def sizes access)
  have "vm_commit example_windows 0x20020000000 0x1000 ReadWrite s3 = (True, t1)"
    using example_commit_pages[of "0x20020000000" "0x1000" s3 ReadWrite] by (simp add: sizes access)
  moreover have "vm_commit example_windows 0x20120001000 0x10000 ReadWrite t1 = (True, t2)"
    using example_commit_pages[of "0x20120001000" "0x10000" t1 ReadWrite] by (simp add: sizes access)
  moreover have "vm_commit example_windows 0x10001000 0x10000 ReadWrite t2 = (True, s4)"
    using example_commit_pages[of "0x10001000" "0x10000" t2 ReadWrite] by (simp add: sizes access)
  ultimately have 4: "commit_all example_windows [(0x20020000000, 0x1000), (0x20120001000, 0x10000), (0x10001000, 0x10000)] s3 = (True, s4)"
    by simp
  have s4: "space_access s4 0x20020000FFF = Some ReadWriteAccess" "\<forall>x. in_range 0x20020000000 0x1000 x \<longrightarrow> space_access s4 x \<noteq> None"
    by (simp_all add: access)
  obtain s5 where 5: "memcpy 0x20020000FFF [0x90] s4 = Some s5" "space_access s5 = space_access s4"
    using s4(1) by (simp add: memcpy_def)
  have 6: "vm_protect example_windows 0x20020000000 0x1000 ExecuteRead s5 = (True, set_access 0x20020000000 0x1000 (Some ExecuteReadAccess) s5)"
    using s4(2) 5(2) by (simp add: vm_protect_def example_windows_def sizes)
  have 7: "vm_flush_instruction_cache example_windows a len" for a len
    by (simp add: vm_flush_instruction_cache_def example_windows_def)
  show ?thesis
    using 1 2 3 4 5 6 7 region
    by (simp add: sandbox_memory_def info code_base_of_def nop_request_def SCRATCH_STACK_BYTES_def SCRATCH_DATA_BYTES_def Let_def
        del: commit_all.simps)
qed

section \<open>Properties\<close>

text \<open>
  C39: the sandbox of a Windows run. With an API that keeps its promises, copying the code does not fault,
  and when the setup succeeds code, stack and data are laid out as in the Linux child: executable code that
  holds the input in front of a guard page, writable stack and data between guard pages, an aligned
  stack pointer with its headroom, data where addresses are named from, and no region that was there
  before has changed its protection.
\<close>

theorem windows_sandbox_layout:
  assumes "windows_memory sys k g" "4 \<le> k" "length (req_code request) < 2 ^ 63"
  shows "\<exists>result. sandbox_memory sys request space = Some result
    \<and> (\<forall>box space'. result = Inr (box, space') \<longrightarrow>
         sandbox_layout (2 ^ k) (req_code request) (box_code_base box) (box_initial_rsp box) (box_data_base box) space'
         \<and> box_data_base box = scratch_data_base (vm_allocation_granularity sys) (vm_page_size sys)
         \<and> (\<forall>r. region_is space r \<longrightarrow> region_is space' r))"
proof -
  have empty: "region_is space (0, 0, \<lambda>_. NoAccess)" by (simp add: region_is_def in_range_def)
  have each: "(\<exists>failed. sandbox_memory sys request space = Some (Inl failed))
      \<or> (\<exists>box space'. sandbox_memory sys request space = Some (Inr (box, space'))
        \<and> sandbox_layout (2 ^ k) (req_code request) (box_code_base box) (box_initial_rsp box) (box_data_base box) space'
        \<and> box_data_base box = scratch_data_base (2 ^ g) (2 ^ k) \<and> region_is space' r)" if "region_is space r" for r
    by (rule windows_memory.sandbox_memory_layout[OF assms that]) auto
  then have "sandbox_memory sys request space \<noteq> None" using empty by fastforce
  then show ?thesis using each[OF empty] each by (fastforce simp: windows_memory.system_pages[OF assms(1)])
qed

theorem windows_sandbox_layout_witness:
  "\<exists>box space'. sandbox_memory example_windows nop_request empty_space = Some (Inr (box, space'))
    \<and> sandbox_layout 4096 [0x90] (box_code_base box) (box_initial_rsp box) (box_data_base box) space'"
proof -
  obtain box space' where r: "sandbox_memory example_windows nop_request empty_space = Some (Inr (box, space'))"
    using example_run_succeeds by blast
  have "req_code nop_request = [0x90]" by (simp add: nop_request_def)
  then have "sandbox_layout 4096 [0x90] (box_code_base box) (box_initial_rsp box) (box_data_base box) space'"
    using windows_sandbox_layout[OF example_windows.windows_memory_axioms, of nop_request empty_space] r by auto
  then show ?thesis using r by blast
qed

end
