(* ===== verification/Hex.thy ===== *)
theory Hex
  imports Machine
begin

text \<open>
  The hexadecimal printers of src/src/trace_json.cpp (\<open>hex_digit\<close>, \<open>format_hex\<close>, \<open>format_bytes\<close>,
  \<open>format_xmm\<close>, \<open>format_st\<close>) and the facts that relate what they print to what \<open>from_chars\<close>
  reads back. The parsers of the other theories use these facts for their round trips.
\<close>

section \<open>Printers\<close>

definition HEX_DIGITS :: string where
  "HEX_DIGITS = ''0123456789ABCDEF''"

definition hex_digit :: "u8 \<Rightarrow> char" where
  "hex_digit value = HEX_DIGITS ! unat (value AND 0xF)"

definition format_hex :: "nat \<Rightarrow> u64 \<Rightarrow> string" where
  "format_hex digits value =
     ''0x'' @ map (\<lambda>i. hex_digit (ucast (drop_bit ((digits - i - 1) * 4) value))) [0..<digits]"

definition format_bytes :: "u8 list \<Rightarrow> string" where
  "format_bytes bytes = concat (map (\<lambda>b. [hex_digit (drop_bit 4 b), hex_digit b]) bytes)"

definition format_xmm :: "u64 \<times> u64 \<Rightarrow> string" where
  "format_xmm value =
     ''0x'' @ map (\<lambda>i. hex_digit (ucast (drop_bit ((15 - i) * 4) (snd value)))) [0..<16]
          @ map (\<lambda>i. hex_digit (ucast (drop_bit ((15 - i) * 4) (fst value)))) [0..<16]"

definition format_st :: "u8 list \<Rightarrow> string" where
  "format_st value =
     ''0x'' @ concat (map (\<lambda>i. let byte = value ! (length value - i - 1)
                              in [hex_digit (drop_bit 4 byte), hex_digit byte]) [0..<length value])"

section \<open>Digits on natural numbers\<close>

definition hexchar :: "nat \<Rightarrow> char" where
  "hexchar d = HEX_DIGITS ! (d mod 16)"

fun hex_nat :: "nat \<Rightarrow> nat \<Rightarrow> string" where
  "hex_nat 0 n = []"
| "hex_nat (Suc k) n = hex_nat k (n div 16) @ [hexchar n]"

lemma digit_value_hexchar [simp, chars]: "digit_value (hexchar d) = Some (d mod 16)"
proof -
  have "\<forall>d\<in>set [0..<16]. digit_value (HEX_DIGITS ! d) = Some d" by code_simp
  then show ?thesis by (simp add: hexchar_def)
qed

lemma is_digit_hexchar [simp, chars]: "is_digit_in 16 (hexchar d)"
  by (simp add: is_digit_in_value)

lemma length_hex_nat [simp]: "length (hex_nat k n) = k"
  by (induction k arbitrary: n) auto

lemma hex_nat_digits: "c \<in> set (hex_nat k n) \<Longrightarrow> is_digit_in 16 c"
  by (induction k arbitrary: n) auto

lemma digits_value_hex_nat: "digits_value 16 (hex_nat k n) 0 = n mod 16 ^ k"
proof (induction k arbitrary: n)
  case 0
  then show ?case by simp
next
  case (Suc k)
  have "digits_value 16 (hex_nat (Suc k) n) 0 = (n div 16 mod 16 ^ k) * 16 + n mod 16"
    by (simp add: digits_value_append Suc)
  also have "\<dots> = n mod 16 ^ Suc k"
    by (simp add: mod_mult2_eq[of n 16 "16 ^ k"] mult.commute)
  finally show ?case .
qed

lemma hex_nat_mod: "m \<ge> k \<Longrightarrow> hex_nat k (n mod 16 ^ m) = hex_nat k n"
proof (induction k arbitrary: n m)
  case 0
  then show ?case by simp
next
  case (Suc k)
  then obtain m' where m: "m = Suc m'" "k \<le> m'" by (cases m) auto
  have "n mod 16 ^ m div 16 = n div 16 mod 16 ^ m'"
    using mod_mult2_eq[of n 16 "16 ^ m'"] by (simp add: m)
  moreover have "hexchar (n mod 16 ^ m) = hexchar n"
    by (simp add: hexchar_def m mod_mod_cancel)
  ultimately show ?case using Suc.IH[OF m(2)] by simp
qed

lemma hex_nat_eq_map: "hex_nat k n = map (\<lambda>i. hexchar (n div 16 ^ (k - i - 1))) [0..<k]"
proof (induction k arbitrary: n)
  case 0
  then show ?case by simp
next
  case (Suc k)
  have "hex_nat k (n div 16) = map (\<lambda>i. hexchar (n div 16 ^ (Suc k - i - 1))) [0..<k]"
  proof -
    have "n div 16 div 16 ^ (k - i - 1) = n div 16 ^ (Suc k - i - 1)" if "i < k" for i
    proof -
      have "Suc k - i - 1 = Suc (k - i - 1)" using that by simp
      then show ?thesis by (simp add: div_mult2_eq)
    qed
    then show ?thesis by (simp add: Suc)
  qed
  then show ?case by simp
qed

section \<open>The printers through the natural-number digits\<close>

lemma unat_and_15: "unat (w AND 15 :: u8) = unat w mod 16"
proof -
  have "w AND 15 = take_bit 4 w" by (simp add: take_bit_eq_mask mask_eq_exp_minus_1)
  then show ?thesis by (metis take_bit_eq_mod unsigned_take_bit_eq power_numeral pow.simps sqr.simps
        numeral_code(2) mult_2 numeral_Bit0 numeral_times_numeral)
qed

lemma hex_digit_hexchar: "hex_digit b = hexchar (unat b)"
  by (simp add: hex_digit_def hexchar_def unat_and_15)

lemma unat_ucast_u8: "unat (ucast (w :: u64) :: u8) = unat w mod 256"
  by (simp add: unsigned_ucast_eq take_bit_eq_mod)

lemma hexchar_mod_256: "hexchar (n mod 256) = hexchar n"
  by (simp add: hexchar_def mod_mod_cancel)

lemma pow2_times_4: "(2::nat) ^ (k * 4) = 16 ^ k"
  by (simp add: mult.commute[of k 4] power_mult)

lemma hex_digit_nibble:
  "hex_digit (ucast (drop_bit (k * 4) (w :: u64))) = hexchar (unat w div 16 ^ k)"
  by (simp only: hex_digit_hexchar unat_ucast_u8 hexchar_mod_256 unat_drop_bit pow2_times_4)

lemma format_hex_nat: "format_hex k w = ''0x'' @ hex_nat k (unat w)"
  by (simp only: format_hex_def hex_digit_nibble hex_nat_eq_map)

lemma byte_digits: "[hex_digit (drop_bit 4 b), hex_digit b] = hex_nat 2 (unat b)"
proof -
  have "hex_digit (drop_bit 4 b) = hexchar (unat b div 16)"
    by (simp only: hex_digit_hexchar unat_drop_bit) simp
  then show ?thesis by (simp add: hex_digit_hexchar numeral_2_eq_2)
qed

lemma format_bytes_nat: "format_bytes bytes = concat (map (\<lambda>b. hex_nat 2 (unat b)) bytes)"
  by (simp only: format_bytes_def byte_digits)

lemma format_xmm_nat:
  "format_xmm value = ''0x'' @ hex_nat 16 (unat (snd value)) @ hex_nat 16 (unat (fst value))"
proof -
  have "map (\<lambda>i. hex_digit (ucast (drop_bit ((15 - i) * 4) (w :: u64)))) [0..<16] = hex_nat 16 (unat w)" for w
  proof -
    have "hex_nat 16 (unat w) = map (\<lambda>i. hexchar (unat w div 16 ^ (15 - i))) [0..<16]"
      by (simp only: hex_nat_eq_map) (simp add: diff_diff_left)
    then show ?thesis by (simp only: hex_digit_nibble)
  qed
  then show ?thesis by (simp only: format_xmm_def)
qed

lemma format_st_rev: "format_st value = ''0x'' @ format_bytes (rev value)"
proof -
  have "map (\<lambda>i. value ! (length value - i - 1)) [0..<length value] = rev value"
    by (rule nth_equalityI) (auto simp: rev_nth)
  then have "format_bytes (rev value)
      = concat (map (\<lambda>b. [hex_digit (drop_bit 4 b), hex_digit b])
          (map (\<lambda>i. value ! (length value - i - 1)) [0..<length value]))"
    by (simp only: format_bytes_def)
  also have "\<dots> = concat (map (\<lambda>i. let byte = value ! (length value - i - 1)
        in [hex_digit (drop_bit 4 byte), hex_digit byte]) [0..<length value])"
    by (simp only: map_map comp_def Let_def)
  finally show ?thesis by (simp only: format_st_def)
qed

lemma format_bytes_Cons [simp]:
  "format_bytes (b # bs) = hex_nat 2 (unat b) @ format_bytes bs"
  and format_bytes_Nil [simp]: "format_bytes [] = []"
  by (simp_all add: format_bytes_nat)

lemma length_format_bytes [simp]: "length (format_bytes bs) = 2 * length bs"
  by (induction bs) auto

lemma format_bytes_digits: "c \<in> set (format_bytes bs) \<Longrightarrow> is_digit_in 16 c"
  by (auto simp: format_bytes_nat dest: hex_nat_digits)

text \<open>Reading back what was printed, at the width it was printed with.\<close>

lemma from_chars_all_hex_nat:
  "0 < k \<Longrightarrow> n < 16 ^ k \<Longrightarrow> n < 2 ^ bits \<Longrightarrow> from_chars_all 16 bits (hex_nat k n) = Some n"
  by (auto simp: from_chars_all_iff digits_value_hex_nat dest: hex_nat_digits)
    (metis length_hex_nat list.size(3) less_numeral_extra(3))

lemma from_chars_all_word:
  "0 < k \<Longrightarrow> LENGTH('a) \<le> 4 * k \<Longrightarrow>
   from_chars_all 16 LENGTH('a) (hex_nat k (unat (w :: 'a::len word))) = Some (unat w)"
proof -
  assume k: "0 < k" "LENGTH('a) \<le> 4 * k"
  have "unat w < 2 ^ LENGTH('a)" by (rule unat_lt_2p)
  also have "\<dots> \<le> 2 ^ (k * 4)" using k by (intro power_increasing) auto
  finally have "unat w < 16 ^ k" by (simp only: pow2_times_4)
  then show ?thesis using k by (intro from_chars_all_hex_nat unat_lt_2p)
qed

lemmas from_chars_all_u8 = from_chars_all_word[where 'a = 8 and k = 2, simplified]
lemmas from_chars_all_u64 = from_chars_all_word[where 'a = 64 and k = 16, simplified]

end
