(* ===== verification/FloatText.thy ===== *)
theory FloatText
  imports Text
begin

text \<open>
  Floating-point values as their IEEE bit patterns: std::from_chars into float and double as the
  seed parser uses it, the conversions between float and double, and \<open>double_to_st80\<close> of
  src/src/st80.S, which widens a double to the 80-bit extended format of the x87 registers.
  Arithmetic is exact on natural numbers, so every definition evaluates.
\<close>

unbundle bit_operations_syntax

section \<open>Binary formats\<close>

text \<open>
  A format is given by its precision \<open>p\<close> (53 for double, 24 for float) and the exponent \<open>emin\<close> of
  its least positive value (\<open>2 ^ emin\<close>). The magnitude bits of a finite value \<open>m * 2 ^ e\<close> are
  \<open>(e - emin) * 2 ^ (p - 1) + m\<close>, for subnormal and normal values alike.
\<close>

fun bitlen :: "nat \<Rightarrow> nat" where
  "bitlen n = (if n = 0 then 0 else Suc (bitlen (n div 2)))"

declare bitlen.simps [simp del]

text \<open>Round the positive rational \<open>n / d\<close> to the nearest representable value, ties to even.\<close>

definition round_binary :: "nat \<Rightarrow> int \<Rightarrow> nat \<Rightarrow> nat \<Rightarrow> nat" where
  "round_binary p emin n d =
     (let b = int (bitlen n) - int (bitlen d);
          k = (if d * 2 ^ nat b \<le> n * 2 ^ nat (- b) then b else b - 1);
          e = max (k - int p + 1) emin;
          num = n * 2 ^ nat (- e);
          den = d * 2 ^ nat e;
          q = num div den;
          r = num mod den;
          m = (if den < 2 * r \<or> (2 * r = den \<and> odd q) then q + 1 else q)
      in nat (e - emin) * 2 ^ (p - 1) + m)"

text \<open>Magnitude bits back to significand and exponent.\<close>

definition binary_parts :: "nat \<Rightarrow> int \<Rightarrow> nat \<Rightarrow> nat \<times> int" where
  "binary_parts p emin bits =
     (let ef = bits div 2 ^ (p - 1); f = bits mod 2 ^ (p - 1)
      in if ef = 0 then (f, emin) else (f + 2 ^ (p - 1), emin + int ef - 1))"

definition DOUBLE_INF :: nat where "DOUBLE_INF = 2047 * 2 ^ 52"
definition FLOAT_INF :: nat where "FLOAT_INF = 255 * 2 ^ 23"
definition DOUBLE_NAN :: nat where "DOUBLE_NAN = DOUBLE_INF + 2 ^ 51"
definition FLOAT_NAN :: nat where "FLOAT_NAN = FLOAT_INF + 2 ^ 22"

section \<open>std::from\_chars for floating-point values\<close>

text \<open>Significand, decimal exponent and remaining text of the longest decimal match.\<close>

definition scan_exponent :: "string \<Rightarrow> int \<times> string" where
  "scan_exponent s =
     (case s of
        e # t \<Rightarrow>
          if e = CHR ''e'' \<or> e = CHR ''E''
          then let negative = (t \<noteq> [] \<and> hd t = CHR ''-'');
                   u = (if t \<noteq> [] \<and> (hd t = CHR ''-'' \<or> hd t = CHR ''+'') then tl t else t);
                   digits = takeWhile (is_digit_in 10) u
               in if digits = [] then (0, s)
                  else ((if negative then - 1 else 1) * int (digits_value 10 digits 0),
                        dropWhile (is_digit_in 10) u)
          else (0, s)
      | [] \<Rightarrow> (0, s))"

definition scan_decimal :: "string \<Rightarrow> (nat \<times> int \<times> string) option" where
  "scan_decimal s =
     (let whole = takeWhile (is_digit_in 10) s;
          s1 = dropWhile (is_digit_in 10) s;
          dot = (s1 \<noteq> [] \<and> hd s1 = CHR ''.'');
          fraction = (if dot then takeWhile (is_digit_in 10) (tl s1) else []);
          s2 = (if dot then dropWhile (is_digit_in 10) (tl s1) else s1)
      in if whole = [] \<and> fraction = [] then None
         else let (exponent, s3) = scan_exponent s2
              in Some (digits_value 10 (whole @ fraction) 0, exponent - int (length fraction), s3))"

text \<open>The non-finite spellings that std::from_chars accepts besides decimals.\<close>

definition scan_special :: "nat \<Rightarrow> nat \<Rightarrow> string \<Rightarrow> (nat \<times> string) option" where
  "scan_special infinity nan s =
     (let low = map lowercase s
      in if take 8 low = ''infinity'' then Some (infinity, drop 8 s)
         else if take 3 low = ''inf'' then Some (infinity, drop 3 s)
         else if take 3 low = ''nan''
         then let t = drop 3 s;
                  payload = takeWhile (\<lambda>c. lowercase c \<in> set ''abcdefghijklmnopqrstuvwxyz0123456789_'') (tl t);
                  u = drop (length payload) (tl t)
              in if t \<noteq> [] \<and> hd t = CHR ''('' \<and> u \<noteq> [] \<and> hd u = CHR '')''
                 then Some (nan, tl u) else Some (nan, t)
         else None)"

definition from_chars_binary ::
  "nat \<Rightarrow> int \<Rightarrow> nat \<Rightarrow> nat \<Rightarrow> nat \<Rightarrow> string \<Rightarrow> (errc, nat \<times> string) result" where
  "from_chars_binary p emin infinity nan sign text =
     (let negative = (text \<noteq> [] \<and> hd text = CHR ''-'');
          s = (if negative then tl text else text);
          signed = (\<lambda>bits. if negative then sign + bits else bits)
      in case scan_special infinity nan s of
           Some (bits, rest) \<Rightarrow> Inr (signed bits, rest)
         | None \<Rightarrow>
             (case scan_decimal s of
                None \<Rightarrow> Inl invalid_argument
              | Some (mantissa, exponent, rest) \<Rightarrow>
                  if mantissa = 0 then Inr (signed 0, rest)
                  else let bits = round_binary p emin (mantissa * 10 ^ nat exponent) (10 ^ nat (- exponent))
                       in if bits = 0 \<or> infinity \<le> bits then Inl result_out_of_range
                          else Inr (signed bits, rest)))"

definition from_chars_double :: "string \<Rightarrow> (errc, u64 \<times> string) result" where
  "from_chars_double text =
     map_sum id (map_prod word_of_nat id)
       (from_chars_binary 53 (- 1074) DOUBLE_INF DOUBLE_NAN (2 ^ 63) text)"

definition from_chars_float :: "string \<Rightarrow> (errc, u32 \<times> string) result" where
  "from_chars_float text =
     map_sum id (map_prod word_of_nat id)
       (from_chars_binary 24 (- 149) FLOAT_INF FLOAT_NAN (2 ^ 31) text)"

section \<open>Conversions between float and double\<close>

text \<open>
  \<open>binary_value\<close> gives numerator and denominator of the value with the given magnitude bits. A
  conversion keeps zero, the infinities and the sign, maps a NaN to a quiet NaN with the leading
  fraction bits, and rounds every other value.
\<close>

definition binary_value :: "nat \<Rightarrow> int \<Rightarrow> nat \<Rightarrow> nat \<times> nat" where
  "binary_value p emin bits =
     (let (m, e) = binary_parts p emin bits in (m * 2 ^ nat e, 2 ^ nat (- e)))"

definition float_to_double :: "u32 \<Rightarrow> u64" where
  "float_to_double w =
     (let bits = unat w mod 2 ^ 31; sign = (if 2 ^ 31 \<le> unat w then 2 ^ 63 else 0);
          magnitude =
            (if bits = 0 then 0
             else if bits = FLOAT_INF then DOUBLE_INF
             else if FLOAT_INF < bits
             then DOUBLE_INF + 2 ^ 51 + (bits - FLOAT_INF) mod 2 ^ 22 * 2 ^ 29
             else let (n, d) = binary_value 24 (- 149) bits in round_binary 53 (- 1074) n d)
      in word_of_nat (sign + magnitude))"

definition double_to_float :: "u64 \<Rightarrow> u32" where
  "double_to_float w =
     (let bits = unat w mod 2 ^ 63; sign = (if 2 ^ 63 \<le> unat w then 2 ^ 31 else 0);
          magnitude =
            (if bits = 0 then 0
             else if bits = DOUBLE_INF then FLOAT_INF
             else if DOUBLE_INF < bits
             then FLOAT_INF + 2 ^ 22 + (bits - DOUBLE_INF) mod 2 ^ 51 div 2 ^ 29
             else let (n, d) = binary_value 53 (- 1074) bits
                  in min (round_binary 24 (- 149) n d) FLOAT_INF)
      in word_of_nat (sign + magnitude))"

section \<open>double\_to\_st80\<close>

definition bytes_le :: "nat \<Rightarrow> nat \<Rightarrow> u8 list" where
  "bytes_le count value = map (\<lambda>i. word_of_nat (value div 256 ^ i)) [0..<count]"

text \<open>
  \<open>fldl\<close> then \<open>fstpt\<close>: the significand gets its explicit integer bit, a subnormal is normalised, a
  NaN is made quiet. Low eight bytes are the significand, the last two sign and exponent.
\<close>

definition st80_parts :: "nat \<Rightarrow> nat \<times> nat" where
  "st80_parts bits =
     (let ef = bits div 2 ^ 52; f = bits mod 2 ^ 52
      in if ef = 2047
         then (if f = 0 then 2 ^ 63 else 2 ^ 63 + (if f < 2 ^ 51 then f + 2 ^ 51 else f) * 2 ^ 11, 32767)
         else if ef = 0
         then (if f = 0 then (0, 0) else (f * 2 ^ (64 - bitlen f), bitlen f + 15308))
         else (2 ^ 63 + f * 2 ^ 11, ef + 15360))"

definition double_to_st80 :: "u64 \<Rightarrow> u8 list" where
  "double_to_st80 w =
     (let sign = (if 2 ^ 63 \<le> unat w then 2 ^ 15 else 0);
          (significand, exponent) = st80_parts (unat w mod 2 ^ 63)
      in bytes_le 8 significand @ bytes_le 2 (sign + exponent))"

lemma length_double_to_st80 [simp]: "length (double_to_st80 w) = 10"
  by (simp add: double_to_st80_def bytes_le_def split: prod.splits)

end
