(* ===== verification/Seed.thy ===== *)
theory Seed
  imports Hex FloatText
begin

text \<open>
  Seed text to register values, from src/src/bme_core.cpp: \<open>parse_seed\<close> and its bounded variants,
  decimal seeds, \<open>compose_xmm_seed\<close>, \<open>compose_st_seed\<close>, \<open>compose_gpr_seed\<close> and \<open>compose_seed\<close>.
  Error strings are values of \<open>seed_error\<close>, one constructor per message of the source.
\<close>

section \<open>Errors\<close>

datatype seed_error =
    InvalidHexValue string
  | InvalidMXCSRSeed string
  | InvalidControlWordSeed string
  | InvalidDecimalSeed string string
  | XMMTooManyDigits string
  | XMMExpectedHex string
  | STTooManyDigits string
  | STExpectedHex string

text \<open>An entry of the \<open>errors\<close> vector: a bare message, or one prefixed by a register label.\<close>

datatype seed_message =
    PlainMessage seed_error
  | LabelledMessage string seed_error
  | IndexedMessage string nat seed_error

section \<open>Hexadecimal seeds\<close>

definition hex_prefix_length :: "string \<Rightarrow> nat" where
  "hex_prefix_length text =
     (if 2 \<le> length text \<and> text ! 0 = CHR ''0'' \<and> (text ! 1 = CHR ''x'' \<or> text ! 1 = CHR ''X'')
      then 2 else 0)"

definition parse_seed :: "string \<Rightarrow> (seed_error, u64) result" where
  "parse_seed seed =
     (if seed = [] then Inr 0
      else case from_chars_all 16 64 (drop (hex_prefix_length seed) seed) of
             None \<Rightarrow> Inl (InvalidHexValue seed)
           | Some value \<Rightarrow> Inr (word_of_nat value))"

definition parse_mxcsr_seed :: "string \<Rightarrow> (seed_error, u32) result" where
  "parse_mxcsr_seed text =
     (case parse_seed text of
        Inl _ \<Rightarrow> Inl (InvalidMXCSRSeed text)
      | Inr value \<Rightarrow> if value > MXCSR_DEFINED_MASK then Inl (InvalidMXCSRSeed text) else Inr (ucast value))"

definition parse_fpu_control_word_seed :: "string \<Rightarrow> (seed_error, u16) result" where
  "parse_fpu_control_word_seed text =
     (case parse_seed text of
        Inl _ \<Rightarrow> Inl (InvalidControlWordSeed text)
      | Inr value \<Rightarrow> if value > 0xFFFF then Inl (InvalidControlWordSeed text) else Inr (ucast value))"

section \<open>Decimal seeds\<close>

text \<open>\<open>struct DecimalSeed\<close>: the double by its bits, and whether an \<open>f\<close> suffix was given.\<close>

record DecimalSeed =
  decimal_value :: u64
  is_single :: bool

definition strip_sign :: "string \<Rightarrow> string" where
  "strip_sign text = (if text \<noteq> [] \<and> (hd text = CHR ''+'' \<or> hd text = CHR ''-'') then tl text else text)"

definition is_infinity_text :: "string \<Rightarrow> bool" where
  "is_infinity_text text \<longleftrightarrow>
     ascii_case_insensitive_equal text ''inf'' \<or> ascii_case_insensitive_equal text ''infinity''"

text \<open>
  The value of a non-finite spelling does not depend on \<open>is_single\<close>: a float infinity or quiet NaN
  widens to the double one.
\<close>

definition parse_decimal_seed :: "string \<Rightarrow> string \<Rightarrow> (seed_error, DecimalSeed) result" where
  "parse_decimal_seed original_text label =
     (let infinity_without_suffix = is_infinity_text (strip_sign original_text);
          f_suffix = (\<not> infinity_without_suffix \<and> original_text \<noteq> []
            \<and> (last original_text = CHR ''f'' \<or> last original_text = CHR ''F''));
          l_suffix = (original_text \<noteq> [] \<and> (last original_text = CHR ''l'' \<or> last original_text = CHR ''L''));
          text = (if f_suffix \<or> l_suffix then butlast original_text else original_text);
          single = f_suffix;
          magnitude = strip_sign text;
          negative = (text \<noteq> [] \<and> hd text = CHR ''-'');
          sign = (if negative then 2 ^ 63 else 0)
      in if is_infinity_text magnitude
         then Inr \<lparr>decimal_value = word_of_nat (sign + DOUBLE_INF), is_single = single\<rparr>
         else if ascii_case_insensitive_equal magnitude ''nan''
         then Inr \<lparr>decimal_value = word_of_nat (sign + DOUBLE_NAN), is_single = single\<rparr>
         else if single
         then (case from_chars_float text of
                 Inr (parsed, []) \<Rightarrow> Inr \<lparr>decimal_value = float_to_double parsed, is_single = True\<rparr>
               | _ \<Rightarrow> Inl (InvalidDecimalSeed label original_text))
         else (case from_chars_double text of
                 Inr (parsed, []) \<Rightarrow> Inr \<lparr>decimal_value = parsed, is_single = False\<rparr>
               | _ \<Rightarrow> Inl (InvalidDecimalSeed label original_text)))"

definition is_decimal_seed :: "string \<Rightarrow> bool" where
  "is_decimal_seed text \<longleftrightarrow> CHR ''.'' \<in> set text \<or> (\<exists>c\<in>set text. c \<in> set ''iInN'')"

section \<open>XMM and x87 seeds\<close>

definition compose_xmm_seed :: "string \<Rightarrow> (seed_error, u64 \<times> u64) result" where
  "compose_xmm_seed text =
     (if text = [] then Inr (0, 0)
      else if is_decimal_seed text
      then (case parse_decimal_seed text ''XMM'' of
              Inl e \<Rightarrow> Inl e
            | Inr parsed \<Rightarrow>
                if is_single parsed then Inr (ucast (double_to_float (decimal_value parsed)), 0)
                else Inr (decimal_value parsed, 0))
      else let digits = drop (hex_prefix_length text) text
           in if digits = [] \<or> length digits > 32 then Inl (XMMTooManyDigits text)
              else let low_begin = (if length digits > 16 then length digits - 16 else 0);
                       low = drop low_begin digits;
                       high = take low_begin digits
                   in case from_chars_all 16 64 low of
                        None \<Rightarrow> Inl (XMMExpectedHex text)
                      | Some l \<Rightarrow>
                          if high = [] then Inr (word_of_nat l, 0)
                          else (case from_chars_all 16 64 high of
                                  None \<Rightarrow> Inl (XMMExpectedHex text)
                                | Some h \<Rightarrow> Inr (word_of_nat l, word_of_nat h)))"

text \<open>The loop over the ten digit pairs; byte \<open>9 - i\<close> takes pair \<open>i\<close>.\<close>

function st_pairs :: "string \<Rightarrow> string \<Rightarrow> nat \<Rightarrow> u8 list \<Rightarrow> (seed_error, u8 list) result" where
  "st_pairs text padded i result =
     (if i < 10
      then case from_chars_all 16 8 (take 2 (drop (i * 2) padded)) of
             None \<Rightarrow> Inl (STExpectedHex text)
           | Some v \<Rightarrow> st_pairs text padded (Suc i) (result[9 - i := word_of_nat v])
      else Inr result)"
  by pat_completeness auto
termination
  by (relation "measure (\<lambda>(text, padded, i, result). 10 - i)") auto

declare st_pairs.simps [simp del]

definition compose_st_seed :: "string \<Rightarrow> (seed_error, u8 list) result" where
  "compose_st_seed text =
     (if text = [] then Inr (replicate 10 0)
      else if is_decimal_seed text
      then (case parse_decimal_seed text ''ST'' of
              Inl e \<Rightarrow> Inl e
            | Inr parsed \<Rightarrow> Inr (double_to_st80 (decimal_value parsed)))
      else let digits = drop (hex_prefix_length text) text
           in if digits = [] \<or> length digits > 20 then Inl (STTooManyDigits text)
              else st_pairs text (replicate (20 - length digits) CHR ''0'' @ digits) 0 (replicate 10 0))"

section \<open>General-purpose registers\<close>

definition overlay :: "string \<Rightarrow> u64 \<times> seed_message list \<Rightarrow> string \<times> u64 \<times> nat \<Rightarrow> u64 \<times> seed_message list" where
  "overlay label state part =
     (let (result, errors) = state; (text, msk, shift) = part
      in if text = [] then (result, errors)
         else case parse_seed text of
                Inr value \<Rightarrow> ((result AND NOT msk) OR (push_bit shift value AND msk), errors)
              | Inl e \<Rightarrow> (result, errors @ [LabelledMessage label e]))"

definition compose_gpr_seed :: "GPRSeed \<Rightarrow> string \<Rightarrow> seed_message list \<Rightarrow> u64 \<times> seed_message list" where
  "compose_gpr_seed seed label errors =
     foldl (overlay label) (0, errors)
       [(full seed, NOT 0, 0), (dword seed, 0xFFFFFFFF, 0), (word16 seed, 0xFFFF, 0),
        (byte_high seed, 0xFF00, 8), (byte_low seed, 0xFF, 0)]"

section \<open>The whole register file\<close>

definition seed_environment ::
  "FloatingEnvironmentSeed \<Rightarrow> Registers \<times> seed_message list \<Rightarrow> Registers \<times> seed_message list" where
  "seed_environment env state =
     (let (seed, errors) = state;
          (seed, errors) =
            (if seed_mxcsr env = [] then (seed, errors)
             else case parse_mxcsr_seed (seed_mxcsr env) of
                    Inr value \<Rightarrow> (seed\<lparr>mxcsr := value\<rparr>, errors)
                  | Inl e \<Rightarrow> (seed, errors @ [PlainMessage e]))
      in if seed_fpu_control_word env = [] then (seed, errors)
         else case parse_fpu_control_word_seed (seed_fpu_control_word env) of
                Inr value \<Rightarrow> (seed\<lparr>fpu_control_word := value\<rparr>, errors)
              | Inl e \<Rightarrow> (seed, errors @ [PlainMessage e]))"

definition seed_one_gpr ::
  "GPRSeed list \<Rightarrow> Registers \<times> seed_message list \<Rightarrow> nat \<Rightarrow> Registers \<times> seed_message list" where
  "seed_one_gpr seeds state i =
     (let (seed, errors) = state;
          (value, errors) = compose_gpr_seed (seeds ! i) (REG_NAMES ! i) errors
      in (seed\<lparr>gpr := (gpr seed)[i := value]\<rparr>, errors))"

definition seed_one_xmm ::
  "string list \<Rightarrow> Registers \<times> seed_message list \<Rightarrow> nat \<Rightarrow> Registers \<times> seed_message list" where
  "seed_one_xmm seeds state i =
     (let (seed, errors) = state
      in case compose_xmm_seed (seeds ! i) of
           Inr value \<Rightarrow> (seed\<lparr>xmm := (xmm seed)[i := value]\<rparr>, errors)
         | Inl e \<Rightarrow> (seed, errors @ [IndexedMessage ''XMM'' i e]))"

definition seed_one_st ::
  "string list \<Rightarrow> Registers \<times> seed_message list \<Rightarrow> nat \<Rightarrow> Registers \<times> seed_message list" where
  "seed_one_st seeds state i =
     (let (seed, errors) = state
      in if seeds ! i = [] then (seed, errors)
         else case compose_st_seed (seeds ! i) of
                Inr value \<Rightarrow>
                  (seed\<lparr>st := (st seed)[i := value],
                        fpu_tag_word_abridged := fpu_tag_word_abridged seed OR push_bit i 1\<rparr>, errors)
              | Inl e \<Rightarrow> (seed, errors @ [IndexedMessage ''ST'' i e]))"

definition compose_seed ::
  "GPRSeed list \<Rightarrow> u64 \<Rightarrow> string list \<Rightarrow> string list \<Rightarrow> FloatingEnvironmentSeed \<Rightarrow> seed_message list
   \<Rightarrow> Registers \<times> seed_message list" where
  "compose_seed seed_gpr seed_flags seed_xmm seed_st env errors =
     (let state = seed_environment env (default_registers, errors);
          (seed, errors) = foldl (seed_one_gpr seed_gpr) state [0..<16];
          state = (reg_set seed RFLAGS seed_flags, errors);
          state = foldl (seed_one_xmm seed_xmm) state [0..<16]
      in foldl (seed_one_st seed_st) state [0..<8])"

section \<open>Hexadecimal round trips\<close>

lemma format_bytes_Nil_iff [simp]: "format_bytes bs = [] \<longleftrightarrow> bs = []"
  by (metis length_0_conv length_format_bytes mult_eq_0_iff zero_neq_numeral)

lemma hex_nat_Nil_iff [simp]: "hex_nat k n = [] \<longleftrightarrow> k = 0"
  by (metis length_0_conv length_hex_nat)

lemma hex_prefix_length_0x [simp]: "hex_prefix_length (CHR ''0'' # CHR ''x'' # s) = 2"
  by (simp add: hex_prefix_length_def)

lemma parse_seed_format_hex: "parse_seed (format_hex 16 v) = Inr v"
  by (simp add: parse_seed_def format_hex_nat from_chars_all_u64)

lemma hexdigit_not_decimal [chars]: "is_digit_in 16 c \<Longrightarrow> c \<notin> set ''.iInN''"
proof -
  have "\<forall>c\<in>set ''.iInN''. \<not> is_digit_in 16 c" by code_simp
  then show "is_digit_in 16 c \<Longrightarrow> c \<notin> set ''.iInN''" by blast
qed

lemma hex_text_not_decimal:
  assumes "\<forall>c\<in>set s. is_digit_in 16 c"
  shows "\<not> is_decimal_seed (CHR ''0'' # CHR ''x'' # s)" "\<not> is_decimal_seed s"
  using assms hexdigit_not_decimal by (fastforce simp: is_decimal_seed_def)+

lemma compose_xmm_seed_format_xmm: "compose_xmm_seed (format_xmm v) = Inr v"
proof -
  have "\<not> is_decimal_seed (format_xmm v)"
    unfolding format_xmm_nat append_Cons append_Nil
    by (rule hex_text_not_decimal) (auto dest: hex_nat_digits)
  then show ?thesis
    by (cases v) (simp add: compose_xmm_seed_def format_xmm_nat from_chars_all_u64 Let_def)
qed

lemma st_pairs_format_bytes:
  assumes "padded = format_bytes (rev b)" "length b = 10" "i \<le> 10" "length result = 10"
  shows "st_pairs text padded i result = Inr (take (10 - i) b @ drop (10 - i) result)"
  using assms(3,4)
proof (induction "10 - i" arbitrary: i result)
  case 0
  then show ?case by (subst st_pairs.simps) simp
next
  case (Suc k)
  then have i: "i < 10" by simp
  have "take 2 (drop (i * 2) padded) = hex_nat 2 (unat (b ! (9 - i)))"
  proof -
    have "rev b = take i (rev b) @ (b ! (9 - i)) # drop (Suc i) (rev b)"
      using id_take_nth_drop[of i "rev b"] i assms(2) by (simp add: rev_nth)
    then have p: "padded = format_bytes (take i (rev b)) @ hex_nat 2 (unat (b ! (9 - i)))
        @ format_bytes (drop (Suc i) (rev b))"
      using assms(1) by (metis append.assoc format_bytes_Cons format_bytes_nat map_append concat_append)
    have "length (format_bytes (take i (rev b))) = i * 2" using i assms(2) by simp
    then show ?thesis by (simp add: p)
  qed
  then have "st_pairs text padded i result
      = st_pairs text padded (Suc i) (result[9 - i := b ! (9 - i)])"
    using i by (subst st_pairs.simps) (simp add: from_chars_all_u8)
  also have "\<dots> = Inr (take (10 - Suc i) b @ drop (10 - Suc i) (result[9 - i := b ! (9 - i)]))"
    using Suc i by simp
  also have "take (10 - Suc i) b @ drop (10 - Suc i) (result[9 - i := b ! (9 - i)])
      = take (10 - i) b @ drop (10 - i) result"
  proof -
    have s: "10 - i = Suc (9 - i)" using i by simp
    have "drop (9 - i) (result[9 - i := b ! (9 - i)]) = b ! (9 - i) # drop (10 - i) result"
      using i Suc.prems by (subst Cons_nth_drop_Suc[symmetric]) (simp_all add: s)
    then show ?thesis using i assms(2) by (simp add: s take_Suc_conv_app_nth)
  qed
  finally show ?case .
qed

lemma compose_st_seed_format_st:
  assumes "length b = 10"
  shows "compose_st_seed (format_st b) = Inr b"
proof -
  have "\<not> is_decimal_seed (format_st b)"
    unfolding format_st_rev append_Cons append_Nil
    by (rule hex_text_not_decimal) (auto dest: format_bytes_digits)
  then show ?thesis
    using assms st_pairs_format_bytes[OF refl assms, of 0]
    by (auto simp: compose_st_seed_def format_st_rev Let_def)
qed

interpretation gpr_codec: text_codec "\<lambda>_. True" "format_hex 16" parse_seed
  by unfold_locales (rule parse_seed_format_hex)

interpretation xmm_codec: text_codec "\<lambda>_. True" format_xmm compose_xmm_seed
  by unfold_locales (rule compose_xmm_seed_format_xmm)

interpretation st_codec: text_codec "\<lambda>b. length b = 10" format_st compose_st_seed
  by unfold_locales (rule compose_st_seed_format_st)

section \<open>What a general-purpose register seed means\<close>

definition slice_value :: "string \<Rightarrow> u64 option" where
  "slice_value text =
     (if text = [] then None else case parse_seed text of Inl _ \<Rightarrow> None | Inr v \<Rightarrow> Some v)"

definition gpr_slices :: "GPRSeed \<Rightarrow> (nat \<times> nat \<times> string) list" where
  "gpr_slices seed =
     [(0, 8, byte_low seed), (8, 16, byte_high seed), (0, 16, word16 seed), (0, 32, dword seed),
      (0, 64, full seed)]"

definition gpr_seed_bit :: "GPRSeed \<Rightarrow> nat \<Rightarrow> bool" where
  "gpr_seed_bit seed n =
     (case find (\<lambda>(low, high, text). low \<le> n \<and> n < high \<and> slice_value text \<noteq> None) (gpr_slices seed) of
        None \<Rightarrow> False
      | Some (low, high, text) \<Rightarrow> bit (the (slice_value text)) (n - low))"

definition malformed :: "string list \<Rightarrow> string list" where
  "malformed texts = filter (\<lambda>text. text \<noteq> [] \<and> slice_value text = None) texts"

lemma parse_seed_error: "parse_seed text = Inl e \<Longrightarrow> e = InvalidHexValue text"
  by (auto simp: parse_seed_def split: if_splits option.splits)

lemma fst_overlay:
  "fst (overlay label (r, errs) (text, m, shift)) =
     (case slice_value text of None \<Rightarrow> r | Some v \<Rightarrow> (r AND NOT m) OR (push_bit shift v AND m))"
  by (simp add: overlay_def slice_value_def split: sum.splits)

lemma snd_overlay:
  "snd (overlay label (r, errs) (text, m, shift)) =
     errs @ map (LabelledMessage label \<circ> InvalidHexValue) (malformed [text])"
  by (auto simp: overlay_def slice_value_def malformed_def dest: parse_seed_error split: sum.splits)

lemma bit_mask_overlay:
  fixes r v :: u64
  assumes "\<And>n. bit m n \<longleftrightarrow> shift \<le> n \<and> n < high" "high \<le> 64"
  shows "bit ((r AND NOT m) OR (push_bit shift v AND m)) n \<longleftrightarrow>
     (if shift \<le> n \<and> n < high then bit v (n - shift) else bit r n)"
  using assms(2) by (auto simp: bit_or_iff bit_and_iff bit_not_iff_eq bit_push_bit_iff assms(1)
      dest: bit_imp_le_length)

lemma slice_masks:
  "bit (0xFF :: u64) n \<longleftrightarrow> 0 \<le> n \<and> n < 8"
  "bit (0xFF00 :: u64) n \<longleftrightarrow> 8 \<le> n \<and> n < 16"
  "bit (0xFFFF :: u64) n \<longleftrightarrow> 0 \<le> n \<and> n < 16"
  "bit (0xFFFFFFFF :: u64) n \<longleftrightarrow> 0 \<le> n \<and> n < 32"
  "bit (NOT 0 :: u64) n \<longleftrightarrow> 0 \<le> n \<and> n < 64"
proof -
  have m: "(0xFF :: u64) = mask 8" "(0xFF00 :: u64) = push_bit 8 (mask 8)" "(0xFFFF :: u64) = mask 16"
    "(0xFFFFFFFF :: u64) = mask 32" by (simp_all add: mask_eq_exp_minus_1)
  show "bit (0xFF :: u64) n \<longleftrightarrow> 0 \<le> n \<and> n < 8" "bit (0xFF00 :: u64) n \<longleftrightarrow> 8 \<le> n \<and> n < 16"
    "bit (0xFFFF :: u64) n \<longleftrightarrow> 0 \<le> n \<and> n < 16" "bit (0xFFFFFFFF :: u64) n \<longleftrightarrow> 0 \<le> n \<and> n < 32"
    unfolding m by (auto simp: bit_mask_iff bit_push_bit_iff)
  show "bit (NOT 0 :: u64) n \<longleftrightarrow> 0 \<le> n \<and> n < 64" by simp
qed

lemma bit_overlay:
  assumes "\<And>n. bit m n \<longleftrightarrow> shift \<le> n \<and> n < high" "high \<le> 64"
  shows "bit (fst (overlay label state (text, m, shift))) n \<longleftrightarrow>
     (if shift \<le> n \<and> n < high \<and> slice_value text \<noteq> None then bit (the (slice_value text)) (n - shift)
      else bit (fst state) n)"
  using bit_mask_overlay[OF assms]
  by (cases state; cases "slice_value text") (simp_all add: fst_overlay)

lemmas gpr_overlays = bit_overlay[OF slice_masks(1), simplified] bit_overlay[OF slice_masks(2), simplified]
  bit_overlay[OF slice_masks(3), simplified] bit_overlay[OF slice_masks(4), simplified] bit_overlay[OF slice_masks(5), simplified]

lemma bit_compose_gpr_seed:
  "bit (fst (compose_gpr_seed seed label errs)) n \<longleftrightarrow> gpr_seed_bit seed n"
  by (simp add: compose_gpr_seed_def gpr_overlays gpr_seed_bit_def gpr_slices_def
      if_distrib[where f = "\<lambda>x. case_option _ _ x"] split del: if_split cong: if_cong)

lemma snd_compose_gpr_seed:
  "snd (compose_gpr_seed seed label errs) = errs @ map (LabelledMessage label \<circ> InvalidHexValue)
     (malformed [full seed, dword seed, word16 seed, byte_high seed, byte_low seed])"
proof -
  have step: "snd (overlay label s (t, m, k)) =
     snd s @ map (LabelledMessage label \<circ> InvalidHexValue) (malformed [t])" for s t m k
    by (cases s) (simp add: snd_overlay)
  show ?thesis by (simp add: compose_gpr_seed_def step) (simp add: malformed_def)
qed

section \<open>What a whole seed means\<close>

text \<open>
  The three loops of \<open>compose_seed\<close> visit the slots of one register array in order, update the slot
  and append messages. Such a loop is a fold on the array alone and a concatenation of messages.
\<close>

locale slot_loop =
  fixes step :: "'r \<times> 'm list \<Rightarrow> nat \<Rightarrow> 'r \<times> 'm list"
    and upd :: "('x \<Rightarrow> 'x) \<Rightarrow> 'r \<Rightarrow> 'r"
    and slot :: "nat \<Rightarrow> 'x \<Rightarrow> 'x"
    and messages :: "nat \<Rightarrow> 'm list"
  assumes step: "step (r, errs) i = (upd (slot i) r, errs @ messages i)"
    and upd_upd: "upd f (upd g r) = upd (f \<circ> g) r"
    and upd_id: "upd id r = r"
begin

lemma loop: "foldl step (r, errs) is = (upd (fold slot is) r, errs @ concat (map messages is))"
  by (induction "is" arbitrary: r errs) (simp_all add: upd_id step upd_upd)

end

lemma fold_slots:
  "n \<le> length xs \<Longrightarrow> fold (\<lambda>i xs. xs[i := v i (xs ! i)]) [0..<n] xs
     = map (\<lambda>i. if i < n then v i (xs ! i) else xs ! i) [0..<length xs]"
proof (induction n)
  case 0
  then show ?case by (simp add: map_nth)
next
  case (Suc n)
  then show ?case by (auto intro!: nth_equalityI simp: nth_list_update)
qed

definition gpr_messages :: "GPRSeed list \<Rightarrow> nat \<Rightarrow> seed_message list" where
  "gpr_messages seeds i = snd (compose_gpr_seed (seeds ! i) (REG_NAMES ! i) [])"

definition gpr_seed_value :: "GPRSeed \<Rightarrow> u64" where
  "gpr_seed_value seed = fst (compose_gpr_seed seed [] [])"

definition xmm_seed_value :: "string \<Rightarrow> u64 \<times> u64" where
  "xmm_seed_value seed = (case compose_xmm_seed seed of Inr v \<Rightarrow> v | Inl _ \<Rightarrow> (0, 0))"

definition xmm_messages :: "string list \<Rightarrow> nat \<Rightarrow> seed_message list" where
  "xmm_messages seeds i =
     (case compose_xmm_seed (seeds ! i) of Inr _ \<Rightarrow> [] | Inl e \<Rightarrow> [IndexedMessage ''XMM'' i e])"

definition st_seeded :: "string \<Rightarrow> bool" where
  "st_seeded seed \<longleftrightarrow> seed \<noteq> [] \<and> (case compose_st_seed seed of Inr _ \<Rightarrow> True | Inl _ \<Rightarrow> False)"

definition st_seed_value :: "string \<Rightarrow> u8 list" where
  "st_seed_value seed = (case compose_st_seed seed of Inr v \<Rightarrow> v | Inl _ \<Rightarrow> replicate 10 0)"

definition st_messages :: "string list \<Rightarrow> nat \<Rightarrow> seed_message list" where
  "st_messages seeds i =
     (case compose_st_seed (seeds ! i) of Inr _ \<Rightarrow> [] | Inl e \<Rightarrow> [IndexedMessage ''ST'' i e])"

lemma compose_gpr_seed_eq:
  "compose_gpr_seed seed label errs = (gpr_seed_value seed, errs @ snd (compose_gpr_seed seed label []))"
  by (simp add: gpr_seed_value_def prod_eq_iff snd_compose_gpr_seed bit_eq_iff bit_compose_gpr_seed)

interpretation gpr_loop: slot_loop "seed_one_gpr seeds" gpr_update
  "\<lambda>i xs. xs[i := gpr_seed_value (seeds ! i)]" "gpr_messages seeds"
  for seeds
proof
  fix r :: Registers and errs :: "seed_message list" and i
  show "seed_one_gpr seeds (r, errs) i
      = (gpr_update (\<lambda>xs. xs[i := gpr_seed_value (seeds ! i)]) r, errs @ gpr_messages seeds i)"
    using compose_gpr_seed_eq[of "seeds ! i" "REG_NAMES ! i" errs]
    by (simp add: seed_one_gpr_def gpr_messages_def)
qed simp_all

interpretation xmm_loop: slot_loop "seed_one_xmm seeds" xmm_update
  "\<lambda>i xs. xs[i := case compose_xmm_seed (seeds ! i) of Inr v \<Rightarrow> v | Inl _ \<Rightarrow> xs ! i]" "xmm_messages seeds"
  for seeds
  by unfold_locales
    (simp_all add: seed_one_xmm_def xmm_messages_def split: sum.splits)

text \<open>The third loop updates the x87 registers and the tag byte together.\<close>

definition st_tag_update :: "(u8 list list \<times> u8 \<Rightarrow> u8 list list \<times> u8) \<Rightarrow> Registers \<Rightarrow> Registers" where
  "st_tag_update f r =
     (let (s, t) = f (st r, fpu_tag_word_abridged r) in r\<lparr>st := s, fpu_tag_word_abridged := t\<rparr>)"

definition st_slot :: "string list \<Rightarrow> nat \<Rightarrow> u8 list list \<times> u8 \<Rightarrow> u8 list list \<times> u8" where
  "st_slot seeds i x =
     (if st_seeded (seeds ! i) then ((fst x)[i := st_seed_value (seeds ! i)], snd x OR push_bit i 1) else x)"

interpretation st_loop: slot_loop "seed_one_st seeds" st_tag_update "st_slot seeds" "st_messages seeds"
  for seeds
proof
  fix r :: Registers and errs :: "seed_message list" and i
  show "seed_one_st seeds (r, errs) i = (st_tag_update (st_slot seeds i) r, errs @ st_messages seeds i)"
    by (cases "seeds ! i = []")
      (auto simp: seed_one_st_def st_messages_def st_tag_update_def st_slot_def st_seeded_def
        st_seed_value_def compose_st_seed_def[of "[]"] split: sum.splits)
qed (simp_all add: st_tag_update_def split: prod.splits)

lemma fold_st_slot:
  assumes "n \<le> 8"
  shows "fst (fold (st_slot seeds) [0..<n] (xs, t))
      = fold (\<lambda>i xs. xs[i := if st_seeded (seeds ! i) then st_seed_value (seeds ! i) else xs ! i]) [0..<n] xs"
    and "bit (snd (fold (st_slot seeds) [0..<n] (xs, t))) k \<longleftrightarrow> bit t k \<or> k < n \<and> st_seeded (seeds ! k)"
  using assms
proof (induction n)
  case 0
  {
    case 1
    then show ?case by simp
  next
    case 2
    then show ?case by simp
  }
next
  case (Suc n)
  {
    case 1
    then show ?case using Suc by (simp add: st_slot_def)
  next
    case 2
    have "bit (push_bit n 1 :: u8) k \<longleftrightarrow> k = n" using 2
      by (auto simp: bit_exp_iff)
    then show ?case using Suc(2) 2 by (auto simp: st_slot_def bit_or_iff less_Suc_eq)
  }
qed

text \<open>The meaning of a seed, field by field.\<close>

definition environment_messages :: "FloatingEnvironmentSeed \<Rightarrow> seed_message list" where
  "environment_messages env =
     (case parse_mxcsr_seed (seed_mxcsr env) of Inl e \<Rightarrow> [PlainMessage e] | Inr _ \<Rightarrow> [])
     @ (case parse_fpu_control_word_seed (seed_fpu_control_word env) of Inl e \<Rightarrow> [PlainMessage e] | Inr _ \<Rightarrow> [])"

definition seed_messages ::
  "GPRSeed list \<Rightarrow> string list \<Rightarrow> string list \<Rightarrow> FloatingEnvironmentSeed \<Rightarrow> seed_message list" where
  "seed_messages seed_gpr seed_xmm seed_st env =
     environment_messages env @ concat (map (gpr_messages seed_gpr) [0..<16])
       @ concat (map (xmm_messages seed_xmm) [0..<16]) @ concat (map (st_messages seed_st) [0..<8])"

definition mxcsr_seed_value :: "string \<Rightarrow> u32" where
  "mxcsr_seed_value seed =
     (if seed = [] then DEFAULT_MXCSR
      else case parse_mxcsr_seed seed of Inr v \<Rightarrow> v | Inl _ \<Rightarrow> DEFAULT_MXCSR)"

definition control_word_seed_value :: "string \<Rightarrow> u16" where
  "control_word_seed_value seed =
     (if seed = [] then DEFAULT_FPU_CONTROL_WORD
      else case parse_fpu_control_word_seed seed of Inr v \<Rightarrow> v | Inl _ \<Rightarrow> DEFAULT_FPU_CONTROL_WORD)"

definition seed_tag_byte :: "string list \<Rightarrow> u8" where
  "seed_tag_byte seeds = snd (fold (st_slot seeds) [0..<8] (replicate 8 (replicate 10 0), 0))"

definition seed_registers ::
  "GPRSeed list \<Rightarrow> u64 \<Rightarrow> string list \<Rightarrow> string list \<Rightarrow> FloatingEnvironmentSeed \<Rightarrow> Registers" where
  "seed_registers seed_gpr seed_flags seed_xmm seed_st env =
     \<lparr>gpr = map (\<lambda>i. gpr_seed_value (seed_gpr ! i)) [0..<16], rip = 0, rflags = seed_flags,
      xmm = map (\<lambda>i. xmm_seed_value (seed_xmm ! i)) [0..<16],
      mxcsr = mxcsr_seed_value (seed_mxcsr env),
      st = map (\<lambda>i. st_seed_value (seed_st ! i)) [0..<8],
      fpu_control_word = control_word_seed_value (seed_fpu_control_word env),
      fpu_status_word = 0, fpu_tag_word_abridged = seed_tag_byte seed_st\<rparr>"

lemma bit_seed_tag_byte: "bit (seed_tag_byte seeds) k \<longleftrightarrow> k < 8 \<and> st_seeded (seeds ! k)"
  by (simp add: seed_tag_byte_def fold_st_slot(2))

lemma empty_seeds [simp]:
  "parse_seed [] = Inr 0" "parse_mxcsr_seed [] = Inr 0" "parse_fpu_control_word_seed [] = Inr 0"
  "compose_xmm_seed [] = Inr (0, 0)" "compose_st_seed [] = Inr (replicate 10 0)"
  by (simp_all add: parse_seed_def parse_mxcsr_seed_def parse_fpu_control_word_seed_def
      MXCSR_DEFINED_MASK_def compose_xmm_seed_def compose_st_seed_def)

lemma st_seed_value_unseeded: "\<not> st_seeded s \<Longrightarrow> st_seed_value s = replicate 10 0"
  by (cases "s = []") (auto simp: st_seeded_def st_seed_value_def split: sum.splits)

lemma seed_environment_eq:
  "seed_environment env (default_registers, errs)
     = (default_registers\<lparr>mxcsr := mxcsr_seed_value (seed_mxcsr env),
          fpu_control_word := control_word_seed_value (seed_fpu_control_word env)\<rparr>,
        errs @ environment_messages env)"
  by (auto simp: seed_environment_def environment_messages_def mxcsr_seed_value_def
      control_word_seed_value_def default_registers_def split: sum.splits)

lemma compose_seed_eq:
  "compose_seed seed_gpr seed_flags seed_xmm seed_st env errs
     = (seed_registers seed_gpr seed_flags seed_xmm seed_st env,
        errs @ seed_messages seed_gpr seed_xmm seed_st env)"
proof -
  let ?zero = "replicate 8 (replicate 10 0) :: u8 list list"
  have st: "fold (st_slot seed_st) [0..<8] (?zero, 0)
      = (map (\<lambda>i. st_seed_value (seed_st ! i)) [0..<8], seed_tag_byte seed_st)"
  proof -
    have "fst (fold (st_slot seed_st) [0..<8] (?zero, 0)) = map (\<lambda>i. st_seed_value (seed_st ! i)) [0..<8]"
      unfolding fold_st_slot(1)[OF order_refl]
      by (subst fold_slots) (auto simp: st_seed_value_unseeded simp del: upt_rec_numeral)
    then show ?thesis by (simp add: prod_eq_iff seed_tag_byte_def del: upt_rec_numeral)
  qed
  have xmm: "fold (\<lambda>i xs. xs[i := case compose_xmm_seed (seed_xmm ! i) of Inr v \<Rightarrow> v | Inl _ \<Rightarrow> xs ! i])
      [0..<16] (replicate 16 (0, 0)) = map (\<lambda>i. xmm_seed_value (seed_xmm ! i)) [0..<16]"
    by (subst fold_slots) (auto simp: xmm_seed_value_def split: sum.splits)
  have gpr: "fold (\<lambda>i xs. xs[i := gpr_seed_value (seed_gpr ! i)]) [0..<16] (replicate 16 0)
      = map (\<lambda>i. gpr_seed_value (seed_gpr ! i)) [0..<16]"
    by (subst fold_slots) (auto simp del: upt_rec_numeral)
  show ?thesis
    unfolding compose_seed_def seed_environment_eq Let_def gpr_loop.loop prod.case xmm_loop.loop st_loop.loop
    by (simp add: default_registers_def reg_set_def st_tag_update_def gpr xmm st seed_registers_def
        seed_messages_def del: upt_rec_numeral)
qed

lemma length_st_pairs: "length result = 10 \<Longrightarrow> st_pairs t p i result = Inr v \<Longrightarrow> length v = 10"
proof (induction t p i result rule: st_pairs.induct)
  case (1 t p i result)
  then show ?case by (subst (asm) (2) st_pairs.simps) (auto split: if_splits option.splits)
qed

lemma length_compose_st_seed: "compose_st_seed seed = Inr v \<Longrightarrow> length v = 10"
  by (auto simp: compose_st_seed_def Let_def split: if_splits sum.splits dest!: length_st_pairs[rotated])

lemma wf_seed_registers: "wf_registers (seed_registers seed_gpr seed_flags seed_xmm seed_st env)"
  by (auto simp: seed_registers_def wf_registers_def st_seed_value_def dest: length_compose_st_seed
      simp del: upt_rec_numeral split: sum.splits)

text \<open>
  The round trip of every seed field. A 64-bit value printed by the trace writer, an XMM pair and
  the ten bytes of an x87 register read back as the value that was printed.
\<close>

lemma seed_roundtrip:
  assumes "length b = 10"
  shows "parse_seed (format_hex 16 v) = Inr v \<and> compose_xmm_seed (format_xmm x) = Inr x
    \<and> compose_st_seed (format_st b) = Inr b"
  using gpr_codec.decode_encode xmm_codec.decode_encode st_codec.decode_encode[OF assms] by simp

text \<open>
  C9: \<open>compose_gpr_seed\<close>. Each bit of the composed register comes from the narrowest slice that covers
  it and holds a valid value (\<open>AL\<close>, then \<open>AH\<close>, \<open>AX\<close>, \<open>EAX\<close>, \<open>RAX\<close>); with no such slice it is zero. Each
  malformed slice is reported once under the register's label, widest first, and changes no bit.
\<close>

theorem compose_gpr_seed_correct:
  "(\<forall>n. bit (fst (compose_gpr_seed seed label errs)) n = gpr_seed_bit seed n)
   \<and> snd (compose_gpr_seed seed label errs) = errs @ map (LabelledMessage label \<circ> InvalidHexValue)
       (malformed [full seed, dword seed, word16 seed, byte_high seed, byte_low seed])"
  by (simp add: bit_compose_gpr_seed snd_compose_gpr_seed)

text \<open>
  C10: \<open>compose_seed\<close> implements the field-by-field meaning of a seed: the register file is well formed,
  every field depends on its own text only, a malformed or empty field keeps its default, the x87 tag
  bit of a register is set exactly when its text is non-empty and valid, and the messages are those
  of the malformed fields in field order.
\<close>

theorem compose_seed_refines:
  "compose_seed seed_gpr seed_flags seed_xmm seed_st env errs
     = (seed_registers seed_gpr seed_flags seed_xmm seed_st env,
        errs @ seed_messages seed_gpr seed_xmm seed_st env)
   \<and> wf_registers (seed_registers seed_gpr seed_flags seed_xmm seed_st env)
   \<and> (\<forall>k. bit (fpu_tag_word_abridged (seed_registers seed_gpr seed_flags seed_xmm seed_st env)) k
          = (k < 8 \<and> st_seeded (seed_st ! k)))"
  using compose_seed_eq wf_seed_registers bit_seed_tag_byte by (simp add: seed_registers_def)

end
