(* ===== verification/Report.thy ===== *)
theory Report
  imports Engine Seed
begin

text \<open>
  The texts that src/src/bme_core.cpp builds with fmt: addresses, the messages and stop reasons of
  \<open>run_engine\<close>, the platforms' errors, and the decoded control and status words of the register panes.
\<close>

section \<open>Numbers\<close>

text \<open>The fmt fields \<open>{}\<close>, \<open>{:X}\<close> and \<open>{:0kX}\<close> for unsigned values.\<close>

fun decimal :: "nat \<Rightarrow> string" where
  "decimal n = (if n < 10 then [char_of (48 + n)] else decimal (n div 10) @ [char_of (48 + n mod 10)])"

declare decimal.simps [simp del]

fun hex_upper :: "nat \<Rightarrow> string" where
  "hex_upper n = (if n < 16 then [hexchar n] else hex_upper (n div 16) @ [hexchar n])"

declare hex_upper.simps [simp del]

definition hex_padded :: "nat \<Rightarrow> nat \<Rightarrow> string" where
  "hex_padded k n = replicate (k - length (hex_upper n)) (CHR ''0'') @ hex_upper n"

definition format_hex64_string :: "u64 \<Rightarrow> string" where
  "format_hex64_string value = ''0x'' @ hex_padded 16 (unat value)"

section \<open>Addresses and messages\<close>

definition region_name :: "region \<Rightarrow> string" where
  "region_name r = (case r of CodeRegion \<Rightarrow> ''code'' | StackRegion \<Rightarrow> ''stack'' | DataRegion \<Rightarrow> ''data'')"

definition guard_text :: "guard_note \<Rightarrow> string" where
  "guard_text g = (case g of Inside \<Rightarrow> [] | EndGuard \<Rightarrow> '' (end, guard)'' | Guard \<Rightarrow> '' (guard)'')"

fun address_text :: "AddressValue \<Rightarrow> string" where
  "address_text (Absolute a) = format_hex64_string a"
| "address_text (Above r d g) = region_name r @ ''+'' @ hex_padded 4 (unat d) @ guard_text g"
| "address_text (Below r d g) = region_name r @ ''-'' @ hex_padded 4 (unat d) @ guard_text g"

definition INSTRUMENTATION_REFUSAL :: string where
  "INSTRUMENTATION_REFUSAL =
     ''Running under an emulator or instrumentation layer. Native single-step tracing is unavailable.''"

definition child_error_name :: "ChildError \<Rightarrow> string" where
  "child_error_name e =
     (case e of ChildTrace \<Rightarrow> ''ptrace worker setup failed.'' | ChildAllocation \<Rightarrow> ''Memory allocation failed.''
      | ChildCommit \<Rightarrow> ''Memory commit failed.'' | ChildProtect \<Rightarrow> ''Memory protection failed.''
      | ChildFlush \<Rightarrow> ''Instruction-cache flush failed.'' | ChildSignalSetup \<Rightarrow> ''Fault-report handler setup failed.''
      | ChildOk \<Rightarrow> ''Unknown worker setup failure.'')"

fun platform_error_text :: "platform_error \<Rightarrow> string" where
  "platform_error_text NoCodeToRun = ''No code to run.''"
| "platform_error_text StopOffsetOutside = ''Stop offset is outside the input.''"
| "platform_error_text InstrumentationRefusal = INSTRUMENTATION_REFUSAL"
| "platform_error_text UnsupportedMXCSR = ''MXCSR seed contains bits unsupported by this CPU.''"
| "platform_error_text WorkerPipeFailed = ''ptrace worker pipe failed.''"
| "platform_error_text WorkerForkFailed = ''ptrace worker fork failed.''"
| "platform_error_text WorkerStartupFailed = ''ptrace worker startup failed.''"
| "platform_error_text WorkerWaitFailed = ''ptrace worker wait failed.''"
| "platform_error_text (WorkerSetupFailed e) = child_error_name e"
| "platform_error_text WorkerDidNotStop = ''ptrace worker did not stop.''"
| "platform_error_text PtraceOptionsFailed = ''ptrace options failed.''"
| "platform_error_text PtraceRegisterReadFailed = ''ptrace register read failed.''"
| "platform_error_text PtraceRegisterSetFailed = ''ptrace register set failed.''"
| "platform_error_text PtraceSingleStepFailed = ''ptrace single-step failed.''"
| "platform_error_text WorkerExitedUnexpectedly = ''ptrace worker exited unexpectedly.''"
| "platform_error_text PtraceSignalInfoFailed = ''ptrace signal info failed.''"
| "platform_error_text VirtualAllocFailed = ''VirtualAlloc failed.''"
| "platform_error_text VirtualAllocCommitFailed = ''VirtualAlloc commit failed.''"
| "platform_error_text VirtualProtectFailed = ''VirtualProtect failed.''"
| "platform_error_text FlushInstructionCacheFailed = ''FlushInstructionCache failed.''"
| "platform_error_text CreateThreadFailed = ''CreateThread failed.''"
| "platform_error_text GetThreadIdFailed = ''GetThreadId failed.''"
| "platform_error_text GetThreadContextFailed = ''GetThreadContext failed.''"
| "platform_error_text SetThreadContextFailed = ''SetThreadContext failed.''"
| "platform_error_text ExceptionHandlerFailed = ''Failed to install exception handler.''"
| "platform_error_text ResumeThreadFailed = ''ResumeThread failed.''"
| "platform_error_text WaitForSingleObjectFailed = ''WaitForSingleObject failed.''"

definition error_text :: "platform_error option \<Rightarrow> string" where
  "error_text e = (case e of None \<Rightarrow> [] | Some e \<Rightarrow> platform_error_text e)"

definition hex_address :: "u64 \<Rightarrow> string" where
  "hex_address a = ''0x'' @ hex_upper (unat a)"

text \<open>The detail of a fault: both notations of the memory address unless they are the same.\<close>

definition memory_detail_text :: "(string \<times> u64 \<times> AddressValue) option \<Rightarrow> string" where
  "memory_detail_text detail =
     (case detail of None \<Rightarrow> []
      | Some (action, address, v) \<Rightarrow>
          (let absolute = format_hex64_string address; normalized = address_text v;
               memory = (if normalized = absolute then absolute else absolute @ '' ('' @ normalized @ '')'')
           in '' while '' @ action @ '' '' @ memory))"

fun message_text :: "engine_message \<Rightarrow> string" where
  "message_text (NoTraceRecorded e) = error_text e @ '' No trace was recorded.''"
| "message_text (EngineError e) = platform_error_text e"
| "message_text (StoppedAtSelectedRow a n) = ''Stopped at selected row ('' @ hex_address a @ '') - '' @ decimal n @ '' executed.''"
| "message_text (StoppedAtInt3 a n) = ''Stopped at int3 ('' @ hex_address a @ '') - '' @ decimal n @ '' executed.''"
| "message_text (FaultMessage name a detail n) =
     name @ '' at '' @ hex_address a @ memory_detail_text detail @ '' ('' @ decimal n @ '' executed).''"
| "message_text (HitStepCap n) = ''Hit step cap ('' @ decimal n @ '' executed).''"
| "message_text (FinishedMessage n) = ''Finished - '' @ decimal n @ '' executed.''"

fun stop_reason_text :: "stop_reason \<Rightarrow> string" where
  "stop_reason_text StoppedHereSelectedRow = ''Stopped here - selected row''"
| "stop_reason_text StoppedHereInt3 = ''Stopped here - int3 breakpoint''"
| "stop_reason_text (FaultedHere name) = ''Faulted here - '' @ name"
| "stop_reason_text StepCapReached = ''Not reached - Step cap reached''"
| "stop_reason_text ReachedEndOfInput = ''Reached end of input''"
| "stop_reason_text LeftInputRange = ''Execution left input range''"

section \<open>Control and status words\<close>

definition st_mantissa :: "u8 list \<Rightarrow> u64" where
  "st_mantissa bytes = word_of_nat (foldr (\<lambda>b acc. unat b + 256 * acc) (take 8 bytes) 0)"

definition st_exponent :: "u8 list \<Rightarrow> u32" where
  "st_exponent bytes = (push_bit 8 (ucast (bytes ! 9)) OR ucast (bytes ! 8)) AND 0x7FFF"

definition x87_tag_name :: "bool \<Rightarrow> u8 list \<Rightarrow> string" where
  "x87_tag_name valid bytes =
     (if \<not> valid then ''Empty''
      else let mantissa = st_mantissa bytes; exponent = st_exponent bytes
           in if exponent = 0 then (if mantissa = 0 then ''Zero'' else ''Special'')
              else if exponent = 0x7FFF \<or> mantissa AND 0x8000000000000000 = 0 then ''Special''
              else ''Nonzero'')"

definition decode_flag_bits :: "u32 \<Rightarrow> (string \<times> u32) list \<Rightarrow> string" where
  "decode_flag_bits word bits =
     (let result = foldl (\<lambda>result (name, bit). if word AND bit \<noteq> 0 then result @ '' '' @ name else result) [] bits
      in if result \<noteq> [] then drop 1 result else ''none'')"

definition decode_x87_control_word :: "u16 \<Rightarrow> string list" where
  "decode_x87_control_word control_word =
     (let PRECISION = [''Real4'', ''Not Used'', ''Real8'', ''Real10''];
          ROUNDING = [''Round Near'', ''Round Down'', ''Round Up'', ''Truncate''];
          MASKS = [(''IM'', 0x01), (''DM'', 0x02), (''ZM'', 0x04), (''OM'', 0x08), (''UM'', 0x10), (''PM'', 0x20)]
      in [PRECISION ! unat (drop_bit 8 control_word AND 3) @ '' '' @ ROUNDING ! unat (drop_bit 10 control_word AND 3),
          ''Masks: '' @ decode_flag_bits (ucast control_word) MASKS])"

definition decode_x87_status_word :: "u16 \<Rightarrow> string list" where
  "decode_x87_status_word status_word =
     (let FLAGS = [(''IE'', 0x01), (''DE'', 0x02), (''ZE'', 0x04), (''OE'', 0x08), (''UE'', 0x10), (''PE'', 0x20),
            (''SF'', 0x40), (''ES'', 0x80), (''B'', 0x8000)];
          CONDITION = [(''C0'', 0x100), (''C1'', 0x200), (''C2'', 0x400), (''C3'', 0x4000)];
          top = decimal (unat (drop_bit 11 status_word AND 7))
      in [''TOP='' @ top @ '' (ST0=x87r'' @ top @ '')'',
          ''Flags: '' @ decode_flag_bits (ucast status_word) FLAGS,
          ''CC: '' @ decode_flag_bits (ucast status_word) CONDITION])"

definition decode_mxcsr :: "u32 \<Rightarrow> string list" where
  "decode_mxcsr value =
     (let ROUNDING = [''Round Near'', ''Toward Negative'', ''Toward Positive'', ''Toward Zero''];
          MASKS = [(''IM'', 0x80), (''DM'', 0x100), (''ZM'', 0x200), (''OM'', 0x400), (''UM'', 0x800), (''PM'', 0x1000)];
          FLAGS = [(''IE'', 0x01), (''DE'', 0x02), (''ZE'', 0x04), (''OE'', 0x08), (''UE'', 0x10), (''PE'', 0x20)];
          MODES = [(''DAZ'', 0x40), (''FZ'', 0x8000)]
      in [ROUNDING ! unat (drop_bit 13 value AND 3),
          ''Masks: '' @ decode_flag_bits value MASKS,
          ''Flags: '' @ decode_flag_bits value FLAGS,
          ''Modes: '' @ decode_flag_bits value MODES])"

section \<open>Reading numbers back\<close>

lemma hex_upper_digits: "c \<in> set (hex_upper n) \<Longrightarrow> is_digit_in 16 c"
proof (induction n rule: hex_upper.induct)
  case (1 n)
  then show ?case using hex_upper.simps[of n] by (auto split: if_splits)
qed

lemma digits_value_hex_upper: "digits_value 16 (hex_upper n) 0 = n"
proof (induction n rule: hex_upper.induct)
  case (1 n)
  then show ?case by (subst hex_upper.simps) (auto simp: digits_value_append)
qed

lemma digit_value_zero: "digit_value (CHR ''0'') = Some 0"
  by (simp add: digit_value_def)

lemma hex_padded_digits: "c \<in> set (hex_padded k n) \<Longrightarrow> is_digit_in 16 c"
  using hex_upper_digits by (fastforce simp: hex_padded_def is_digit_in_def digit_value_zero split: if_splits)

lemma digits_value_zeros: "digits_value 16 (replicate k (CHR ''0'')) 0 = 0"
  by (induction k) (simp_all add: digit_value_zero)

lemma digits_value_hex_padded: "digits_value 16 (hex_padded k n) 0 = n"
  by (simp add: hex_padded_def digits_value_append digits_value_zeros digits_value_hex_upper)

text \<open>Two hexadecimal fields followed by texts that do not start with a digit.\<close>

lemma hex_padded_append:
  assumes "hex_padded k m @ s = hex_padded j n @ t"
    and "s = [] \<or> \<not> is_digit_in 16 (hd s)" "t = [] \<or> \<not> is_digit_in 16 (hd t)"
  shows "m = n \<and> s = t"
proof -
  have "takeWhile (is_digit_in 16) (hex_padded k m @ s) = hex_padded k m"
    "takeWhile (is_digit_in 16) (hex_padded j n @ t) = hex_padded j n"
    using assms(2,3) by (auto intro!: takeWhile_all_append dest: hex_padded_digits)
  then have "hex_padded k m = hex_padded j n" using assms(1) by simp
  then show ?thesis using assms(1) digits_value_hex_padded by (metis append_same_eq same_append_eq)
qed

lemma guard_text_start: "guard_text g = [] \<or> \<not> is_digit_in 16 (hd (guard_text g))"
  by (cases g) (simp_all add: guard_text_def is_digit_in_def digit_value_def)

lemma guard_text_inj: "guard_text g = guard_text h \<longleftrightarrow> g = h"
  by (cases g; cases h) (simp_all add: guard_text_def)

lemma unat_inj: "unat x = unat y \<Longrightarrow> x = y" for x y :: "'a::len word"
  by (metis word_of_nat_unat)

lemma address_text_inj: "address_text v = address_text w \<longleftrightarrow> v = w"
proof
  assume eq: "address_text v = address_text w"
  note field = hex_padded_append[OF _ guard_text_start guard_text_start]
  note fieldN = hex_padded_append[of 16 _ "[]" 16 _ "[]", simplified]
  show "v = w"
    using eq
    by (cases v; cases w)
      (auto simp: format_hex64_string_def region_name_def guard_text_inj dest!: field fieldN unat_inj split: region.splits)
qed simp

section \<open>Tags of widened doubles\<close>

lemma foldr_bytes_le:
  "foldr (\<lambda>b acc. unat b + 256 * acc) (bytes_le k v) a = v mod 256 ^ k + 256 ^ k * a"
proof (induction k arbitrary: a)
  case 0
  then show ?case by (simp add: bytes_le_def)
next
  case (Suc k)
  have "foldr (\<lambda>b acc. unat b + 256 * acc) (bytes_le (Suc k) v) a
      = foldr (\<lambda>b acc. unat b + 256 * acc) (bytes_le k v) (v div 256 ^ k mod 256 + 256 * a)"
    by (simp add: bytes_le_def unsigned_of_nat take_bit_eq_mod)
  also have "\<dots> = v mod 256 ^ k + 256 ^ k * (v div 256 ^ k mod 256 + 256 * a)" by (rule Suc)
  also have "\<dots> = v mod 256 ^ Suc k + 256 ^ Suc k * a"
    unfolding power_Suc2 mod_mult2_eq[of v "256 ^ k" 256] by (simp add: distrib_left)
  finally show ?case .
qed

lemma length_bytes_le [simp]: "length (bytes_le k v) = k"
  by (simp add: bytes_le_def)

lemma st_mantissa_bytes: "v < 2 ^ 64 \<Longrightarrow> st_mantissa (bytes_le 8 v @ bs) = word_of_nat v"
  by (simp add: st_mantissa_def foldr_bytes_le)

lemma exponent_bytes:
  "unat ((push_bit 8 (ucast hi) OR ucast lo :: u32) AND 0x7FFF) = (unat hi * 256 + unat lo) mod 32768" for hi lo :: u8
proof -
  have "push_bit 8 (ucast hi) AND (ucast lo :: u32) = 0"
    by (rule bit_word_eqI) (auto simp: bit_and_iff bit_push_bit_iff bit_unsigned_iff dest: bit_imp_le_length)
  then have "push_bit 8 (ucast hi) OR ucast lo = push_bit 8 (ucast hi) + (ucast lo :: u32)"
    by (simp add: disjunctive_add_eq_or)
  also have "push_bit 8 (ucast hi :: u32) = word_of_nat (unat hi * 256)"
    by (simp add: push_bit_eq_mult)
  also have "(ucast lo :: u32) = word_of_nat (unat lo)" by simp
  finally have "push_bit 8 (ucast hi) OR ucast lo = (word_of_nat (unat hi * 256 + unat lo) :: u32)"
    by (simp add: push_bit_eq_mult)
  moreover have "unat (w AND 0x7FFF :: u32) = unat w mod 32768" for w
    using unat_take_bit[of 15 w] by (simp add: take_bit_eq_mask mask_eq_exp_minus_1)
  moreover have "unat (word_of_nat (unat hi * 256 + unat lo) :: u32) = unat hi * 256 + unat lo"
    using unat_lt_2p[of hi] unat_lt_2p[of lo] by (intro unat_word_of_nat) simp
  ultimately show ?thesis by simp
qed

lemma st_exponent_bytes:
  assumes "e < 2 ^ 16"
  shows "unat (st_exponent (bytes_le 8 v @ bytes_le 2 e)) = e mod 32768"
proof -
  let ?bs = "bytes_le 8 v @ bytes_le 2 e"
  have "?bs ! 8 = word_of_nat e" "?bs ! 9 = word_of_nat (e div 256)"
    by (simp_all add: nth_append) (simp_all add: bytes_le_def)
  moreover have "unat (word_of_nat (e div 256) :: u8) * 256 + unat (word_of_nat e :: u8) = e"
    using assms by (simp add: unsigned_of_nat take_bit_eq_mod)
  ultimately show ?thesis by (simp add: st_exponent_def exponent_bytes)
qed

lemma bitlen_bounds: "0 < n \<Longrightarrow> 2 ^ bitlen n \<le> 2 * n \<and> n < 2 ^ bitlen n"
proof (induction n rule: bitlen.induct)
  case (1 n)
  show ?case
  proof (cases "n div 2 = 0")
    case True
    then have "n = 1" using 1(2) by simp
    then show ?thesis by (simp add: bitlen.simps[of "Suc 0"] bitlen.simps[of 0])
  next
    case False
    then have "2 ^ bitlen (n div 2) \<le> 2 * (n div 2) \<and> n div 2 < 2 ^ bitlen (n div 2)" using 1 by simp
    moreover have "bitlen n = Suc (bitlen (n div 2))" using 1(2) by (subst bitlen.simps) simp
    ultimately show ?thesis by auto
  qed
qed

lemma bitlen_le: "n < 2 ^ k \<Longrightarrow> bitlen n \<le> k"
proof (cases "n = 0")
  case False
  assume "n < 2 ^ k"
  then have "2 ^ bitlen n < (2 :: nat) ^ Suc k" using bitlen_bounds[of n] False by simp
  then show ?thesis by (simp only: power_strict_increasing_iff)
qed (simp add: bitlen.simps)

text \<open>The significand and exponent of a widened double: the integer bit is set unless the value is zero.\<close>

lemma st80_parts_normal:
  assumes "bits < 2 ^ 63" "st80_parts bits = (m, e)"
  shows "m < 2 ^ 64 \<and> e < 32768 \<and> (e = 0 \<longleftrightarrow> bits = 0) \<and> (e = 32767 \<longleftrightarrow> bits \<ge> 2047 * 2 ^ 52)
    \<and> (bits = 0 \<longrightarrow> m = 0) \<and> (bits \<noteq> 0 \<longrightarrow> 2 ^ 63 \<le> m)"
proof -
  let ?ef = "bits div 2 ^ 52" and ?f = "bits mod 2 ^ 52"
  have ef: "?ef < 2048" "?f < 2 ^ 52" "bits = ?ef * 2 ^ 52 + ?f" using assms(1) by auto
  show ?thesis
  proof (cases "?ef = 0 \<and> ?f \<noteq> 0")
    case True
    then have pos: "0 < ?f" by simp
    let ?b = "bitlen ?f"
    have b: "?b \<le> 52" by (rule bitlen_le[OF ef(2)])
    have "2 ^ ?b * 2 ^ (64 - ?b) = (2 :: nat) ^ 64" using b by (simp flip: power_add)
    moreover define F where "F = ?f * 2 ^ (64 - ?b)"
    moreover have "2 ^ ?b * 2 ^ (64 - ?b) \<le> 2 * F" "F < 2 ^ ?b * 2 ^ (64 - ?b)"
      using bitlen_bounds[OF pos] by (auto simp: F_def)
    ultimately have "2 ^ 63 \<le> ?f * 2 ^ (64 - ?b)" "?f * 2 ^ (64 - ?b) < 2 ^ 64" by auto
    then show ?thesis using assms(2) True b ef by (auto simp: st80_parts_def Let_def)
  next
    case False
    then show ?thesis using assms(2) ef by (auto simp: st80_parts_def Let_def split: if_splits)
  qed
qed

lemma integer_bit: "2 ^ 63 \<le> m \<Longrightarrow> m < 2 ^ 64 \<Longrightarrow> (word_of_nat m :: u64) AND 0x8000000000000000 \<noteq> 0"
proof -
  assume m: "2 ^ 63 \<le> m" "m < 2 ^ 64"
  then have "m div 2 ^ 63 = 1" by auto
  then have "bit m 63" by (simp add: bit_iff_odd)
  then have "bit ((word_of_nat m :: u64) AND 2 ^ 63) 63"
    by (simp add: bit_and_iff bit_exp_iff bit_of_nat_iff)
  then have "(word_of_nat m :: u64) AND 2 ^ 63 \<noteq> 0" by (metis bit_0_eq bot_apply bot_bool_def)
  then show ?thesis by simp
qed

lemma x87_tag_double:
  "x87_tag_name True (double_to_st80 w)
     = (let bits = unat w mod 2 ^ 63
        in if bits = 0 then ''Zero'' else if bits \<ge> DOUBLE_INF then ''Special'' else ''Nonzero'')"
proof -
  let ?bits = "unat w mod 2 ^ 63" and ?sign = "if 2 ^ 63 \<le> unat w then 2 ^ 15 else 0 :: nat"
  obtain m e where me: "st80_parts ?bits = (m, e)" by fastforce
  note parts = st80_parts_normal[OF _ me]
  have lt: "?bits < 2 ^ 63" by simp
  have bs: "double_to_st80 w = bytes_le 8 m @ bytes_le 2 (?sign + e)"
    unfolding double_to_st80_def Let_def me by simp
  have mant: "st_mantissa (double_to_st80 w) = word_of_nat m" unfolding bs using parts[OF lt] by (intro st_mantissa_bytes) simp
  have "unat (st_exponent (double_to_st80 w)) = (?sign + e) mod 32768"
    unfolding bs using parts[OF lt] by (intro st_exponent_bytes) (simp split: if_splits)
  also have "\<dots> = e" using parts[OF lt] by auto
  finally have ex: "unat (st_exponent (double_to_st80 w)) = e" .
  have zero: "st_exponent (double_to_st80 w) = 0 \<longleftrightarrow> e = 0" using ex by (metis unat_0 unat_inj)
  have inf: "st_exponent (double_to_st80 w) = 0x7FFF \<longleftrightarrow> e = 32767"
    using ex unat_inj[of "st_exponent (double_to_st80 w)" "0x7FFF"] by auto
  show ?thesis
    using parts[OF lt] integer_bit[of m] unfolding x87_tag_name_def Let_def mant zero inf DOUBLE_INF_def by auto
qed

section \<open>What the texts tell\<close>

text \<open>
  C20: printed addresses are unambiguous: two addresses are printed alike, relative to the regions of the
  same trace or absolutely, only if they are the same address.
\<close>

theorem printed_addresses_unique:
  "address_text (format_address_value g p trace a normalized) = address_text (format_address_value g p trace b normalized)
     \<longleftrightarrow> a = b"
  unfolding address_text_inj by (metis format_address_value_address)

text \<open>
  The tag shown for an x87 register that was seeded with a double is the class of that double: Zero
  for the two zeros, Special for infinities and NaNs, and Nonzero for every other value, subnormals
  included; an empty register is shown as Empty whatever its bytes are.
\<close>

lemma x87_tag_name_of_double:
  "x87_tag_name valid (double_to_st80 w)
     = (let bits = unat w mod 2 ^ 63
        in if \<not> valid then ''Empty'' else if bits = 0 then ''Zero''
           else if bits \<ge> DOUBLE_INF then ''Special'' else ''Nonzero'')"
  using x87_tag_double[of w] by (cases valid) (simp_all add: x87_tag_name_def[of False] Let_def)

end
