(* ===== verification/ParseCode.thy ===== *)
theory ParseCode
  imports Hex
begin

text \<open>
  \<open>parse_code_text\<close> of src/src/bme_core.cpp: the three notations for machine code (plain
  hexadecimal, \<open>\x\<close> escapes, a braced array of \<open>0x\<close> bytes), with its errors and their
  positions. The scanning position is kept together with the text that remains from it. The
  notations are specified as grammars, and the parser accepts exactly the grammars' texts.
\<close>

section \<open>The parser\<close>

datatype code_error =
    DanglingHexNibble nat
  | InvalidHexByte string nat
  | NoCodeToRun
  | MissingClosingBrace
  | UnexpectedTextAfterArray nat
  | ExpectedPrefixedByte nat
  | ExpectedHexadecimalByte nat
  | ByteExceedsFF nat
  | InvalidHexadecimalByte nat
  | ExpectedCommaOrBrace nat
  | ExpectedEscapedByte nat

type_synonym code_result = "(code_error, u8 list) result"

definition skip_whitespace :: "nat \<Rightarrow> string \<Rightarrow> nat \<times> string" where
  "skip_whitespace position rest = (position + length (takeWhile isspace rest), dropWhile isspace rest)"

lemma skip_whitespace_length: "skip_whitespace p r = (p', r') \<Longrightarrow> length r' \<le> length r"
  by (auto simp: skip_whitespace_def length_dropWhile_le)

definition parse_byte :: "nat \<Rightarrow> string \<Rightarrow> (code_error, u8) result" where
  "parse_byte position rest =
     (if length rest < 2 then Inl (DanglingHexNibble position)
      else case from_chars_all 16 8 (take 2 rest) of
             None \<Rightarrow> Inl (InvalidHexByte (take 2 rest) position)
           | Some v \<Rightarrow> Inr (word_of_nat v))"

fun parse_hex :: "nat \<Rightarrow> string \<Rightarrow> u8 list \<Rightarrow> code_result" where
  "parse_hex position [] result = Inr result"
| "parse_hex position (c # cs) result =
     (if isspace c then parse_hex (position + 1) cs result
      else if cs = [] \<or> isspace (hd cs) then Inl (DanglingHexNibble position)
      else case parse_byte position (c # cs) of
             Inl e \<Rightarrow> Inl e
           | Inr byte \<Rightarrow> parse_hex (position + 2) (tl cs) (result @ [byte]))"

definition is_x :: "char \<Rightarrow> bool" where
  "is_x c \<longleftrightarrow> c = CHR ''x'' \<or> c = CHR ''X''"

function parse_escapes :: "nat \<Rightarrow> string \<Rightarrow> u8 list \<Rightarrow> code_result" where
  "parse_escapes position rest result =
     (let (position, rest) = skip_whitespace position rest
      in if rest = [] then Inr result
         else if length rest < 4 \<or> rest ! 0 \<noteq> CHR 0x5C \<or> \<not> is_x (rest ! 1)
         then Inl (ExpectedEscapedByte position)
         else case parse_byte (position + 2) (drop 2 rest) of
                Inl e \<Rightarrow> Inl e
              | Inr byte \<Rightarrow> parse_escapes (position + 4) (drop 4 rest) (result @ [byte]))"
  by pat_completeness auto
termination
  by (relation "measure (\<lambda>(position, rest, result). length rest)")
    (auto dest!: skip_whitespace_length[OF sym])

text \<open>One \<open>0x\<close>-prefixed element of a byte array, with the position and text after its digits.\<close>

definition parse_array_byte :: "nat \<Rightarrow> string \<Rightarrow> (code_error, u8 \<times> nat \<times> string) result" where
  "parse_array_byte position rest =
     (if length rest < 3 \<or> rest ! 0 \<noteq> CHR ''0'' \<or> \<not> is_x (rest ! 1)
      then Inl (ExpectedPrefixedByte position)
      else let digit_start = position + 2;
               digits = takeWhile isxdigit (drop 2 rest);
               digit_count = length digits
           in if digit_count = 0 then Inl (ExpectedHexadecimalByte digit_start)
              else if digit_count > 2 then Inl (ByteExceedsFF (digit_start - 2))
              else case from_chars_all 16 8 digits of
                     None \<Rightarrow> Inl (InvalidHexadecimalByte (digit_start - 2))
                   | Some v \<Rightarrow> Inr (word_of_nat v, digit_start + digit_count,
                                   dropWhile isxdigit (drop 2 rest)))"

lemma parse_array_byte_length:
  "parse_array_byte p r = Inr (b, p', r') \<Longrightarrow> length r' < length r"
proof -
  assume a: "parse_array_byte p r = Inr (b, p', r')"
  then have "r' = dropWhile isxdigit (drop 2 r)" "3 \<le> length r"
    by (auto simp: parse_array_byte_def Let_def split: if_splits option.splits)
  then show ?thesis using length_dropWhile_le[of isxdigit "drop 2 r"] by auto
qed

function parse_array :: "nat \<Rightarrow> string \<Rightarrow> u8 list \<Rightarrow> code_result" where
  "parse_array position rest result =
     (let (position, rest) = skip_whitespace position rest
      in if rest = [] then Inl MissingClosingBrace
         else if hd rest = CHR ''}''
         then (let (position, rest) = skip_whitespace (position + 1) (tl rest)
               in if rest \<noteq> [] then Inl (UnexpectedTextAfterArray position)
                  else if result = [] then Inl NoCodeToRun else Inr result)
         else case parse_array_byte position rest of
                Inl e \<Rightarrow> Inl e
              | Inr (byte, position, rest) \<Rightarrow>
                  (let (position, rest) = skip_whitespace position rest
                   in if rest \<noteq> [] \<and> hd rest = CHR ''}'' then parse_array position rest (result @ [byte])
                      else if rest = [] \<or> hd rest \<noteq> CHR '','' then Inl (ExpectedCommaOrBrace position)
                      else parse_array (position + 1) (tl rest) (result @ [byte])))"
  by pat_completeness auto
termination
  by (relation "measure (\<lambda>(position, rest, result). length rest)")
    (auto dest!: skip_whitespace_length[OF sym] parse_array_byte_length)

definition parse_code_text :: "string \<Rightarrow> code_result" where
  "parse_code_text text =
     (let (position, rest) = skip_whitespace 0 text
      in if rest = [] then Inl NoCodeToRun
         else if hd rest = CHR ''{'' then parse_array (position + 1) (tl rest) []
         else if hd rest = CHR 0x5C then parse_escapes position rest []
         else parse_hex position rest [])"

declare parse_escapes.simps [simp del] parse_array.simps [simp del]

section \<open>The grammars of the three notations\<close>

definition byte_digits_value :: "char \<Rightarrow> char \<Rightarrow> u8" where
  "byte_digits_value c d = word_of_nat (digits_value 16 [c, d] 0)"

inductive hex_text :: "string \<Rightarrow> u8 list \<Rightarrow> bool" where
  hex_end: "hex_text [] []"
| hex_space: "isspace c \<Longrightarrow> hex_text s bs \<Longrightarrow> hex_text (c # s) bs"
| hex_byte: "isxdigit c \<Longrightarrow> isxdigit d \<Longrightarrow> hex_text s bs
    \<Longrightarrow> hex_text (c # d # s) (byte_digits_value c d # bs)"

inductive escape_text :: "string \<Rightarrow> u8 list \<Rightarrow> bool" where
  esc_end: "escape_text [] []"
| esc_space: "isspace c \<Longrightarrow> escape_text s bs \<Longrightarrow> escape_text (c # s) bs"
| esc_byte: "is_x x \<Longrightarrow> isxdigit c \<Longrightarrow> isxdigit d \<Longrightarrow> escape_text s bs
    \<Longrightarrow> escape_text (CHR 0x5C # x # c # d # s) (byte_digits_value c d # bs)"

text \<open>
  \<open>array_text\<close> is the text after an opening brace or a comma, \<open>array_after\<close> the text after an
  element. An element has one or two digits. A comma before the closing brace is allowed.
\<close>

inductive array_text :: "string \<Rightarrow> u8 list \<Rightarrow> bool"
  and array_after :: "string \<Rightarrow> u8 list \<Rightarrow> bool" where
  arr_space: "isspace c \<Longrightarrow> array_text s bs \<Longrightarrow> array_text (c # s) bs"
| arr_close: "\<forall>c\<in>set s. isspace c \<Longrightarrow> array_text (CHR ''}'' # s) []"
| arr_byte: "is_x x \<Longrightarrow> ds \<noteq> [] \<Longrightarrow> length ds \<le> 2 \<Longrightarrow> \<forall>c\<in>set ds. isxdigit c \<Longrightarrow> array_after s bs
    \<Longrightarrow> array_text (CHR ''0'' # x # ds @ s) (word_of_nat (digits_value 16 ds 0) # bs)"
| after_space: "isspace c \<Longrightarrow> array_after s bs \<Longrightarrow> array_after (c # s) bs"
| after_close: "array_text (CHR ''}'' # s) bs \<Longrightarrow> array_after (CHR ''}'' # s) bs"
| after_comma: "array_text s bs \<Longrightarrow> array_after (CHR '','' # s) bs"

inductive code_text :: "string \<Rightarrow> u8 list \<Rightarrow> bool" where
  code_hex: "rest \<noteq> [] \<Longrightarrow> \<not> isspace (hd rest) \<Longrightarrow> hd rest \<noteq> CHR ''{'' \<Longrightarrow> hd rest \<noteq> CHR 0x5C \<Longrightarrow>
    hex_text rest bs \<Longrightarrow> \<forall>c\<in>set w. isspace c \<Longrightarrow> code_text (w @ rest) bs"
| code_escape: "hd rest = CHR 0x5C \<Longrightarrow> escape_text rest bs \<Longrightarrow> rest \<noteq> [] \<Longrightarrow> \<forall>c\<in>set w. isspace c
    \<Longrightarrow> code_text (w @ rest) bs"
| code_array: "array_text s bs \<Longrightarrow> bs \<noteq> [] \<Longrightarrow> \<forall>c\<in>set w. isspace c
    \<Longrightarrow> code_text (w @ CHR ''{'' # s) bs"

section \<open>Facts about the scanning helpers\<close>

lemma special_not_space [simp, chars]:
  "\<not> isspace CHR ''{''" "\<not> isspace CHR ''}''" "\<not> isspace CHR 0x5C" "\<not> isspace CHR '',''"
  "\<not> isspace CHR ''0''"
  by (simp_all add: isspace_def)

lemma special_not_xdigit [simp, chars]:
  "\<not> isxdigit CHR ''{''" "\<not> isxdigit CHR ''}''" "\<not> isxdigit CHR 0x5C" "\<not> isxdigit CHR '',''"
  by (simp_all add: isxdigit_def is_digit_in_def digit_value_def Let_def)

lemma xdigit_not_space [simp, chars]: "isxdigit c \<Longrightarrow> \<not> isspace c"
  by (auto simp: isxdigit_def digit_not_space)

lemma skip_whitespace_Cons [simp]:
  "isspace c \<Longrightarrow> skip_whitespace p (c # s) = skip_whitespace (p + 1) s"
  "\<not> isspace c \<Longrightarrow> skip_whitespace p (c # s) = (p, c # s)"
  by (simp_all add: skip_whitespace_def)

lemma skip_whitespace_Nil [simp]: "skip_whitespace p [] = (p, [])"
  by (simp add: skip_whitespace_def)

lemma skip_whitespace_append [simp]:
  "\<forall>c\<in>set w. isspace c \<Longrightarrow> skip_whitespace p (w @ s) = skip_whitespace (p + length w) s"
  by (induction w arbitrary: p) auto

lemma skip_whitespace_split:
  "skip_whitespace p s = (p', s') \<Longrightarrow>
    \<exists>w. s = w @ s' \<and> (\<forall>c\<in>set w. isspace c) \<and> p' = p + length w \<and> (s' = [] \<or> \<not> isspace (hd s'))"
  by (rule exI[of _ "takeWhile isspace s"])
    (auto simp: skip_whitespace_def hd_dropWhile dest: set_takeWhileD)

lemma from_chars_two_digits:
  "from_chars_all 16 8 [c, d] =
    (if isxdigit c \<and> isxdigit d then Some (digits_value 16 [c, d] 0) else None)"
proof (cases "isxdigit c \<and> isxdigit d")
  case True
  then have "digits_value 16 [c, d] 0 < 2 ^ 8"
    using digits_value_bound[of "[c, d]" 16] by (simp add: isxdigit_def)
  then show ?thesis using True by (simp add: from_chars_all_iff isxdigit_def)
next
  case False
  then show ?thesis
    by (cases "from_chars_all 16 8 [c, d]") (auto simp: from_chars_all_iff isxdigit_def)
qed

lemma parse_byte_Cons:
  "parse_byte p (c # d # s) =
    (if isxdigit c \<and> isxdigit d then Inr (byte_digits_value c d) else Inl (InvalidHexByte [c, d] p))"
  by (simp add: parse_byte_def byte_digits_value_def from_chars_two_digits del: digits_value.simps)

lemma parse_byte_Inr:
  "parse_byte p rest = Inr b \<longleftrightarrow>
    (\<exists>c d s. rest = c # d # s \<and> isxdigit c \<and> isxdigit d \<and> b = byte_digits_value c d)"
proof (cases "length rest < 2")
  case True
  then show ?thesis by (auto simp: parse_byte_def)
next
  case False
  then obtain c d s where "rest = c # d # s" by (metis One_nat_def Suc_1 length_Suc_conv list.exhaust
        list.size(3,4) not_less_eq zero_less_Suc add.right_neutral add_Suc_right less_Suc0)
  then show ?thesis by (auto simp: parse_byte_Cons)
qed

lemma hex_text_spaces: "\<forall>c\<in>set w. isspace c \<Longrightarrow> hex_text s bs \<Longrightarrow> hex_text (w @ s) bs"
  by (induction w) (auto intro: hex_space)

lemma escape_text_spaces: "\<forall>c\<in>set w. isspace c \<Longrightarrow> escape_text s bs \<Longrightarrow> escape_text (w @ s) bs"
  by (induction w) (auto intro: esc_space)

lemma array_text_spaces: "\<forall>c\<in>set w. isspace c \<Longrightarrow> array_text s bs \<Longrightarrow> array_text (w @ s) bs"
  by (induction w) (auto intro: arr_space)

lemma array_after_spaces: "\<forall>c\<in>set w. isspace c \<Longrightarrow> array_after s bs \<Longrightarrow> array_after (w @ s) bs"
  by (induction w) (auto intro: after_space)

section \<open>The parser accepts exactly the grammars\<close>

lemma parse_hex_complete: "hex_text s bs \<Longrightarrow> parse_hex p s acc = Inr (acc @ bs)"
proof (induction arbitrary: p acc rule: hex_text.induct)
  case (hex_byte c d s bs)
  then have "parse_byte p (c # d # s) = Inr (byte_digits_value c d)"
    by (simp add: parse_byte_Inr)
  then show ?case using hex_byte by simp
qed simp_all

lemma parse_hex_sound: "parse_hex p s acc = Inr r \<Longrightarrow> \<exists>bs. r = acc @ bs \<and> hex_text s bs"
proof (induction p s acc arbitrary: r rule: parse_hex.induct)
  case (1 p acc)
  then show ?case by (auto intro: hex_end)
next
  case (2 p c cs acc)
  show ?case
  proof (cases "isspace c")
    case True
    then show ?thesis using 2 by (fastforce intro: hex_space)
  next
    case False
    with 2(3) obtain b where b: "parse_byte p (c # cs) = Inr b"
      and rec: "parse_hex (p + 2) (tl cs) (acc @ [b]) = Inr r" and ne: "\<not> (cs = [] \<or> isspace (hd cs))"
      by (auto split: if_splits sum.splits)
    then obtain d s where "cs = d # s" "isxdigit c" "isxdigit d" "b = byte_digits_value c d"
      by (auto simp: parse_byte_Inr)
    then show ?thesis using 2(2)[OF False ne b rec] by (auto intro: hex_byte)
  qed
qed

lemma parse_escapes_complete: "escape_text s bs \<Longrightarrow> parse_escapes p s acc = Inr (acc @ bs)"
proof (induction arbitrary: p acc rule: escape_text.induct)
  case esc_end
  then show ?case by (simp add: parse_escapes.simps)
next
  case (esc_space c s bs)
  then show ?case by (subst parse_escapes.simps) (simp add: parse_escapes.simps[symmetric] esc_space)
next
  case (esc_byte x c d s bs)
  then have "parse_byte (p + 2) (c # d # s) = Inr (byte_digits_value c d)"
    by (simp add: parse_byte_Inr)
  then show ?case using esc_byte by (subst parse_escapes.simps) simp
qed

lemma parse_escapes_sound:
  "parse_escapes p s acc = Inr r \<Longrightarrow> \<exists>bs. r = acc @ bs \<and> escape_text s bs"
proof (induction p s acc arbitrary: r rule: parse_escapes.induct)
  case (1 p s acc)
  obtain p' s' where sk: "skip_whitespace p s = (p', s')" by fastforce
  then obtain w where w: "s = w @ s'" "\<forall>c\<in>set w. isspace c"
    using skip_whitespace_split by blast
  show ?case
  proof (cases "s' = []")
    case True
    then have "r = acc" using "1.prems" sk by (subst (asm) parse_escapes.simps) simp
    then show ?thesis using w True escape_text_spaces[OF w(2) esc_end] by auto
  next
    case False
    with "1.prems" sk obtain b where g: "\<not> (length s' < 4 \<or> s' ! 0 \<noteq> CHR 0x5C \<or> \<not> is_x (s' ! 1))"
      and b: "parse_byte (p' + 2) (drop 2 s') = Inr b"
      and rec: "parse_escapes (p' + 4) (drop 4 s') (acc @ [b]) = Inr r"
      by (subst (asm) parse_escapes.simps) (auto split: if_splits sum.splits)
    obtain c d t where t: "drop 2 s' = c # d # t" "isxdigit c" "isxdigit d" "b = byte_digits_value c d"
      using b by (auto simp: parse_byte_Inr)
    obtain x0 x1 where s': "s' = x0 # x1 # c # d # t"
      using t(1) g by (cases s'; cases "tl s'") auto
    from "1.IH"[OF sk[symmetric] refl False g b rec] obtain bs
      where "r = acc @ [b] @ bs" "escape_text (drop 4 s') bs" by auto
    then have "escape_text s' (b # bs)" using s' t g by (auto intro: esc_byte)
    then show ?thesis using w escape_text_spaces[OF w(2)] \<open>r = acc @ [b] @ bs\<close> by auto
  qed
qed

lemma parse_array_byte_Inr:
  "parse_array_byte p s = Inr (b, p', s') \<Longrightarrow>
    \<exists>x ds. s = CHR ''0'' # x # ds @ s' \<and> is_x x \<and> ds \<noteq> [] \<and> length ds \<le> 2 \<and> (\<forall>c\<in>set ds. isxdigit c)
      \<and> b = word_of_nat (digits_value 16 ds 0) \<and> p' = p + 2 + length ds"
proof -
  assume a: "parse_array_byte p s = Inr (b, p', s')"
  define ds where "ds = takeWhile isxdigit (drop 2 s)"
  have g: "\<not> (length s < 3 \<or> s ! 0 \<noteq> CHR ''0'' \<or> \<not> is_x (s ! 1))" and ne: "length ds \<noteq> 0" "\<not> 2 < length ds"
    and v: "from_chars_all 16 8 ds \<noteq> None"
    and e: "b = word_of_nat (the (from_chars_all 16 8 ds))" "p' = p + 2 + length ds" "s' = dropWhile isxdigit (drop 2 s)"
    using a by (auto simp: parse_array_byte_def Let_def ds_def[symmetric] split: if_splits option.splits)
  obtain x0 x1 t where t: "s = x0 # x1 # t" using g by (cases s; cases "tl s") auto
  moreover have "t = ds @ s'" using t e(3) ds_def by simp
  moreover have "the (from_chars_all 16 8 ds) = digits_value 16 ds 0"
    using v by (metis from_chars_all_iff option.exhaust_sel)
  moreover have "\<forall>c\<in>set ds. isxdigit c" by (auto simp: ds_def dest: set_takeWhileD)
  moreover have "x0 = CHR ''0''" "is_x x1" using g t by auto
  ultimately show ?thesis
    using ne e by (intro exI[of _ x1] exI[of _ ds]) (simp add: \<open>t = ds @ s'\<close> not_less)
qed

lemma parse_array_byte_complete:
  assumes "is_x x" "ds \<noteq> []" "length ds \<le> 2" "\<forall>c\<in>set ds. isxdigit c" "s = [] \<or> \<not> isxdigit (hd s)"
  shows "parse_array_byte p (CHR ''0'' # x # ds @ s)
    = Inr (word_of_nat (digits_value 16 ds 0), p + 2 + length ds, s)"
proof -
  have tw: "takeWhile isxdigit (ds @ s) = ds" "dropWhile isxdigit (ds @ s) = s"
    using takeWhile_all_append[OF assms(4,5)] dropWhile_all_append[OF assms(4,5)] by auto
  have "digits_value 16 ds 0 < 16 ^ length ds"
    using assms(4) by (intro digits_value_bound) (simp add: isxdigit_def)
  also have "\<dots> \<le> 16 ^ 2" using assms(3) by (intro power_increasing) auto
  finally have "from_chars_all 16 8 ds = Some (digits_value 16 ds 0)"
    using assms by (simp add: from_chars_all_iff isxdigit_def)
  then show ?thesis using assms tw by (auto simp: parse_array_byte_def Let_def Suc_le_eq)
qed

lemma array_after_hd: "array_after s bs \<Longrightarrow> s \<noteq> [] \<and> \<not> isxdigit (hd s)"
  by (erule array_after.cases) (auto dest: xdigit_not_space)

text \<open>What \<open>parse_array\<close> does after an element, as a function of its own for the proofs.\<close>

definition parse_after :: "nat \<Rightarrow> string \<Rightarrow> u8 list \<Rightarrow> code_result" where
  "parse_after position rest result =
     (let (position, rest) = skip_whitespace position rest
      in if rest \<noteq> [] \<and> hd rest = CHR ''}'' then parse_array position rest result
         else if rest = [] \<or> hd rest \<noteq> CHR '','' then Inl (ExpectedCommaOrBrace position)
         else parse_array (position + 1) (tl rest) result)"

lemma parse_array_unfold:
  "parse_array p s acc =
     (let (p, s) = skip_whitespace p s
      in if s = [] then Inl MissingClosingBrace
         else if hd s = CHR ''}''
         then (let (p, s) = skip_whitespace (p + 1) (tl s)
               in if s \<noteq> [] then Inl (UnexpectedTextAfterArray p)
                  else if acc = [] then Inl NoCodeToRun else Inr acc)
         else case parse_array_byte p s of Inl e \<Rightarrow> Inl e
              | Inr (b, p, s) \<Rightarrow> parse_after p s (acc @ [b]))"
  unfolding parse_after_def by (rule parse_array.simps)

lemma parse_array_space: "isspace c \<Longrightarrow> parse_array p (c # s) acc = parse_array (p + 1) s acc"
  by (simp only: parse_array_unfold[of p "c # s"] parse_array_unfold[of "p + 1" s] skip_whitespace_Cons)

lemma parse_array_complete:
  "array_text s bs \<Longrightarrow> acc @ bs \<noteq> [] \<Longrightarrow> parse_array p s acc = Inr (acc @ bs)"
  "array_after s bs \<Longrightarrow> acc \<noteq> [] \<Longrightarrow> parse_after p s acc = Inr (acc @ bs)"
proof (induction arbitrary: p acc and p acc rule: array_text_array_after.inducts)
  case (arr_space c s bs)
  then show ?case by (simp add: parse_array_space)
next
  case (arr_close s)
  then show ?case using skip_whitespace_append[of s "p + 1" "[]"] by (simp add: parse_array_unfold)
next
  case (arr_byte x ds s bs)
  then show ?case
    using parse_array_byte_complete[of x ds s p] array_after_hd[of s bs] by (simp add: parse_array_unfold)
next
  case (after_space c s bs)
  then show ?case by (simp add: parse_after_def)
next
  case (after_close s bs)
  then show ?case by (simp add: parse_after_def)
next
  case (after_comma s bs)
  then show ?case by (simp add: parse_after_def)
qed

lemma parse_array_sound:
  "parse_array p s acc = Inr r \<Longrightarrow> r \<noteq> [] \<and> (\<exists>bs. r = acc @ bs \<and> array_text s bs)"
proof (induction p s acc arbitrary: r rule: parse_array.induct)
  case (1 p s acc)
  obtain p1 s1 where sk: "skip_whitespace p s = (p1, s1)" by fastforce
  then obtain w where w: "s = w @ s1" "\<forall>c\<in>set w. isspace c" using skip_whitespace_split by blast
  have ne: "s1 \<noteq> []" using "1.prems" sk by (auto simp: parse_array_unfold)
  show ?case
  proof (cases "hd s1 = CHR ''}''")
    case True
    obtain p2 s2 where sk2: "skip_whitespace (p1 + 1) (tl s1) = (p2, s2)" by fastforce
    then have "s2 = []" "r = acc" "acc \<noteq> []"
      using "1.prems" sk ne True by (auto simp: parse_array_unfold split: if_splits)
    moreover have "\<forall>c\<in>set (tl s1). isspace c"
      using skip_whitespace_split[OF sk2] \<open>s2 = []\<close> by auto
    then have "array_text s1 []" using ne True by (cases s1) (auto intro: arr_close)
    ultimately show ?thesis using w array_text_spaces[OF w(2)] by auto
  next
    case False
    with "1.prems" sk ne obtain b p2 s2 where b: "parse_array_byte p1 s1 = Inr (b, p2, s2)"
      and af: "parse_after p2 s2 (acc @ [b]) = Inr r"
      by (auto simp: parse_array_unfold split: sum.splits)
    obtain p3 s3 where sk3: "skip_whitespace p2 s2 = (p3, s3)" by fastforce
    then obtain w3 where w3: "s2 = w3 @ s3" "\<forall>c\<in>set w3. isspace c" using skip_whitespace_split by blast
    note IH = "1.IH"[OF sk[symmetric] refl ne False b refl refl sk3[symmetric] refl]
    have "r \<noteq> [] \<and> (\<exists>bs. r = (acc @ [b]) @ bs \<and> array_after s3 bs)"
    proof (cases "s3 \<noteq> [] \<and> hd s3 = CHR ''}''")
      case True
      then have "parse_array p3 s3 (acc @ [b]) = Inr r" using af sk3 by (simp add: parse_after_def)
      from IH(1)[OF True this] show ?thesis using True by (cases s3) (auto intro: after_close)
    next
      case no: False
      then have c: "\<not> (s3 = [] \<or> hd s3 \<noteq> CHR '','')" and rec: "parse_array (p3 + 1) (tl s3) (acc @ [b]) = Inr r"
        using af sk3 by (auto simp: parse_after_def split: if_splits)
      from IH(2)[OF no c rec] show ?thesis using c by (cases s3) (auto intro: after_comma)
    qed
    then obtain bs where r: "r = (acc @ [b]) @ bs" "array_after s3 bs" "r \<noteq> []" by blast
    then have "array_after s2 bs" using w3 array_after_spaces by auto
    then have "array_text s1 (b # bs)" using parse_array_byte_Inr[OF b] by (auto intro: arr_byte)
    then show ?thesis using r w array_text_spaces[OF w(2)] by auto
  qed
qed

lemma hex_text_nonempty: "hex_text s bs \<Longrightarrow> s \<noteq> [] \<Longrightarrow> \<not> isspace (hd s) \<Longrightarrow> bs \<noteq> []"
  by (erule hex_text.cases) auto

lemma escape_text_nonempty: "escape_text s bs \<Longrightarrow> s \<noteq> [] \<Longrightarrow> \<not> isspace (hd s) \<Longrightarrow> bs \<noteq> []"
  by (erule escape_text.cases) auto

lemma parse_code_text_sound: "parse_code_text t = Inr bs \<Longrightarrow> code_text t bs"
proof -
  assume a: "parse_code_text t = Inr bs"
  obtain p s where sk: "skip_whitespace 0 t = (p, s)" by fastforce
  then obtain w where w: "t = w @ s" "\<forall>c\<in>set w. isspace c" "s = [] \<or> \<not> isspace (hd s)"
    using skip_whitespace_split by blast
  have ne: "s \<noteq> []" using a sk by (auto simp: parse_code_text_def)
  consider "hd s = CHR ''{''" | "hd s = CHR 0x5C" | "hd s \<noteq> CHR ''{''" "hd s \<noteq> CHR 0x5C" by blast
  then show ?thesis
  proof cases
    case 1
    then have "parse_array (p + 1) (tl s) [] = Inr bs" using a sk ne by (simp add: parse_code_text_def)
    from parse_array_sound[OF this] show ?thesis
      using 1 ne w code_array[of "tl s" bs w] by (cases s) auto
  next
    case 2
    then have "parse_escapes p s [] = Inr bs" using a sk ne by (simp add: parse_code_text_def)
    from parse_escapes_sound[OF this] show ?thesis using 2 ne w by (auto intro: code_escape)
  next
    case 3
    then have "parse_hex p s [] = Inr bs" using a sk ne by (simp add: parse_code_text_def)
    from parse_hex_sound[OF this] show ?thesis using 3 ne w by (auto intro: code_hex)
  qed
qed

lemma parse_code_text_complete: "code_text t bs \<Longrightarrow> parse_code_text t = Inr bs"
proof (induction rule: code_text.induct)
  case (code_hex s bs w)
  then show ?case using parse_hex_complete[of s bs "length w" "[]"]
    by (cases s) (simp_all add: parse_code_text_def)
next
  case (code_escape s bs w)
  then show ?case using parse_escapes_complete[of s bs "length w" "[]"]
    by (cases s) (simp_all add: parse_code_text_def)
next
  case (code_array s bs w)
  then show ?case using parse_array_complete(1)[of s bs "[]" "length w + 1"]
    by (simp add: parse_code_text_def)
qed

lemma code_text_bytes: "code_text t bs \<Longrightarrow> bs \<noteq> []"
  by (erule code_text.cases) (auto dest: hex_text_nonempty escape_text_nonempty)

lemma hex_text_length: "hex_text s bs \<Longrightarrow> 2 * length bs \<le> length s"
  by (induction rule: hex_text.induct) auto

lemma escape_text_length: "escape_text s bs \<Longrightarrow> 2 * length bs \<le> length s"
  by (induction rule: escape_text.induct) auto

lemma array_text_length:
  "array_text s bs \<Longrightarrow> 2 * length bs \<le> length s" "array_after s bs \<Longrightarrow> 2 * length bs \<le> length s"
  by (induction rule: array_text_array_after.inducts) auto

lemma code_text_length: "code_text t bs \<Longrightarrow> 2 * length bs \<le> length t"
  by (erule code_text.cases)
    (auto dest!: hex_text_length escape_text_length array_text_length(1))

section \<open>Error positions\<close>

fun error_position :: "code_error \<Rightarrow> nat" where
  "error_position (DanglingHexNibble p) = p"
| "error_position (InvalidHexByte s p) = p"
| "error_position NoCodeToRun = 0"
| "error_position MissingClosingBrace = 0"
| "error_position (UnexpectedTextAfterArray p) = p"
| "error_position (ExpectedPrefixedByte p) = p"
| "error_position (ExpectedHexadecimalByte p) = p"
| "error_position (ByteExceedsFF p) = p"
| "error_position (InvalidHexadecimalByte p) = p"
| "error_position (ExpectedCommaOrBrace p) = p"
| "error_position (ExpectedEscapedByte p) = p"

lemma skip_whitespace_end: "skip_whitespace p s = (p', s') \<Longrightarrow> p' + length s' = p + length s"
  by (auto dest!: skip_whitespace_split)

lemma parse_byte_error: "parse_byte p s = Inl e \<Longrightarrow> error_position e = p"
  by (auto simp: parse_byte_def split: if_splits option.splits)

lemma parse_hex_error: "parse_hex p s acc = Inl e \<Longrightarrow> error_position e \<le> p + length s"
proof (induction p s acc rule: parse_hex.induct)
  case (2 p c cs acc)
  then show ?case by (cases cs) (auto split: if_splits sum.splits dest!: parse_byte_error)
qed simp

lemma parse_escapes_error: "parse_escapes p s acc = Inl e \<Longrightarrow> error_position e \<le> p + length s"
proof (induction p s acc rule: parse_escapes.induct)
  case (1 p s acc)
  obtain p' s' where sk: "skip_whitespace p s = (p', s')" by fastforce
  have len: "p' + length s' = p + length s" by (rule skip_whitespace_end[OF sk])
  consider "error_position e = p'" | "error_position e = p' + 2" "4 \<le> length s'"
    | b where "s' \<noteq> []" "\<not> (length s' < 4 \<or> s' ! 0 \<noteq> CHR 0x5C \<or> \<not> is_x (s' ! 1))"
        "parse_byte (p' + 2) (drop 2 s') = Inr b" "parse_escapes (p' + 4) (drop 4 s') (acc @ [b]) = Inl e"
    using "1.prems" sk
    by (subst (asm) parse_escapes.simps) (auto split: if_splits sum.splits dest!: parse_byte_error)
  then show ?case
  proof cases
    case 3
    from "1.IH"[OF sk[symmetric] refl 3] have "error_position e \<le> p' + 4 + length (drop 4 s')" .
    then show ?thesis using 3(2) len by auto
  qed (use len in auto)
qed

lemma parse_array_byte_error:
  "parse_array_byte p s = Inl e \<Longrightarrow> error_position e \<le> p + length s"
  by (auto simp: parse_array_byte_def Let_def split: if_splits option.splits)

lemma parse_array_error: "parse_array p s acc = Inl e \<Longrightarrow> error_position e \<le> p + length s"
proof (induction p s acc rule: parse_array.induct)
  case (1 p s acc)
  obtain p1 s1 where sk: "skip_whitespace p s = (p1, s1)" by fastforce
  note len = skip_whitespace_end[OF sk]
  show ?case
  proof (cases "s1 = [] \<or> hd s1 = CHR ''}''")
    case True
    then show ?thesis using "1.prems" sk len skip_whitespace_end[of "p1 + 1" "tl s1"]
      by (cases s1) (fastforce simp: parse_array_unfold split: if_splits prod.splits)+
  next
    case False
    show ?thesis
    proof (cases "parse_array_byte p1 s1")
      case (Inl e')
      then show ?thesis using "1.prems" sk len False parse_array_byte_error[of p1 s1 e]
        by (auto simp: parse_array_unfold)
    next
      case (Inr a)
      obtain b p2 s2 where b: "parse_array_byte p1 s1 = Inr (b, p2, s2)" using Inr by (cases a) auto
      have len2: "p2 + length s2 = p1 + length s1" using parse_array_byte_Inr[OF b] by auto
      obtain p3 s3 where sk3: "skip_whitespace p2 s2 = (p3, s3)" by fastforce
      note len3 = skip_whitespace_end[OF sk3]
      note IH = "1.IH"[OF sk[symmetric] refl _ _ b refl refl sk3[symmetric] refl]
      have "parse_after p2 s2 (acc @ [b]) = Inl e" using "1.prems" sk False b by (simp add: parse_array_unfold)
      then show ?thesis
        using IH False len len2 len3 sk3
        by (cases s3) (auto simp: parse_after_def split: if_splits)
    qed
  qed
qed

section \<open>Round trip with the byte printer\<close>

lemma byte_digits_value_hex: "byte_digits_value (hexchar (unat b div 16)) (hexchar (unat b)) = b"
proof -
  have "digits_value 16 (hex_nat 2 (unat b)) 0 = unat b"
    using digits_value_hex_nat[of 2 "unat b"] unat_lt_2p[of b] by simp
  then show ?thesis by (simp add: byte_digits_value_def numeral_2_eq_2 del: digits_value.simps)
qed

lemma hex_text_format_bytes: "hex_text (format_bytes bs) bs"
proof (induction bs)
  case Nil
  show ?case by (simp add: hex_end)
next
  case (Cons b bs)
  have "hex_text (hexchar (unat b div 16) # hexchar (unat b) # format_bytes bs)
      (byte_digits_value (hexchar (unat b div 16)) (hexchar (unat b)) # bs)"
    by (rule hex_byte) (simp_all add: isxdigit_def Cons)
  then show ?case by (simp add: byte_digits_value_hex numeral_2_eq_2)
qed

lemma parse_code_text_format_bytes:
  assumes "bs \<noteq> []"
  shows "parse_code_text (format_bytes bs) = Inr bs"
proof -
  obtain b bs' where bs: "bs = b # bs'" using assms by (cases bs) auto
  let ?s = "format_bytes bs"
  have "?s \<noteq> []" "isxdigit (hd ?s)" by (auto simp: bs numeral_2_eq_2 isxdigit_def)
  then have "code_text ([] @ ?s) bs"
    by (intro code_hex hex_text_format_bytes) (auto dest: xdigit_not_space)
  then show ?thesis by (simp add: parse_code_text_complete)
qed

text \<open>The bytes that the JSON export prints as \<open>input_bytes\<close> read back through \<open>--bytes\<close>.\<close>

interpretation input_bytes: text_codec "\<lambda>bs. bs \<noteq> []" format_bytes parse_code_text
  by unfold_locales (rule parse_code_text_format_bytes)

section \<open>Properties\<close>

text \<open>
  C1: the byte-text parser accepts exactly the three documented notations, with the bytes they
  spell: a text parses to \<open>bs\<close> if and only if the grammar derives \<open>bs\<close> from it.
\<close>

theorem parse_code_text_correct: "parse_code_text t = Inr bs \<longleftrightarrow> code_text t bs"
  using parse_code_text_sound parse_code_text_complete by blast

text \<open>
  A successful parse never returns an empty program, never returns more bytes than the
  reservation \<open>(size - position) / 2\<close> allows, and a failed parse reports a position inside the
  text or at its end.
\<close>

lemma parse_code_text_bounds:
  "case parse_code_text t of
     Inr bs \<Rightarrow> 0 < length bs \<and> 2 * length bs \<le> length t
   | Inl e \<Rightarrow> error_position e \<le> length t"
proof (cases "parse_code_text t")
  case (Inr bs)
  then have "code_text t bs" by (rule parse_code_text_sound)
  then show ?thesis using Inr code_text_bytes code_text_length by simp
next
  case (Inl e)
  obtain p s where sk: "skip_whitespace 0 t = (p, s)" by fastforce
  have "error_position e \<le> p + length s"
    using Inl sk parse_array_error[of "p + 1" "tl s" "[]" e] parse_escapes_error[of p s "[]" e]
      parse_hex_error[of p s "[]" e]
    by (cases s) (auto simp: parse_code_text_def split: if_splits)
  then show ?thesis using Inl skip_whitespace_end[OF sk] by simp
qed

end
