(* ===== verification/Input.thy ===== *)
theory Input
  imports Report ParseCode
begin

text \<open>
  Raw files and byte text of src/src/bme_core.cpp: \<open>read_binary_input\<close>, which loads the file named by
  \<open>--file\<close>, and \<open>format_code_text\<close>, which shows its bytes in the byte field. The file system is a
  parameter: what opening a path gives, the end position, and the bytes that a read delivers.
\<close>

section \<open>Joined fields\<close>

text \<open>\<open>fmt::join(items, separator)\<close> and \<open>{:02X}\<close> on a range of bytes.\<close>

fun join_text :: "string \<Rightarrow> string list \<Rightarrow> string" where
  "join_text separator [] = []"
| "join_text separator [item] = item"
| "join_text separator (item # item' # items) = item @ separator @ join_text separator (item' # items)"

definition hex_bytes :: "string \<Rightarrow> u8 list \<Rightarrow> string" where
  "hex_bytes separator bytes = join_text separator (map (\<lambda>b. hex_padded 2 (unat b)) bytes)"

text \<open>The fmt fields \<open>{:>k}\<close> and \<open>{:<k}\<close> on texts.\<close>

definition pad_left :: "nat \<Rightarrow> string \<Rightarrow> string" where
  "pad_left k s = replicate (k - length s) (CHR '' '') @ s"

definition pad_right :: "nat \<Rightarrow> string \<Rightarrow> string" where
  "pad_right k s = s @ replicate (k - length s) (CHR '' '')"

definition format_code_text :: "u8 list \<Rightarrow> string" where
  "format_code_text code = hex_bytes '' '' code"

section \<open>Raw files\<close>

definition MAX_RAW_FILE_BYTES :: nat where
  "MAX_RAW_FILE_BYTES = MAX_STEPS_LIMIT * 15"

text \<open>
  An open \<open>std::ifstream\<close> positioned at its end: what \<open>tellg\<close> gives (negative on failure), whether
  \<open>seekg(0)\<close> succeeds, and the bytes from the start of the file that can be read. \<open>read\<close> of more
  bytes than that sets the failure bit.
\<close>

record InputFile =
  file_end :: int
  file_seeks :: bool
  file_bytes :: "u8 list"

datatype input_error =
    CouldNotOpen string
  | NoUsableSize string
  | ExceedsLimit string nat
  | CouldNotRead string
  | EmptyInput

definition read_binary_input :: "(string \<Rightarrow> InputFile option) \<Rightarrow> string \<Rightarrow> (input_error, u8 list) result" where
  "read_binary_input open_file path =
     (case open_file path of
        None \<Rightarrow> Inl (CouldNotOpen path)
      | Some input \<Rightarrow>
          (if file_end input < 0 then Inl (NoUsableSize path)
           else let end_value = nat (file_end input)
                in if end_value > 2 ^ 64 - 1 \<or> end_value > 2 ^ 63 - 1 then Inl (NoUsableSize path)
                   else if end_value > MAX_RAW_FILE_BYTES then Inl (ExceedsLimit path MAX_RAW_FILE_BYTES)
                   else if \<not> file_seeks input \<or> end_value \<noteq> 0 \<and> length (file_bytes input) < end_value
                   then Inl (CouldNotRead path)
                   else if end_value = 0 then Inl EmptyInput
                   else Inr (take end_value (file_bytes input))))"

section \<open>The byte field shows what was loaded\<close>

lemma hex_padded_byte: "hex_padded 2 (unat b) = [hexchar (unat b div 16), hexchar (unat b)]" for b :: u8
proof -
  have "unat b < 256" using unat_lt_2p[of b] by simp
  then show ?thesis
    by (auto simp: hex_padded_def hex_upper.simps[of "unat b"] hex_upper.simps[of "unat b div 16"]
        hexchar_def HEX_DIGITS_def)
qed

lemma hex_text_byte: "hex_text s bs \<Longrightarrow> hex_text (hex_padded 2 (unat b) @ s) (b # bs)"
  using hex_byte[of "hexchar (unat b div 16)" "hexchar (unat b)" s bs]
  by (simp add: hex_padded_byte byte_digits_value_hex isxdigit_def)

lemma hex_text_format_code_text: "hex_text (format_code_text code) code"
proof (induction code)
  case Nil
  show ?case by (simp add: format_code_text_def hex_bytes_def hex_end)
next
  case (Cons b bs)
  have "hex_text (hex_padded 2 (unat b) @ (if bs = [] then [] else CHR '' '' # format_code_text bs)) (b # bs)"
    using hex_text_byte[OF hex_end, of b] hex_text_byte[OF hex_space[OF _ Cons], of "CHR '' ''" b]
    by (simp add: isspace_def)
  moreover have "format_code_text (b # bs)
      = hex_padded 2 (unat b) @ (if bs = [] then [] else CHR '' '' # format_code_text bs)"
    by (cases bs) (simp_all add: format_code_text_def hex_bytes_def)
  ultimately show ?case by simp
qed

lemma format_code_text_start:
  assumes "code \<noteq> []"
  shows "\<exists>d t. format_code_text code = hexchar d # t"
proof -
  obtain b bs where "code = b # bs" using assms by (cases code) auto
  then show ?thesis
    by (cases bs) (auto simp: format_code_text_def hex_bytes_def hex_padded_byte)
qed

lemma parse_format_code_text:
  assumes "code \<noteq> []"
  shows "parse_code_text (format_code_text code) = Inr code"
proof -
  obtain d t where t: "format_code_text code = hexchar d # t" using format_code_text_start[OF assms] by blast
  have x: "isxdigit (hexchar d)" by (simp add: isxdigit_def)
  then have "code_text ([] @ format_code_text code) code"
    using hex_text_format_code_text[of code] by (intro code_hex) (auto simp: t)
  then show ?thesis using parse_code_text_complete by simp
qed

interpretation code_field: text_codec "\<lambda>code. code \<noteq> []" format_code_text parse_code_text
  by unfold_locales (rule parse_format_code_text)

text \<open>
  C33: a file the interface loads is run byte for byte. When \<open>read_binary_input\<close> succeeds, the result is
  the file up to its end position, it is neither empty nor longer than the limit, and the text that the
  byte field then shows parses back to exactly these bytes.
\<close>

theorem loaded_file_runs:
  assumes "read_binary_input open_file path = Inr code"
  shows "(\<exists>input. open_file path = Some input \<and> code = take (nat (file_end input)) (file_bytes input)
        \<and> int (length code) = file_end input)
    \<and> code \<noteq> [] \<and> length code \<le> MAX_RAW_FILE_BYTES \<and> parse_code_text (format_code_text code) = Inr code"
proof -
  obtain input where input: "open_file path = Some input" "0 < file_end input"
    "nat (file_end input) \<le> MAX_RAW_FILE_BYTES" "nat (file_end input) \<le> length (file_bytes input)"
    "code = take (nat (file_end input)) (file_bytes input)"
    using assms by (auto simp: read_binary_input_def Let_def split: option.splits if_splits)
  then have len: "length code = nat (file_end input)" by simp
  then have "code \<noteq> []" using input(2) by auto
  then show ?thesis using input len code_field.decode_encode by auto
qed

theorem loaded_file_runs_witness:
  "let open_file = (\<lambda>path. if path = ''code.bin'' then Some \<lparr>file_end = 3, file_seeks = True, file_bytes = [0x90, 0xCC, 0x0F]\<rparr> else None)
   in read_binary_input open_file ''code.bin'' = Inr [0x90, 0xCC, 0x0F]
     \<and> parse_code_text (format_code_text [0x90, 0xCC, 0x0F]) = Inr [0x90, 0xCC, 0x0F]"
proof -
  let ?open = "\<lambda>path. if path = ''code.bin'' then Some \<lparr>file_end = 3, file_seeks = True, file_bytes = [0x90, 0xCC, 0x0F]\<rparr> else None"
  have "read_binary_input ?open ''code.bin'' = Inr [0x90, 0xCC, 0x0F]"
    by (simp add: read_binary_input_def MAX_RAW_FILE_BYTES_def MAX_STEPS_LIMIT_def)
  with loaded_file_runs[OF this] show ?thesis by simp
qed

end
