(* ===== verification/Cli.thy ===== *)
theory Cli
  imports Seed
begin

text \<open>
  The command line of src/src/bme_core.cpp: \<open>--seed\<close> (\<open>parse_cli_seed_argument\<close> and its helpers) and
  \<open>CLI::parse\<close>. The argparse library is a parameter, \<open>parse_args\<close>, that turns the arguments into a record
  of the options it recognised; \<open>argparse_contract\<close> is what its documentation promises for the
  options declared here.
\<close>

section \<open>Errors\<close>

datatype cli_error =
    ArgparseError string
  | SeedExpectedNameValue string
  | SeedEmptyValue string
  | SeedFieldError seed_error
  | SeedInvalidValue string
  | SeedRSP
  | SeedUnknownName string
  | FormatRequiresQuick
  | PrettyRequiresQuickJson
  | TrackWithJson
  | InvalidMaxSteps string
  | UnknownTrackClass string
  | BackendOnlyIntel string

section \<open>Splitting\<close>

text \<open>\<open>std::views::split\<close> on one character: an empty text has no part.\<close>

fun split_on :: "char \<Rightarrow> string \<Rightarrow> string list" where
  "split_on c [] = [[]]"
| "split_on c (x # xs) =
     (if x = c then [] # split_on c xs
      else (case split_on c xs of [] \<Rightarrow> [[x]] | y # ys \<Rightarrow> (x # y) # ys))"

definition views_split :: "char \<Rightarrow> string \<Rightarrow> string list" where
  "views_split c s = (if s = [] then [] else split_on c s)"

section \<open>\<open>--seed\<close>\<close>

definition parse_cli_seed_value :: "string \<Rightarrow> (cli_error, u64) result" where
  "parse_cli_seed_value text =
     (case parse_seed text of
        Inl _ \<Rightarrow> Inl (SeedInvalidValue text)
      | Inr value \<Rightarrow> if text = [] then Inl (SeedInvalidValue text) else Inr value)"

definition parse_xmm_seed_index :: "string \<Rightarrow> nat option" where
  "parse_xmm_seed_index text =
     (if length text < 4 \<or> text ! 0 \<notin> set ''xX'' \<or> text ! 1 \<notin> set ''mM'' \<or> text ! 2 \<notin> set ''mM'' then None
      else case from_chars_all 10 64 (drop 3 text) of
             None \<Rightarrow> None
           | Some result \<Rightarrow> if result \<ge> 16 then None else Some result)"

definition parse_st_seed_index :: "string \<Rightarrow> nat option" where
  "parse_st_seed_index text =
     (if length text \<noteq> 3 \<or> text ! 0 \<notin> set ''sS'' \<or> text ! 1 \<notin> set ''tT'' then None
      else case from_chars_all 10 64 (drop 2 text) of
             None \<Rightarrow> None
           | Some result \<Rightarrow> if result \<ge> 8 then None else Some result)"

datatype gpr_slice = SliceFull | SliceDword | SliceWord | SliceByteLow | SliceByteHigh

definition slice_named :: "string \<Rightarrow> nat \<Rightarrow> gpr_slice option" where
  "slice_named name reg =
     (if ascii_case_insensitive_equal name (REG_NAMES ! reg) then Some SliceFull
      else if ascii_case_insensitive_equal name (GPR_NAMES_32 ! reg) then Some SliceDword
      else if ascii_case_insensitive_equal name (GPR_NAMES_16 ! reg) then Some SliceWord
      else if ascii_case_insensitive_equal name (GPR_NAMES_8L ! reg) then Some SliceByteLow
      else if reg < length GPR_NAMES_8H \<and> ascii_case_insensitive_equal name (GPR_NAMES_8H ! reg)
      then Some SliceByteHigh
      else None)"

text \<open>The search loop over the registers, which stops at the first match and refuses \<open>RSP\<close>.\<close>

fun find_slice :: "string \<Rightarrow> nat list \<Rightarrow> (cli_error, (nat \<times> gpr_slice) option) result" where
  "find_slice name [] = Inr None"
| "find_slice name (reg # regs) =
     (case slice_named name reg of
        None \<Rightarrow> find_slice name regs
      | Some slc \<Rightarrow> if reg = reg_index RSP then Inl SeedRSP else Inr (Some (reg, slc)))"

fun set_slice :: "gpr_slice \<Rightarrow> string \<Rightarrow> GPRSeed \<Rightarrow> GPRSeed" where
  "set_slice SliceFull t s = s\<lparr>full := t\<rparr>"
| "set_slice SliceDword t s = s\<lparr>dword := t\<rparr>"
| "set_slice SliceWord t s = s\<lparr>word16 := t\<rparr>"
| "set_slice SliceByteLow t s = s\<lparr>byte_low := t\<rparr>"
| "set_slice SliceByteHigh t s = s\<lparr>byte_high := t\<rparr>"

definition seed_flag_entry :: "string \<Rightarrow> string \<Rightarrow> CLI \<Rightarrow> (cli_error, CLI) result" where
  "seed_flag_entry name value_text cli =
     (case find (\<lambda>flag. ascii_case_insensitive_equal name (fst flag)) STATUS_FLAGS of
        None \<Rightarrow> Inl (SeedUnknownName name)
      | Some flag \<Rightarrow>
          (case parse_cli_seed_value value_text of
             Inl e \<Rightarrow> Inl e
           | Inr value \<Rightarrow>
               Inr (cli\<lparr>cli_seed_flags :=
                 (if value \<noteq> 0 then cli_seed_flags cli OR snd flag
                  else cli_seed_flags cli AND NOT (snd flag))\<rparr>)))"

definition seed_gpr_entry :: "string \<Rightarrow> string \<Rightarrow> CLI \<Rightarrow> (cli_error, CLI) result" where
  "seed_gpr_entry name value_text cli =
     (case find_slice name [0..<GPR_COUNT] of
        Inl e \<Rightarrow> Inl e
      | Inr (Some (reg, slc)) \<Rightarrow>
          (case parse_cli_seed_value value_text of
             Inl e \<Rightarrow> Inl e
           | Inr _ \<Rightarrow>
               Inr (cli\<lparr>cli_seed_gpr :=
                 (cli_seed_gpr cli)[reg := set_slice slc value_text (cli_seed_gpr cli ! reg)]\<rparr>))
      | Inr None \<Rightarrow> seed_flag_entry name value_text cli)"

text \<open>One \<open>name=value\<close> pair after the split at the first \<open>=\<close>: the tests in the order of the loop body.\<close>

definition seed_named_entry :: "string \<Rightarrow> string \<Rightarrow> CLI \<Rightarrow> (cli_error, CLI) result" where
  "seed_named_entry name value_text cli =
     (if ascii_case_insensitive_equal name ''mxcsr''
      then (case parse_mxcsr_seed value_text of
              Inl e \<Rightarrow> Inl (SeedFieldError e)
            | Inr _ \<Rightarrow> Inr (cli\<lparr>cli_seed_env := (cli_seed_env cli)\<lparr>seed_mxcsr := value_text\<rparr>\<rparr>))
      else if ascii_case_insensitive_equal name ''control_word''
      then (case parse_fpu_control_word_seed value_text of
              Inl e \<Rightarrow> Inl (SeedFieldError e)
            | Inr _ \<Rightarrow> Inr (cli\<lparr>cli_seed_env := (cli_seed_env cli)\<lparr>seed_fpu_control_word := value_text\<rparr>\<rparr>))
      else case parse_xmm_seed_index name of
             Some i \<Rightarrow>
               (case compose_xmm_seed value_text of
                  Inl e \<Rightarrow> Inl (SeedFieldError e)
                | Inr _ \<Rightarrow> Inr (cli\<lparr>cli_seed_xmm := (cli_seed_xmm cli)[i := value_text]\<rparr>))
           | None \<Rightarrow>
               (case parse_st_seed_index name of
                  Some i \<Rightarrow>
                    (case compose_st_seed value_text of
                       Inl e \<Rightarrow> Inl (SeedFieldError e)
                     | Inr _ \<Rightarrow> Inr (cli\<lparr>cli_seed_st := (cli_seed_st cli)[i := value_text]\<rparr>))
                | None \<Rightarrow> seed_gpr_entry name value_text cli))"

definition seed_entry :: "string \<Rightarrow> CLI \<Rightarrow> (cli_error, CLI) result" where
  "seed_entry entry cli =
     (if entry = [] then Inr cli
      else if CHR ''='' \<notin> set entry then Inl (SeedExpectedNameValue entry)
      else let name = takeWhile (\<lambda>c. c \<noteq> CHR ''='') entry;
               value_text = tl (dropWhile (\<lambda>c. c \<noteq> CHR ''='') entry)
           in if value_text = [] then Inl (SeedEmptyValue entry)
              else seed_named_entry name value_text cli)"

fun seed_entries :: "string list \<Rightarrow> CLI \<Rightarrow> (cli_error, CLI) result" where
  "seed_entries [] cli = Inr cli"
| "seed_entries (entry # entries) cli =
     (case seed_entry entry cli of Inl e \<Rightarrow> Inl e | Inr cli' \<Rightarrow> seed_entries entries cli')"

definition parse_cli_seed_argument :: "string \<Rightarrow> CLI \<Rightarrow> (cli_error, CLI) result" where
  "parse_cli_seed_argument seed_text cli = seed_entries (views_split CHR '','' seed_text) cli"

section \<open>\<open>CLI::parse\<close>\<close>

text \<open>What \<open>program.parse_args\<close> leaves for \<open>get\<close>, \<open>present\<close> and \<open>is_used\<close>.\<close>

record Arguments =
  arg_bytes :: "string option"
  arg_file :: "string option"
  arg_run :: bool
  arg_syntax :: string
  arg_max_steps :: "string option"
  arg_quick :: bool
  arg_format :: string
  arg_format_used :: bool
  arg_pretty :: bool
  arg_track :: "string option"
  arg_seed :: "string option"
  arg_backend :: string

definition argparse_contract :: "('argv \<Rightarrow> (string, Arguments) result) \<Rightarrow> bool" where
  "argparse_contract parse_args \<longleftrightarrow>
     (\<forall>argv a. parse_args argv = Inr a \<longrightarrow>
        (arg_bytes a = None \<or> arg_file a = None)
        \<and> arg_syntax a \<in> {''intel'', ''att''}
        \<and> arg_format a \<in> {''text'', ''json''} \<and> (\<not> arg_format_used a \<longrightarrow> arg_format a = ''text'')
        \<and> arg_backend a \<in> {''zydis'', ''bddisasm'', ''capstone'', ''xed''})"

definition parse_max_steps :: "string option \<Rightarrow> (cli_error, nat) result" where
  "parse_max_steps arg =
     (case arg of
        None \<Rightarrow> Inr DEFAULT_MAX_STEPS
      | Some text \<Rightarrow>
          (case from_chars_all 10 64 text of
             None \<Rightarrow> Inl (InvalidMaxSteps text)
           | Some max_steps \<Rightarrow>
               if max_steps = 0 then Inl (InvalidMaxSteps text) else Inr (min max_steps MAX_STEPS_LIMIT)))"

definition track_none :: TrackMask where
  "track_none = \<lparr>track_gpr = False, track_rip = False, track_rflags = False, track_xmm = False, track_x87 = False\<rparr>"

definition track_all :: TrackMask where
  "track_all = \<lparr>track_gpr = True, track_rip = True, track_rflags = True, track_xmm = True, track_x87 = True\<rparr>"

fun track_tokens :: "string list \<Rightarrow> TrackMask \<Rightarrow> (cli_error, TrackMask) result" where
  "track_tokens [] track = Inr track"
| "track_tokens (token # tokens) track =
     (if token = ''gpr'' then track_tokens tokens (track\<lparr>track_gpr := True\<rparr>)
      else if token = ''rip'' then track_tokens tokens (track\<lparr>track_rip := True\<rparr>)
      else if token = ''rflags'' \<or> token = ''flags'' then track_tokens tokens (track\<lparr>track_rflags := True\<rparr>)
      else if token = ''xmm'' \<or> token = ''sse'' then track_tokens tokens (track\<lparr>track_xmm := True\<rparr>)
      else if token = ''x87'' \<or> token = ''fpu'' then track_tokens tokens (track\<lparr>track_x87 := True\<rparr>)
      else if token = ''all'' then track_tokens tokens track_all
      else if token \<noteq> [] \<and> token \<noteq> ''none'' then Inl (UnknownTrackClass token)
      else track_tokens tokens track)"

definition parse_track :: "string option \<Rightarrow> (cli_error, TrackMask) result" where
  "parse_track arg =
     (case arg of
        None \<Rightarrow> Inr (track_none\<lparr>track_gpr := True, track_rip := True, track_rflags := True\<rparr>)
      | Some text \<Rightarrow> track_tokens (views_split CHR '','' text) track_none)"

definition parse_arguments :: "Arguments \<Rightarrow> (cli_error, CLI) result" where
  "parse_arguments program =
     (let quick = arg_quick program; format_is_json = (arg_format program = ''json'');
          pretty_json = arg_pretty program
      in if arg_format_used program \<and> \<not> quick then Inl FormatRequiresQuick
         else if pretty_json \<and> (\<not> quick \<or> \<not> format_is_json) then Inl PrettyRequiresQuickJson
         else if format_is_json \<and> arg_track program \<noteq> None then Inl TrackWithJson
         else case parse_max_steps (arg_max_steps program) of
           Inl e \<Rightarrow> Inl e
         | Inr max_steps \<Rightarrow>
           (case parse_track (arg_track program) of
              Inl e \<Rightarrow> Inl e
            | Inr track \<Rightarrow>
              (case (case arg_seed program of
                       None \<Rightarrow> Inr default_cli
                     | Some seed_text \<Rightarrow> parse_cli_seed_argument seed_text default_cli) of
                 Inl e \<Rightarrow> Inl e
               | Inr result \<Rightarrow>
                 let syntax = (if arg_syntax program = ''att'' then ATT else Intel);
                     backend = backend_from_cli (arg_backend program)
                 in if \<not> backend_supports backend syntax
                    then Inl (BackendOnlyIntel (backend_label (backend_info backend)))
                    else Inr (result\<lparr>cli_bytes := arg_bytes program, cli_input_file := arg_file program,
                           cli_run := arg_run program, cli_quick := quick,
                           cli_format := (if format_is_json then JsonFormat else TextFormat),
                           cli_pretty_json := pretty_json, cli_syntax := syntax, cli_backend := backend,
                           cli_max_steps := max_steps, cli_track := track\<rparr>))))"

definition CLI_parse :: "('argv \<Rightarrow> (string, Arguments) result) \<Rightarrow> 'argv \<Rightarrow> (cli_error, CLI) result" where
  "CLI_parse parse_args argv =
     (case parse_args argv of Inl e \<Rightarrow> Inl (ArgparseError e) | Inr program \<Rightarrow> parse_arguments program)"

section \<open>Validated seeds\<close>

definition gpr_seed_ok :: "GPRSeed \<Rightarrow> bool" where
  "gpr_seed_ok s \<longleftrightarrow> malformed [full s, dword s, word16 s, byte_high s, byte_low s] = []"

definition cli_seeds_ok :: "CLI \<Rightarrow> bool" where
  "cli_seeds_ok cli \<longleftrightarrow>
     length (cli_seed_gpr cli) = 16 \<and> length (cli_seed_xmm cli) = 16 \<and> length (cli_seed_st cli) = 8
     \<and> list_all gpr_seed_ok (cli_seed_gpr cli)
     \<and> list_all (\<lambda>t. \<not> isl (compose_xmm_seed t)) (cli_seed_xmm cli)
     \<and> list_all (\<lambda>t. \<not> isl (compose_st_seed t)) (cli_seed_st cli)
     \<and> \<not> isl (parse_mxcsr_seed (seed_mxcsr (cli_seed_env cli)))
     \<and> \<not> isl (parse_fpu_control_word_seed (seed_fpu_control_word (cli_seed_env cli)))
     \<and> cli_seed_gpr cli ! reg_index RSP = empty_gpr_seed
     \<and> cli_seed_flags cli AND NOT RFLAGS_STATUS_MASK = 0"

lemma list_all_update: "list_all P xs \<Longrightarrow> P x \<Longrightarrow> list_all P (xs[i := x])"
  by (auto simp: list_all_iff dest!: set_update_subset_insert[THEN subsetD])

lemma list_all_replicate [simp]: "list_all P (replicate n x) \<longleftrightarrow> n = 0 \<or> P x"
  by (simp add: list_all_length) (auto intro: exI[of _ 0])

lemma slice_value_parse: "parse_cli_seed_value t = Inr v \<Longrightarrow> slice_value t = Some v"
  by (auto simp: parse_cli_seed_value_def slice_value_def split: sum.splits if_splits)

lemma malformed_Nil_iff: "malformed ts = [] \<longleftrightarrow> (\<forall>t\<in>set ts. t = [] \<or> slice_value t \<noteq> None)"
  by (auto simp: malformed_def filter_empty_conv)

lemma gpr_seed_ok_set_slice:
  "gpr_seed_ok s \<Longrightarrow> parse_cli_seed_value t = Inr v \<Longrightarrow> gpr_seed_ok (set_slice slc t s)"
  using slice_value_parse[of t v] by (cases slc) (simp_all add: gpr_seed_ok_def malformed_Nil_iff)

lemma find_slice_Some:
  "find_slice name regs = Inr (Some (reg, slc)) \<Longrightarrow> reg \<in> set regs \<and> reg \<noteq> reg_index RSP"
  by (induction regs) (auto split: option.splits if_splits)

lemma cli_seeds_ok_default: "cli_seeds_ok default_cli"
  by (simp add: cli_seeds_ok_def default_cli_def gpr_seed_ok_def malformed_def empty_gpr_seed_def)

lemma parse_seed_indices:
  "parse_xmm_seed_index t = Some i \<Longrightarrow> i < 16" "parse_st_seed_index t = Some i \<Longrightarrow> i < 8"
  by (auto simp: parse_xmm_seed_index_def parse_st_seed_index_def split: if_splits option.splits)

lemma cli_seeds_ok_gpr:
  assumes "cli_seeds_ok cli" "parse_cli_seed_value t = Inr v" "reg < 16" "reg \<noteq> 7"
  shows "cli_seeds_ok (cli\<lparr>cli_seed_gpr := (cli_seed_gpr cli)[reg := set_slice slc t (cli_seed_gpr cli ! reg)]\<rparr>)"
  using assms gpr_seed_ok_set_slice[OF _ assms(2)]
  by (auto simp: cli_seeds_ok_def list_all_length nth_list_update)

lemma status_flag_bits: "(name, b) \<in> set STATUS_FLAGS \<Longrightarrow> b AND NOT RFLAGS_STATUS_MASK = 0"
  by (auto simp: STATUS_FLAGS_def RFLAGS_STATUS_MASK_def CF_def PF_def AF_def ZF_def SF_def DF_def OF_def)

lemma and_not_bits: "(x :: 'a::len word) AND NOT m = 0 \<longleftrightarrow> (\<forall>n. bit x n \<longrightarrow> bit m n)"
proof -
  have "x AND NOT m = 0 \<longleftrightarrow> (\<forall>n. \<not> bit (x AND NOT m) n)"
    by (metis bit_0_eq bot_apply bot_bool_def bit_word_eqI)
  also have "\<dots> \<longleftrightarrow> (\<forall>n. bit x n \<longrightarrow> bit m n)"
    by (auto simp: bit_simps dest: bit_imp_le_length)
  finally show ?thesis .
qed

lemma find_Some_set: "find P xs = Some x \<Longrightarrow> x \<in> set xs \<and> P x"
  by (auto simp: find_Some_iff)

lemma cli_seeds_ok_flag:
  assumes "cli_seeds_ok cli" "seed_flag_entry name t cli = Inr cli'"
  shows "cli_seeds_ok cli'"
proof -
  obtain flag v where f: "find (\<lambda>flag. ascii_case_insensitive_equal name (fst flag)) STATUS_FLAGS = Some flag"
    and v: "parse_cli_seed_value t = Inr v"
    and c: "cli' = cli\<lparr>cli_seed_flags := (if v \<noteq> 0 then cli_seed_flags cli OR snd flag
        else cli_seed_flags cli AND NOT (snd flag))\<rparr>"
    using assms(2) by (auto simp: seed_flag_entry_def split: option.splits sum.splits)
  have "snd flag AND NOT RFLAGS_STATUS_MASK = 0"
    using find_Some_set[OF f] status_flag_bits[of "fst flag"] by simp
  then have "cli_seed_flags cli' AND NOT RFLAGS_STATUS_MASK = 0"
    using assms(1) unfolding cli_seeds_ok_def and_not_bits c by (auto simp: bit_simps)
  then show ?thesis using assms(1) by (simp add: cli_seeds_ok_def c)
qed

lemma cli_seeds_ok_gpr_entry:
  "cli_seeds_ok cli \<Longrightarrow> seed_gpr_entry name t cli = Inr cli' \<Longrightarrow> cli_seeds_ok cli'"
  by (auto simp: seed_gpr_entry_def GPR_COUNT_def simp del: upt_rec_numeral split: sum.splits option.splits
      dest!: find_slice_Some intro: cli_seeds_ok_flag cli_seeds_ok_gpr)

lemma cli_seeds_ok_update:
  assumes "cli_seeds_ok cli"
  shows "parse_mxcsr_seed t = Inr a \<Longrightarrow> cli_seeds_ok (cli\<lparr>cli_seed_env := (cli_seed_env cli)\<lparr>seed_mxcsr := t\<rparr>\<rparr>)"
    and "parse_fpu_control_word_seed t = Inr b \<Longrightarrow>
      cli_seeds_ok (cli\<lparr>cli_seed_env := (cli_seed_env cli)\<lparr>seed_fpu_control_word := t\<rparr>\<rparr>)"
    and "compose_xmm_seed t = Inr c \<Longrightarrow> cli_seeds_ok (cli\<lparr>cli_seed_xmm := (cli_seed_xmm cli)[i := t]\<rparr>)"
    and "compose_st_seed t = Inr d \<Longrightarrow> cli_seeds_ok (cli\<lparr>cli_seed_st := (cli_seed_st cli)[i := t]\<rparr>)"
  using assms by (simp_all add: cli_seeds_ok_def list_all_update)

lemma cli_seeds_ok_named:
  assumes "cli_seeds_ok cli" "seed_named_entry name t cli = Inr cli'"
  shows "cli_seeds_ok cli'"
  using assms(2) unfolding seed_named_entry_def
  by (auto split: if_split_asm sum.split_asm option.split_asm
      intro: cli_seeds_ok_update[OF assms(1)] cli_seeds_ok_gpr_entry[OF assms(1)])

lemma cli_seeds_ok_entry:
  "cli_seeds_ok cli \<Longrightarrow> seed_entry entry cli = Inr cli' \<Longrightarrow> cli_seeds_ok cli'"
  by (auto simp: seed_entry_def Let_def split: if_split_asm intro: cli_seeds_ok_named)

lemma cli_seeds_ok_entries:
  "cli_seeds_ok cli \<Longrightarrow> seed_entries entries cli = Inr cli' \<Longrightarrow> cli_seeds_ok cli'"
  by (induction entries arbitrary: cli) (auto split: sum.splits dest: cli_seeds_ok_entry)

lemma seed_messages_ok:
  assumes "cli_seeds_ok cli"
  shows "seed_messages (cli_seed_gpr cli) (cli_seed_xmm cli) (cli_seed_st cli) (cli_seed_env cli) = []"
  using assms
  by (auto simp: seed_messages_def environment_messages_def cli_seeds_ok_def gpr_messages_def
      xmm_messages_def st_messages_def snd_compose_gpr_seed list_all_length gpr_seed_ok_def
      simp del: upt_rec_numeral split: sum.splits)

section \<open>Properties\<close>

lemma parse_max_steps_bounds:
  "parse_max_steps arg = Inr n \<Longrightarrow> 1 \<le> n \<and> n \<le> MAX_STEPS_LIMIT"
  by (auto simp: parse_max_steps_def MAX_STEPS_LIMIT_def DEFAULT_MAX_STEPS_def split: option.splits if_splits)

definition cli_ok :: "CLI \<Rightarrow> bool" where
  "cli_ok cli \<longleftrightarrow>
     1 \<le> cli_max_steps cli \<and> cli_max_steps cli \<le> MAX_STEPS_LIMIT
     \<and> backend_supports (cli_backend cli) (cli_syntax cli)
     \<and> (cli_pretty_json cli \<longrightarrow> cli_quick cli \<and> cli_format cli = JsonFormat)
     \<and> cli_seeds_ok cli"

lemma parse_arguments_seeds:
  "(case seed of None \<Rightarrow> Inr default_cli | Some t \<Rightarrow> parse_cli_seed_argument t default_cli) = Inr cli
   \<Longrightarrow> cli_seeds_ok cli"
  by (auto simp: parse_cli_seed_argument_def split: option.splits
      intro: cli_seeds_ok_default cli_seeds_ok_entries)

text \<open>Inversion of \<open>parse_arguments\<close>: what a successful parse decided.\<close>

lemma parse_arguments_Inr:
  assumes "parse_arguments program = Inr cli"
  obtains seeds track n where
    "(case arg_seed program of None \<Rightarrow> Inr default_cli
      | Some t \<Rightarrow> parse_cli_seed_argument t default_cli) = Inr seeds"
    "parse_max_steps (arg_max_steps program) = Inr n"
    "parse_track (arg_track program) = Inr track"
    "backend_supports (backend_from_cli (arg_backend program))
       (if arg_syntax program = ''att'' then ATT else Intel)"
    "arg_format_used program \<longrightarrow> arg_quick program"
    "arg_pretty program \<longrightarrow> arg_quick program \<and> arg_format program = ''json''"
    "arg_format program = ''json'' \<longrightarrow> arg_track program = None"
    "cli = seeds\<lparr>cli_bytes := arg_bytes program, cli_input_file := arg_file program,
       cli_run := arg_run program, cli_quick := arg_quick program,
       cli_format := (if arg_format program = ''json'' then JsonFormat else TextFormat),
       cli_pretty_json := arg_pretty program,
       cli_syntax := (if arg_syntax program = ''att'' then ATT else Intel),
       cli_backend := backend_from_cli (arg_backend program),
       cli_max_steps := n, cli_track := track\<rparr>"
proof -
  from assms obtain seeds track n where
    "(case arg_seed program of None \<Rightarrow> Inr default_cli
      | Some t \<Rightarrow> parse_cli_seed_argument t default_cli) = Inr seeds"
    "parse_max_steps (arg_max_steps program) = Inr n"
    "parse_track (arg_track program) = Inr track"
    unfolding parse_arguments_def Let_def
    by (auto split: if_split_asm sum.split_asm)
  note parts = this
  from assms show ?thesis
    unfolding parse_arguments_def Let_def parts sum.case
    by (intro that[OF parts]) (auto split: if_split_asm)
qed

lemma CLI_parse_valid:
  assumes "CLI_parse parse_args argv = Inr cli"
  shows "\<exists>program. parse_args argv = Inr program \<and> cli_bytes cli = arg_bytes program \<and> cli_ok cli"
proof -
  obtain program where p: "parse_args argv = Inr program" "parse_arguments program = Inr cli"
    using assms by (auto simp: CLI_parse_def split: sum.splits)
  from p(2) have "cli_ok cli"
    by (elim parse_arguments_Inr)
      (frule parse_arguments_seeds, drule parse_max_steps_bounds, simp add: cli_ok_def cli_seeds_ok_def)
  moreover have "cli_bytes cli = arg_bytes program" using p(2) by (elim parse_arguments_Inr) simp
  ultimately show ?thesis using p(1) by blast
qed

text \<open>
  C16: every command line that \<open>CLI::parse\<close> accepts gives a step cap between 1 and \<open>MAX_STEPS_LIMIT\<close>, a
  backend that emits the chosen syntax, and \<open>--pretty\<close> only with \<open>--quick --format json\<close>. Its seed
  texts all compose without a message, leave \<open>RSP\<close> alone and set only the exposed flags.
\<close>

theorem CLI_parse_ok:
  assumes "CLI_parse parse_args argv = Inr cli"
  shows "cli_ok cli
    \<and> compose_seed (cli_seed_gpr cli) (cli_seed_flags cli) (cli_seed_xmm cli) (cli_seed_st cli) (cli_seed_env cli) []
      = (seed_registers (cli_seed_gpr cli) (cli_seed_flags cli) (cli_seed_xmm cli) (cli_seed_st cli) (cli_seed_env cli), [])"
proof -
  have ok: "cli_ok cli" using CLI_parse_valid[OF assms] by blast
  moreover have "seed_messages (cli_seed_gpr cli) (cli_seed_xmm cli) (cli_seed_st cli) (cli_seed_env cli) = []"
    using ok by (simp add: cli_ok_def seed_messages_ok)
  ultimately show ?thesis by (simp add: compose_seed_eq)
qed

definition example_arguments :: Arguments where
  "example_arguments =
     \<lparr>arg_bytes = Some ''90'', arg_file = None, arg_run = False, arg_syntax = ''att'', arg_max_steps = Some ''7'',
      arg_quick = True, arg_format = ''json'', arg_format_used = True, arg_pretty = True, arg_track = None,
      arg_seed = Some ''RAX=1,al=FF,Cf=1'', arg_backend = ''capstone''\<rparr>"

lemmas name_tables = REG_NAMES_def GPR_NAMES_32_def GPR_NAMES_16_def GPR_NAMES_8L_def GPR_NAMES_8H_def

lemma lowercase_Char:
  "lowercase (Char b0 b1 b2 b3 b4 b5 b6 b7) =
     Char b0 b1 b2 b3 b4
       (b5 \<or> b6 \<and> \<not> b7 \<and> (b0 \<or> b1 \<or> b2 \<or> b3 \<or> b4) \<and> \<not> (b4 \<and> b3 \<and> (b2 \<or> b1 \<and> b0))) b6 b7"
  unfolding lowercase_def Let_def
  by (cases b0; cases b1; cases b2; cases b3; cases b4; cases b5; cases b6; cases b7) (simp_all add: char_of_def bit_0)

lemma upt_16: "[0..<16] = [0, 1, 2, 3, 4, 5, 6, 7, 8, 9, 10, 11, 12, 13, 14, 15]"
  and upt_4: "[0..<4] = [0, 1, 2, 3]"
  by (simp_all add: upt_rec)

lemmas seed_eval = slice_value_def parse_seed_def from_chars_all_def from_chars_def hex_prefix_length_def
  is_digit_in_def digit_value_def

lemma example_arguments_parse: "\<not> isl (parse_arguments example_arguments)"
  by (simp add: example_arguments_def parse_arguments_def parse_max_steps_def parse_track_def seed_eval
      parse_cli_seed_argument_def views_split_def seed_entry_def seed_named_entry_def seed_gpr_entry_def
      slice_named_def name_tables seed_flag_entry_def parse_xmm_seed_index_def parse_st_seed_index_def
      ascii_case_insensitive_equal_def lowercase_Char STATUS_FLAGS_def GPR_COUNT_def Let_def upt_16
      parse_cli_seed_value_def backend_from_cli_def BACKENDS_def backend_of_index_def)

theorem CLI_parse_ok_witness:
  "cli_ok (projr (parse_arguments example_arguments))"
proof -
  have "CLI_parse (\<lambda>_. Inr example_arguments) () = Inr (projr (parse_arguments example_arguments))"
    using example_arguments_parse by (simp add: CLI_parse_def)
  from CLI_parse_ok[OF this] show ?thesis by simp
qed

text \<open>
  Given what argparse documents for the declared options, an accepted command line never has both
  \<open>--bytes\<close> and \<open>--file\<close>, selects JSON only with \<open>--quick\<close>, keeps the default register classes with JSON,
  and uses the backend and syntax that were named.
\<close>

lemma CLI_parse_options:
  assumes "argparse_contract parse_args" "parse_args argv = Inr program"
    and "CLI_parse parse_args argv = Inr cli"
  shows "(cli_bytes cli = None \<or> cli_input_file cli = None)
    \<and> (cli_format cli = JsonFormat \<longrightarrow> cli_quick cli \<and> parse_track None = Inr (cli_track cli))
    \<and> backend_cli (backend_info (cli_backend cli)) = arg_backend program
    \<and> (cli_syntax cli = ATT \<longleftrightarrow> arg_syntax program = ''att'')
    \<and> (cli_seed_flags cli \<noteq> 0 \<longrightarrow> arg_seed program \<noteq> None)"
proof -
  have c: "arg_bytes program = None \<or> arg_file program = None"
    "\<not> arg_format_used program \<longrightarrow> arg_format program = ''text''"
    "arg_backend program \<in> {''zydis'', ''bddisasm'', ''capstone'', ''xed''}"
    using assms(1)[unfolded argparse_contract_def, rule_format, OF assms(2)] by simp_all
  have b: "backend_cli (backend_info (backend_from_cli (arg_backend program))) = arg_backend program"
    using c(3) by (auto simp: backend_info_def BACKENDS_def backend_from_cli_def backend_of_index_def Let_def)
  have "parse_arguments program = Inr cli" using assms(2,3) by (simp add: CLI_parse_def)
  then show ?thesis
    using c(1,2) b by (elim parse_arguments_Inr) (auto simp: default_cli_def split: option.splits)
qed

section \<open>Names\<close>

definition slice_name :: "nat \<Rightarrow> gpr_slice \<Rightarrow> string" where
  "slice_name reg slc =
     (case slc of SliceFull \<Rightarrow> REG_NAMES ! reg | SliceDword \<Rightarrow> GPR_NAMES_32 ! reg | SliceWord \<Rightarrow> GPR_NAMES_16 ! reg
      | SliceByteLow \<Rightarrow> GPR_NAMES_8L ! reg | SliceByteHigh \<Rightarrow> GPR_NAMES_8H ! reg)"

definition all_slices :: "(nat \<times> gpr_slice) list" where
  "all_slices =
     List.product [0..<16] [SliceFull, SliceDword, SliceWord, SliceByteLow]
     @ map (\<lambda>reg. (reg, SliceByteHigh)) [0..<4]"

text \<open>The search over the name tables is a lookup in one table keyed by lower-case names.\<close>

definition slice_row :: "nat \<Rightarrow> (string \<times> nat \<times> gpr_slice) list" where
  "slice_row reg =
     map (\<lambda>slc. (map lowercase (slice_name reg slc), reg, slc))
       ([SliceFull, SliceDword, SliceWord, SliceByteLow] @ (if reg < 4 then [SliceByteHigh] else []))"

definition slice_table :: "(string \<times> nat \<times> gpr_slice) list" where
  "slice_table = concat (map slice_row [0..<16])"

lemma ascii_case_insensitive_equal_map:
  "ascii_case_insensitive_equal l r \<longleftrightarrow> map lowercase l = map lowercase r"
  by (simp add: ascii_case_insensitive_equal_def list.rel_map(1)[symmetric] list.rel_eq[symmetric] list.rel_map)

lemma slice_named_row: "slice_named name reg = map_option snd (map_of (slice_row reg) (map lowercase name))"
  by (simp add: slice_named_def slice_row_def slice_name_def GPR_NAMES_8H_def ascii_case_insensitive_equal_map)

lemma map_of_slice_row: "map_of (slice_row reg) key = Some v \<Longrightarrow> fst v = reg"
  using map_of_SomeD[of "slice_row reg" key v] by (auto simp: slice_row_def)

lemma find_slice_table:
  "find_slice name regs =
     (case map_of (concat (map slice_row regs)) (map lowercase name) of
        None \<Rightarrow> Inr None
      | Some (reg, slc) \<Rightarrow> if reg = 7 then Inl SeedRSP else Inr (Some (reg, slc)))"
proof (induction regs)
  case (Cons reg regs)
  show ?case
  proof (cases "map_of (slice_row reg) (map lowercase name)")
    case None
    then show ?thesis using Cons by (simp add: slice_named_row map_add_def)
  next
    case (Some v)
    then show ?thesis using map_of_slice_row[OF Some]
      by (cases v) (simp add: slice_named_row map_add_def)
  qed
qed simp

lemma distinct_slice_table: "distinct (map fst slice_table)"
  by (simp add: slice_table_def slice_row_def slice_name_def name_tables lowercase_Char upt_16)

lemma all_slices_table:
  "(reg, slc) \<in> set all_slices \<Longrightarrow> (map lowercase (slice_name reg slc), reg, slc) \<in> set slice_table"
  by (auto simp: all_slices_def slice_table_def slice_row_def intro!: bexI[of _ reg])

lemma find_slice_names:
  assumes "(reg, slc) \<in> set all_slices"
  shows "find_slice (slice_name reg slc) [0..<GPR_COUNT]
     = (if reg = 7 then Inl SeedRSP else Inr (Some (reg, slc)))"
  using map_of_is_SomeI[OF distinct_slice_table all_slices_table[OF assms]]
  by (simp add: find_slice_table slice_table_def GPR_COUNT_def del: upt_rec_numeral)

lemma slice_names_not_other:
  "list_all (\<lambda>(reg, slc). let name = slice_name reg slc in
     parse_xmm_seed_index name = None \<and> parse_st_seed_index name = None
     \<and> \<not> ascii_case_insensitive_equal name ''mxcsr'' \<and> \<not> ascii_case_insensitive_equal name ''control_word''
     \<and> list_all (\<lambda>c. c \<noteq> CHR ''='' \<and> c \<noteq> CHR '','') name \<and> name \<noteq> []) all_slices"
  unfolding all_slices_def upt_16 upt_4 product.simps list.map append_Cons append_Nil list.pred_inject
    prod.case slice_name_def gpr_slice.case Let_def ascii_case_insensitive_equal_map
  by (simp add: name_tables lowercase_Char parse_xmm_seed_index_def parse_st_seed_index_def)

lemma split_on_single: "\<forall>x\<in>set s. x \<noteq> c \<Longrightarrow> split_on c s = [s]"
  by (induction s) auto

text \<open>
  C21: the register names are unambiguous. \<open>NAME=VALUE\<close> with the name of any slice of any general-purpose
  register and a valid value changes that slice of that register and nothing else; for \<open>RSP\<close> and
  its slices it is refused with the error about \<open>RSP\<close>.
\<close>

theorem seed_argument_slice:
  assumes "(reg, slc) \<in> set all_slices" "slice_value t \<noteq> None" "CHR '','' \<notin> set t"
  shows "parse_cli_seed_argument (slice_name reg slc @ ''='' @ t) cli =
    (if reg = 7 then Inl SeedRSP
     else Inr (cli\<lparr>cli_seed_gpr := (cli_seed_gpr cli)[reg := set_slice slc t (cli_seed_gpr cli ! reg)]\<rparr>))"
proof -
  let ?name = "slice_name reg slc"
  have n: "parse_xmm_seed_index ?name = None" "parse_st_seed_index ?name = None"
    "\<not> ascii_case_insensitive_equal ?name ''mxcsr''" "\<not> ascii_case_insensitive_equal ?name ''control_word''"
    "\<forall>c\<in>set ?name. c \<noteq> CHR ''='' \<and> c \<noteq> CHR '',''" "?name \<noteq> []"
    using slice_names_not_other assms(1) by (fastforce simp: Let_def list_all_iff)+
  have t: "t \<noteq> []" "\<exists>v. parse_cli_seed_value t = Inr v"
    using assms(2) by (auto simp: slice_value_def parse_cli_seed_value_def split: if_splits sum.splits)
  have f: "find_slice ?name [0..<GPR_COUNT] = (if reg = 7 then Inl SeedRSP else Inr (Some (reg, slc)))"
    by (rule find_slice_names[OF assms(1)])
  have s: "views_split CHR '','' (?name @ ''='' @ t) = [?name @ ''='' @ t]"
    using n(5) assms(3) split_on_single[of "?name @ ''='' @ t" "CHR '',''"] by (auto simp: views_split_def)
  have "takeWhile (\<lambda>c. c \<noteq> CHR ''='') (?name @ ''='' @ t) = ?name"
    "dropWhile (\<lambda>c. c \<noteq> CHR ''='') (?name @ ''='' @ t) = ''='' @ t"
    using n(5) by (simp_all add: takeWhile_all_append dropWhile_all_append)
  then have "seed_entry (?name @ ''='' @ t) cli = seed_gpr_entry ?name t cli"
    using n(1-4,6) t(1) by (simp add: seed_entry_def seed_named_entry_def Let_def)
  then show ?thesis
    using t(2) unfolding parse_cli_seed_argument_def s seed_gpr_entry_def f by (auto split: sum.splits)
qed

theorem seed_argument_slice_witness:
  "parse_cli_seed_argument ''R10W=BEEF'' default_cli
     = Inr (default_cli\<lparr>cli_seed_gpr := (cli_seed_gpr default_cli)
         [10 := set_slice SliceWord ''BEEF'' (cli_seed_gpr default_cli ! 10)]\<rparr>)"
proof -
  have "(10, SliceWord) \<in> set all_slices" "slice_value ''BEEF'' \<noteq> None" "slice_name 10 SliceWord = ''R10W''"
    by (simp_all add: all_slices_def slice_name_def name_tables seed_eval)
  then show ?thesis using seed_argument_slice[of 10 SliceWord "''BEEF''" default_cli] by simp
qed

end
