(* ===== verification/Tui.thy ===== *)
theory Tui
  imports Input Cli
begin

text \<open>
  The terminal interface of src/src/bme_core.cpp: the state \<open>UI\<close> and the closures of \<open>run_tui\<close> that
  change it. The state machine is what the widgets can trigger, one event at a time; drawing is
  modelled only where it writes state (\<open>ScrollViewport::SetBox\<close>, the address labels). Texts that the
  source prints into the status line are values of a datatype. Cursor and scroll offsets are integers:
  they stay between zero and the number of rows, which is far below the range of \<open>std::int32_t\<close>.
\<close>

section \<open>State\<close>

datatype ui_status =
    IdleStatus
  | ByteTextError code_error
  | InputFileError input_error
  | RefreshHistoryFirst
  | RunReport nat "engine_message option" "seed_message list"
  | SyntaxUnavailable string
  | SelectRowToRun
  | SelectRowToCopy
  | CopiedRow
  | CopiedValue bool string
  | ClipboardFailed

text \<open>
  \<open>struct UI\<close>, and at the end the local variables of \<open>run_tui\<close> that its closures change: the labels of the
  two cycling buttons, the text of the step-cap field and the two address labels of the last drawing.
\<close>

record UI =
  ui_code :: string
  ui_backend :: DisasmBackend
  ui_syntax :: DisasmSyntax
  ui_max_steps :: nat
  ui_seed_gpr :: "GPRSeed list"
  ui_seed_flags :: u64
  ui_seed_xmm :: "string list"
  ui_seed_st :: "string list"
  ui_seed_env :: FloatingEnvironmentSeed
  ui_seed_data_pointers :: bool
  ui_normalized_addresses :: bool
  ui_trace :: Trace
  ui_cursor :: int
  ui_history :: "string list"
  ui_history_rows :: "HistoryRow list"
  ui_history_tab :: nat
  ui_previous_history_tab :: nat
  ui_history_backend :: "string list list"
  ui_history_backend_rows :: "HistoryRow list list"
  ui_register_tab :: nat
  ui_gpr_depth :: "nat list"
  ui_xmm_expand :: "bool list"
  ui_st_expand :: "bool list"
  ui_register_scroll :: "int list"
  ui_status :: ui_status
  ui_show_instrumentation_warning :: bool
  ui_show_about :: bool
  ui_show_settings :: bool
  ui_syntax_label :: string
  ui_backend_label :: string
  ui_max_steps_text :: string
  ui_code_addr :: string
  ui_stack_addr :: string

text \<open>
  What the interface calls outside its state: the decoders, the host values and the platform's
  \<open>run_platform_steps\<close> of the engine, the clipboard, the instrumentation test and the file system.
\<close>

record TuiHost =
  tui_decoders :: Decoders
  tui_engine :: EngineHost
  tui_run_platform :: "PlatformRunRequest \<Rightarrow> PlatformRunResult"
  tui_copy_to_clipboard :: "string \<Rightarrow> bool"
  tui_instrumentation_detected :: bool
  tui_open_file :: "string \<Rightarrow> InputFile option"

definition NO_TRACE :: "string list" where
  "NO_TRACE = [''- (No trace - Press Run)'']"

definition syntax_label_of :: "DisasmSyntax \<Rightarrow> string" where
  "syntax_label_of syntax = (if syntax = ATT then ''Syntax: AT&T'' else ''Syntax: Intel'')"

definition backend_label_of :: "DisasmBackend \<Rightarrow> string" where
  "backend_label_of backend = ''Backend: '' @ backend_label (backend_info backend)"

definition default_ui :: UI where
  "default_ui =
     \<lparr>ui_code = [], ui_backend = Zydis, ui_syntax = Intel, ui_max_steps = DEFAULT_MAX_STEPS,
      ui_seed_gpr = replicate 16 empty_gpr_seed, ui_seed_flags = 0, ui_seed_xmm = replicate 16 [],
      ui_seed_st = replicate 8 [], ui_seed_env = \<lparr>seed_mxcsr = [], seed_fpu_control_word = []\<rparr>,
      ui_seed_data_pointers = True, ui_normalized_addresses = True, ui_trace = default_trace, ui_cursor = 0,
      ui_history = [], ui_history_rows = [], ui_history_tab = 0, ui_previous_history_tab = 0,
      ui_history_backend = replicate 4 [], ui_history_backend_rows = replicate 4 [], ui_register_tab = 0,
      ui_gpr_depth = replicate 16 0, ui_xmm_expand = replicate 16 False, ui_st_expand = replicate 8 False,
      ui_register_scroll = replicate 3 0, ui_status = IdleStatus, ui_show_instrumentation_warning = False,
      ui_show_about = False, ui_show_settings = False, ui_syntax_label = [], ui_backend_label = [],
      ui_max_steps_text = [], ui_code_addr = ''-'', ui_stack_addr = ''-''\<rparr>"

section \<open>History selection\<close>

definition history_rows_at :: "UI \<Rightarrow> nat \<Rightarrow> HistoryRow list" where
  "history_rows_at ui tab = (if tab = 0 then ui_history_rows ui else ui_history_backend_rows ui ! (tab - 1))"

definition history_lines_at :: "UI \<Rightarrow> nat \<Rightarrow> string list" where
  "history_lines_at ui tab = (if tab = 0 then ui_history ui else ui_history_backend ui ! (tab - 1))"

text \<open>\<open>ui.cursor <= 0 || (std::size_t)ui.cursor > rows.size()\<close>, negated.\<close>

definition cursor_on_row :: "UI \<Rightarrow> HistoryRow list \<Rightarrow> bool" where
  "cursor_on_row ui rows \<longleftrightarrow> 0 < ui_cursor ui \<and> nat (ui_cursor ui) \<le> length rows"

definition history_selection_is_static :: "UI \<Rightarrow> bool" where
  "history_selection_is_static ui =
     (let rows = history_rows_at ui (ui_history_tab ui)
      in if \<not> cursor_on_row ui rows then False
         else let kind = row_kind (rows ! (nat (ui_cursor ui) - 1)) in kind = NotReached \<or> kind = Data)"

text \<open>The loop of \<open>history_state_at\<close>: the last row below \<open>position\<close> that has an execution event.\<close>

fun state_below :: "Trace \<Rightarrow> HistoryRow list \<Rightarrow> nat \<Rightarrow> Registers" where
  "state_below trace rows 0 = trace_seed trace"
| "state_below trace rows (Suc position) =
     (case row_event (rows ! position) of
        Some i \<Rightarrow>
          (if i < length (trace_execution_events trace) then ev_registers (trace_execution_events trace ! i)
           else state_below trace rows position)
      | None \<Rightarrow> state_below trace rows position)"

definition history_state_at :: "UI \<Rightarrow> nat \<Rightarrow> Registers" where
  "history_state_at ui position =
     (let rows = history_rows_at ui (ui_history_tab ui)
      in state_below (ui_trace ui) rows (min position (length rows)))"

record HistorySelection =
  sel_rip :: u64
  sel_event :: "nat option"
  sel_has_row :: bool

definition history_selection :: "UI \<Rightarrow> nat \<Rightarrow> HistorySelection" where
  "history_selection ui tab =
     (let rows = history_rows_at ui tab
      in if cursor_on_row ui rows
         then let row = rows ! (nat (ui_cursor ui) - 1)
              in \<lparr>sel_rip = row_rip row, sel_event = row_event row, sel_has_row = True\<rparr>
         else \<lparr>sel_rip = 0, sel_event = None, sel_has_row = False\<rparr>)"

definition selection_matches :: "HistorySelection \<Rightarrow> HistoryRow \<Rightarrow> bool" where
  "selection_matches selection row =
     (case sel_event selection of
        Some i \<Rightarrow> row_event row = sel_event selection
      | None \<Rightarrow> row_event row = None \<and> row_rip row \<le> sel_rip selection
          \<and> sel_rip selection - row_rip row < row_length row)"

definition restore_history_selection :: "HistorySelection \<Rightarrow> UI \<Rightarrow> UI" where
  "restore_history_selection selection ui =
     (if \<not> sel_has_row selection then ui\<lparr>ui_cursor := 0\<rparr>
      else let rows = history_rows_at ui (ui_history_tab ui);
               i = find_index (selection_matches selection) rows
           in if i < length rows then ui\<lparr>ui_cursor := int i + 1\<rparr>
              else ui\<lparr>ui_cursor := min (ui_cursor ui) (int (length rows))\<rparr>)"

section \<open>History lines\<close>

definition row_bytes :: "Trace \<Rightarrow> HistoryRow \<Rightarrow> u8 list" where
  "row_bytes trace row = take (unat (row_length row)) (drop (unat (row_offset row)) (trace_code trace))"

definition is_stop_row :: "Trace \<Rightarrow> HistoryRow \<Rightarrow> bool" where
  "is_stop_row trace row \<longleftrightarrow> row_rip row = trace_stop_address trace \<and> trace_stop_reason trace \<noteq> None"

definition history_line :: "Trace \<Rightarrow> bool \<Rightarrow> nat \<Rightarrow> nat \<Rightarrow> HistoryRow \<Rightarrow> string" where
  "history_line trace relative_addresses bytes_width execution_position row =
     (let bytes = pad_right bytes_width (hex_bytes '' '' (row_bytes trace row));
          address = (if relative_addresses then ''code+'' @ hex_padded 4 (unat (row_offset row))
            else hex_padded 8 (unat (row_rip row)))
      in if row_kind row = Reached
         then pad_left 3 (decimal execution_position) @ ''  '' @ address @ ''  '' @ bytes @ ''  '' @ row_text row
         else let marker = (if row_kind row = RowFaulted then ''!'' else ''-'');
                  note = (if is_stop_row trace row then stop_reason_text (the (trace_stop_reason trace)) else ''Not reached'')
              in pad_left 3 marker @ ''  '' @ address @ ''  '' @ bytes @ ''  '' @ row_text row @ '' ('' @ note @ '')'')"

fun history_line_list :: "Trace \<Rightarrow> bool \<Rightarrow> nat \<Rightarrow> nat \<Rightarrow> HistoryRow list \<Rightarrow> string list" where
  "history_line_list trace relative_addresses bytes_width executed [] = []"
| "history_line_list trace relative_addresses bytes_width executed (row # rows) =
     (let executed = (if row_kind row = Reached then Suc executed else executed)
      in history_line trace relative_addresses bytes_width executed row
         # history_line_list trace relative_addresses bytes_width executed rows)"

definition bytes_width :: "HistoryRow list \<Rightarrow> nat" where
  "bytes_width rows =
     (let longest = foldl (\<lambda>w row. max w (unat (row_length row))) 0 rows
      in if longest \<noteq> 0 then longest * 3 - 1 else longest)"

definition build_history_lines :: "Trace \<Rightarrow> HistoryRow list \<Rightarrow> bool \<Rightarrow> string list" where
  "build_history_lines trace rows relative_addresses =
     ''- Initial (seed)'' # history_line_list trace relative_addresses (bytes_width rows) 0 rows"

text \<open>The syntax of a decoder's own tab: the active one where the decoder supports it.\<close>

definition tab_syntax :: "DisasmBackend \<Rightarrow> DisasmSyntax \<Rightarrow> DisasmSyntax" where
  "tab_syntax backend syntax = (if backend_supports backend syntax then syntax else Intel)"

definition rebuild_history :: "Decoders \<Rightarrow> UI \<Rightarrow> UI option" where
  "rebuild_history decoders ui =
     (let selection = history_selection ui (ui_history_tab ui); trace = ui_trace ui
      in Option.bind (build_history decoders trace (ui_backend ui) (ui_syntax ui)) (\<lambda>rows.
         Option.bind (those (map (\<lambda>backend. build_history decoders trace backend (tab_syntax backend (ui_syntax ui))) ALL_BACKENDS))
           (\<lambda>backend_rows.
             Some (restore_history_selection selection
               (ui\<lparr>ui_history_rows := rows,
                  ui_history := build_history_lines trace rows (ui_normalized_addresses ui),
                  ui_history_backend_rows := backend_rows,
                  ui_history_backend := map (\<lambda>rows. build_history_lines trace rows (ui_normalized_addresses ui)) backend_rows\<rparr>)))))"

section \<open>Closures of run\_tui\<close>

definition execute :: "TuiHost \<Rightarrow> nat option \<Rightarrow> UI \<Rightarrow> UI option" where
  "execute host stop_offset ui =
     (case parse_code_text (ui_code ui) of
        Inl e \<Rightarrow> Some (ui\<lparr>ui_status := ByteTextError e\<rparr>)
      | Inr decoded \<Rightarrow>
          (if stop_offset \<noteq> None \<and> decoded \<noteq> trace_code (ui_trace ui)
           then Some (ui\<lparr>ui_status := RefreshHistoryFirst\<rparr>)
           else let (seed, seed_errors) = compose_seed (ui_seed_gpr ui) (ui_seed_flags ui) (ui_seed_xmm ui)
                      (ui_seed_st ui) (ui_seed_env ui) [];
                    trace = run_engine (tui_engine host) (tui_run_platform host) decoded seed (ui_max_steps ui)
                      (ui_backend ui) (ui_syntax ui) (ui_seed_data_pointers ui) stop_offset;
                    ui = ui\<lparr>ui_trace := trace, ui_cursor := 0,
                      ui_show_instrumentation_warning :=
                        (if trace_instrumentation_detected trace then True else ui_show_instrumentation_warning ui)\<rparr>
                in Option.bind (rebuild_history (tui_decoders host) ui) (\<lambda>ui.
                   let ui = (case stop_offset of
                         None \<Rightarrow> ui
                       | Some offset \<Rightarrow>
                           if trace_stop_address trace = reg_get (trace_seed trace) RIP + word_of_nat offset
                           then restore_history_selection
                                  \<lparr>sel_rip = trace_stop_address trace, sel_event = None, sel_has_row = True\<rparr> ui
                           else ui)
                   in Some (ui\<lparr>ui_status := RunReport (length decoded) (trace_message trace) seed_errors\<rparr>))))"

definition ui_run :: "TuiHost \<Rightarrow> UI \<Rightarrow> UI option" where
  "ui_run host ui = execute host None ui"

definition executed_row :: "HistoryRow \<Rightarrow> bool" where
  "executed_row row \<longleftrightarrow> row_kind row = Reached \<or> row_kind row = RowFaulted"

text \<open>The loops of \<open>step\<close> and \<open>back\<close>, from a candidate row upwards and downwards.\<close>

function step_from :: "HistoryRow list \<Rightarrow> int \<Rightarrow> int option" where
  "step_from rows i =
     (if i \<le> int (length rows)
      then if executed_row (rows ! nat (i - 1)) then Some i else step_from rows (i + 1)
      else None)"
  by pat_completeness auto
termination by (relation "measure (\<lambda>(rows, i). nat (int (length rows) + 1 - i))") auto

function back_from :: "HistoryRow list \<Rightarrow> int \<Rightarrow> int option" where
  "back_from rows i =
     (if i \<ge> 1
      then if executed_row (rows ! nat (i - 1)) then Some i else back_from rows (i - 1)
      else None)"
  by pat_completeness auto
termination by (relation "measure (\<lambda>(rows, i). nat i)") auto

declare step_from.simps [simp del] back_from.simps [simp del]

definition ui_step :: "UI \<Rightarrow> UI" where
  "ui_step ui =
     (case step_from (history_rows_at ui (ui_history_tab ui)) (ui_cursor ui + 1) of
        Some i \<Rightarrow> ui\<lparr>ui_cursor := i\<rparr>
      | None \<Rightarrow> ui)"

definition ui_back :: "UI \<Rightarrow> UI" where
  "ui_back ui =
     (case back_from (history_rows_at ui (ui_history_tab ui)) (ui_cursor ui - 1) of
        Some i \<Rightarrow> ui\<lparr>ui_cursor := i\<rparr>
      | None \<Rightarrow> ui\<lparr>ui_cursor := 0\<rparr>)"

definition ui_reset :: "UI \<Rightarrow> UI" where
  "ui_reset ui =
     ui\<lparr>ui_trace := default_trace, ui_history := NO_TRACE, ui_history_rows := [], ui_previous_history_tab := 0,
        ui_history_backend := map (\<lambda>_. NO_TRACE) (ui_history_backend ui), ui_history_backend_rows := replicate 4 [],
        ui_cursor := 0, ui_history_tab := 0, ui_register_tab := 0, ui_gpr_depth := replicate 16 0,
        ui_xmm_expand := replicate 16 False, ui_st_expand := replicate 8 False, ui_register_scroll := replicate 3 0,
        ui_status := IdleStatus\<rparr>"

definition rebuild_shown :: "Decoders \<Rightarrow> UI \<Rightarrow> UI option" where
  "rebuild_shown decoders ui = (if ui_history_rows ui \<noteq> [] then rebuild_history decoders ui else Some ui)"

definition toggle_syntax :: "Decoders \<Rightarrow> UI \<Rightarrow> UI option" where
  "toggle_syntax decoders ui =
     (let next_syntax = (if ui_syntax ui = Intel then ATT else Intel)
      in if \<not> backend_supports (ui_backend ui) next_syntax
         then Some (ui\<lparr>ui_status := SyntaxUnavailable (backend_label (backend_info (ui_backend ui)))\<rparr>)
         else rebuild_shown decoders (ui\<lparr>ui_syntax := next_syntax, ui_syntax_label := syntax_label_of next_syntax\<rparr>))"

definition cycle_backend :: "Decoders \<Rightarrow> int \<Rightarrow> UI \<Rightarrow> UI option" where
  "cycle_backend decoders direction ui =
     (let count = int (length BACKENDS);
          backend = backend_of_index (nat ((int (backend_index (ui_backend ui)) + direction + count) mod count));
          ui = ui\<lparr>ui_backend := backend, ui_backend_label := backend_label_of backend\<rparr>;
          ui = (if \<not> backend_supports backend (ui_syntax ui)
            then ui\<lparr>ui_syntax := Intel, ui_syntax_label := ''Syntax: Intel''\<rparr> else ui)
      in rebuild_shown decoders ui)"

definition run_to_selected_row :: "TuiHost \<Rightarrow> UI \<Rightarrow> UI option" where
  "run_to_selected_row host ui =
     (let rows = history_rows_at ui (ui_history_tab ui)
      in if \<not> cursor_on_row ui rows then Some (ui\<lparr>ui_status := SelectRowToRun\<rparr>)
         else execute host (Some (unat (row_offset (rows ! (nat (ui_cursor ui) - 1))))) ui)"

definition copy_history_row :: "TuiHost \<Rightarrow> UI \<Rightarrow> UI" where
  "copy_history_row host ui =
     (let rows = history_rows_at ui (ui_history_tab ui)
      in if \<not> cursor_on_row ui rows then ui\<lparr>ui_status := SelectRowToCopy\<rparr>
         else let line = trim_view isspace (history_lines_at ui (ui_history_tab ui) ! nat (ui_cursor ui))
              in ui\<lparr>ui_status := (if tui_copy_to_clipboard host line then CopiedRow else ClipboardFailed)\<rparr>)"

definition history_tab_changed :: "UI \<Rightarrow> UI" where
  "history_tab_changed ui =
     (let selection = history_selection ui (ui_previous_history_tab ui)
      in (restore_history_selection selection ui)\<lparr>ui_previous_history_tab := ui_history_tab ui\<rparr>)"

definition history_wheel :: "bool \<Rightarrow> UI \<Rightarrow> UI" where
  "history_wheel up ui =
     (if up then ui\<lparr>ui_cursor := max 0 (ui_cursor ui - 1)\<rparr>
      else ui\<lparr>ui_cursor := min (int (length (history_rows_at ui (ui_history_tab ui)))) (ui_cursor ui + 1)\<rparr>)"

definition flag_clicked :: "u64 \<Rightarrow> UI \<Rightarrow> UI" where
  "flag_clicked flag ui = ui\<lparr>ui_seed_flags := ui_seed_flags ui XOR flag\<rparr>"

definition gpr_clicked :: "nat \<Rightarrow> nat \<Rightarrow> UI \<Rightarrow> UI" where
  "gpr_clicked reg level ui =
     (let depth = ui_gpr_depth ui ! reg
      in ui\<lparr>ui_gpr_depth := (ui_gpr_depth ui)[reg := if depth > level then level else level + 1]\<rparr>)"

definition xmm_clicked :: "nat \<Rightarrow> UI \<Rightarrow> UI" where
  "xmm_clicked reg ui = ui\<lparr>ui_xmm_expand := (ui_xmm_expand ui)[reg := \<not> ui_xmm_expand ui ! reg]\<rparr>"

definition st_clicked :: "nat \<Rightarrow> UI \<Rightarrow> UI" where
  "st_clicked reg ui = ui\<lparr>ui_st_expand := (ui_st_expand ui)[reg := \<not> ui_st_expand ui ! reg]\<rparr>"

definition register_wheel :: "bool \<Rightarrow> bool \<Rightarrow> UI \<Rightarrow> UI" where
  "register_wheel has_real_focus up ui =
     (if has_real_focus then ui
      else let tab = ui_register_tab ui; scroll = ui_register_scroll ui ! tab
           in ui\<lparr>ui_register_scroll := (ui_register_scroll ui)[tab := if up then max 0 (scroll - 1) else scroll + 1]\<rparr>)"

text \<open>\<open>ScrollViewport::SetBox\<close>: the offset that is drawn and written back, for a box and a content height.\<close>

definition viewport_offset :: "int \<Rightarrow> int \<Rightarrow> int \<Rightarrow> int \<Rightarrow> int" where
  "viewport_offset y_min y_max min_y offset =
     (let external_dimy = y_max - y_min; internal_dimy = max min_y external_dimy
      in max 0 (min (internal_dimy - external_dimy - 1) offset))"

definition max_steps_changed :: "UI \<Rightarrow> UI" where
  "max_steps_changed ui =
     (case from_chars_all 10 64 (ui_max_steps_text ui) of
        Some parsed \<Rightarrow> if parsed > 0 then ui\<lparr>ui_max_steps := min parsed MAX_STEPS_LIMIT\<rparr> else ui
      | None \<Rightarrow> ui)"

definition addresses_changed :: "Decoders \<Rightarrow> UI \<Rightarrow> UI option" where
  "addresses_changed decoders ui = (if trace_code (ui_trace ui) \<noteq> [] then rebuild_history decoders ui else Some ui)"

section \<open>Layout events\<close>

text \<open>
  What the handler around the whole layout distinguishes: left clicks on the three address labels and on
  a value cell, each with the control modifier, and the keys.
\<close>

datatype layout_input =
    CodeAddressClick bool
  | StackAddressClick bool
  | DataAddressClick bool
  | ValueClick string "string option" bool
  | KeyEscape
  | KeyF5
  | KeyF8
  | KeyF7

definition copy_value :: "TuiHost \<Rightarrow> string \<Rightarrow> bool \<Rightarrow> UI \<Rightarrow> UI" where
  "copy_value host text normalized ui =
     ui\<lparr>ui_status := (if tui_copy_to_clipboard host text then CopiedValue normalized text else ClipboardFailed)\<rparr>"

definition copy_address :: "TuiHost \<Rightarrow> bool \<Rightarrow> u64 \<Rightarrow> string \<Rightarrow> UI \<Rightarrow> UI" where
  "copy_address host normalized address label ui =
     copy_value host (if normalized
       then address_text (format_address_value (host_granularity (tui_engine host)) (host_page_size (tui_engine host))
              (ui_trace ui) address True)
       else label) normalized ui"

definition host_data_base :: "TuiHost \<Rightarrow> u64" where
  "host_data_base host = scratch_data_base (host_granularity (tui_engine host)) (host_page_size (tui_engine host))"

text \<open>The handler's value says whether it consumed the event.\<close>

fun layout_event :: "TuiHost \<Rightarrow> layout_input \<Rightarrow> UI \<Rightarrow> (bool \<times> UI) option" where
  "layout_event host input ui =
     (if ui_show_about ui \<or> ui_show_settings ui then Some (False, ui)
      else case input of
          CodeAddressClick control \<Rightarrow>
            Some (if ui_code_addr ui \<noteq> ''-''
              then (True, copy_address host control (reg_get (trace_seed (ui_trace ui)) RIP) (ui_code_addr ui) ui)
              else (False, ui))
        | StackAddressClick control \<Rightarrow>
            Some (if ui_stack_addr ui \<noteq> ''-''
              then (True, copy_address host control (reg_get (trace_seed (ui_trace ui)) RSP) (ui_stack_addr ui) ui)
              else (False, ui))
        | DataAddressClick control \<Rightarrow>
            Some (True, copy_address host control (host_data_base host) (format_hex64_string (host_data_base host)) ui)
        | ValueClick text normalized_text control \<Rightarrow>
            (let normalized = (control \<and> normalized_text \<noteq> None)
             in Some (True, copy_value host (if normalized then the normalized_text else text) normalized ui))
        | KeyEscape \<Rightarrow> Some (True, ui)
        | KeyF5 \<Rightarrow> map_option (Pair True) (ui_run host ui)
        | KeyF8 \<Rightarrow> Some (True, ui_step ui)
        | KeyF7 \<Rightarrow> Some (True, ui_back ui))"

text \<open>The layout's drawing writes the two address labels.\<close>

definition address_label :: "u64 \<Rightarrow> string" where
  "address_label address = (if address \<noteq> 0 then format_hex64_string address else ''-'')"

definition draw_labels :: "UI \<Rightarrow> UI" where
  "draw_labels ui =
     ui\<lparr>ui_code_addr := address_label (reg_get (trace_seed (ui_trace ui)) RIP),
        ui_stack_addr := address_label (reg_get (trace_seed (ui_trace ui)) RSP)\<rparr>"

section \<open>Start\<close>

definition tui_input :: "TuiHost \<Rightarrow> CLI \<Rightarrow> UI \<Rightarrow> UI" where
  "tui_input host cli ui =
     (case (cli_bytes cli, cli_input_file cli) of
        (Some bytes, _) \<Rightarrow> ui\<lparr>ui_code := bytes\<rparr>
      | (None, Some path) \<Rightarrow>
          (case read_binary_input (tui_open_file host) path of
             Inr input \<Rightarrow> ui\<lparr>ui_code := format_code_text input\<rparr>
           | Inl e \<Rightarrow> ui\<lparr>ui_status := InputFileError e\<rparr>)
      | (None, None) \<Rightarrow> ui)"

definition tui_state :: "TuiHost \<Rightarrow> CLI \<Rightarrow> UI" where
  "tui_state host cli =
     (let ui = tui_input host cli (default_ui\<lparr>ui_show_instrumentation_warning := tui_instrumentation_detected host\<rparr>)
      in ui\<lparr>ui_backend := cli_backend cli, ui_syntax := cli_syntax cli, ui_max_steps := cli_max_steps cli,
            ui_history := NO_TRACE, ui_history_backend := map (\<lambda>_. NO_TRACE) (ui_history_backend ui),
            ui_seed_gpr := cli_seed_gpr cli, ui_seed_flags := cli_seed_flags cli, ui_seed_xmm := cli_seed_xmm cli,
            ui_seed_st := cli_seed_st cli, ui_seed_env := cli_seed_env cli,
            ui_syntax_label := syntax_label_of (cli_syntax cli), ui_backend_label := backend_label_of (cli_backend cli),
            ui_max_steps_text := decimal (cli_max_steps cli)\<rparr>)"

text \<open>The state when the event loop starts.\<close>

definition run_tui :: "TuiHost \<Rightarrow> CLI \<Rightarrow> UI option" where
  "run_tui host cli =
     (let ui = tui_state host cli
      in if cli_run cli \<and> (cli_bytes cli \<noteq> None \<or> cli_input_file cli \<noteq> None) \<and> ui_code ui \<noteq> []
         then ui_run host ui else Some ui)"

section \<open>The event loop\<close>

text \<open>
  One event that a widget of the layout or of a modal turns into a change of state. Menus, check boxes
  and text fields belong to FTXUI: a menu writes one of its indices, a check box inverts its flag, a
  text field replaces its text, and a modal that is shown takes all events (\<open>possible_event\<close>).
\<close>

datatype ui_event =
    LayoutEvent layout_input
  | RunPressed | RunToRowPressed | StepPressed | BackPressed | CopyRowPressed | ResetPressed
  | SettingsPressed | AboutPressed
  | HistoryTabSelected nat | HistoryRowSelected nat | HistoryWheel bool
  | RegisterTabSelected nat | RegisterWheel bool bool
  | FlagClicked u64 | GPRClicked nat nat | XMMClicked nat | STClicked nat
  | CodeEdited string | GPRSeedEdited nat GPRSeed | XMMSeedEdited nat string | STSeedEdited nat string
  | EnvironmentSeedEdited FloatingEnvironmentSeed
  | AboutClosed
  | SettingsClosed | SyntaxPressed | BackendPressed bool | MaxStepsEdited string
  | DataPointersPressed | AddressesPressed
  | Drawn "(int \<times> int \<times> int) option"

definition possible_event :: "UI \<Rightarrow> ui_event \<Rightarrow> bool" where
  "possible_event ui event =
     (case event of
        AboutClosed \<Rightarrow> ui_show_about ui
      | SettingsClosed \<Rightarrow> ui_show_settings ui
      | SyntaxPressed \<Rightarrow> ui_show_settings ui
      | BackendPressed forward \<Rightarrow> ui_show_settings ui
      | MaxStepsEdited text \<Rightarrow> ui_show_settings ui
      | DataPointersPressed \<Rightarrow> ui_show_settings ui
      | AddressesPressed \<Rightarrow> ui_show_settings ui
      | Drawn box \<Rightarrow> True
      | LayoutEvent input \<Rightarrow> True
      | _ \<Rightarrow> \<not> ui_show_about ui \<and> \<not> ui_show_settings ui
          \<and> (case event of
               HistoryTabSelected tab \<Rightarrow> tab < 1 + length BACKENDS
             | HistoryRowSelected i \<Rightarrow> i < length (history_lines_at ui (ui_history_tab ui))
             | RegisterTabSelected tab \<Rightarrow> tab < 3
             | FlagClicked flag \<Rightarrow> flag \<in> set (map snd STATUS_FLAGS)
             | GPRClicked reg level \<Rightarrow> reg < 16 \<and> reg \<noteq> reg_index RSP \<and> level < 3
             | XMMClicked reg \<Rightarrow> reg < 16
             | STClicked reg \<Rightarrow> reg < 8
             | CodeEdited text \<Rightarrow> length text < 2 ^ 63
             | GPRSeedEdited reg seed \<Rightarrow> reg < 16 \<and> reg \<noteq> reg_index RSP
             | XMMSeedEdited reg text \<Rightarrow> reg < 16
             | STSeedEdited reg text \<Rightarrow> reg < 8
             | _ \<Rightarrow> True))"

definition handle_event :: "TuiHost \<Rightarrow> ui_event \<Rightarrow> UI \<Rightarrow> UI option" where
  "handle_event host event ui =
     (case event of
        LayoutEvent input \<Rightarrow> map_option snd (layout_event host input ui)
      | RunPressed \<Rightarrow> ui_run host ui
      | RunToRowPressed \<Rightarrow> run_to_selected_row host ui
      | StepPressed \<Rightarrow> Some (ui_step ui)
      | BackPressed \<Rightarrow> Some (ui_back ui)
      | CopyRowPressed \<Rightarrow> Some (copy_history_row host ui)
      | ResetPressed \<Rightarrow> Some (ui_reset ui)
      | SettingsPressed \<Rightarrow> Some (ui\<lparr>ui_show_settings := True\<rparr>)
      | AboutPressed \<Rightarrow> Some (ui\<lparr>ui_show_about := True\<rparr>)
      | HistoryTabSelected tab \<Rightarrow> Some (history_tab_changed (ui\<lparr>ui_history_tab := tab\<rparr>))
      | HistoryRowSelected i \<Rightarrow> Some (ui\<lparr>ui_cursor := int i\<rparr>)
      | HistoryWheel up \<Rightarrow> Some (history_wheel up ui)
      | RegisterTabSelected tab \<Rightarrow> Some (ui\<lparr>ui_register_tab := tab\<rparr>)
      | RegisterWheel has_real_focus up \<Rightarrow> Some (register_wheel has_real_focus up ui)
      | FlagClicked flag \<Rightarrow> Some (flag_clicked flag ui)
      | GPRClicked reg level \<Rightarrow> Some (gpr_clicked reg level ui)
      | XMMClicked reg \<Rightarrow> Some (xmm_clicked reg ui)
      | STClicked reg \<Rightarrow> Some (st_clicked reg ui)
      | CodeEdited text \<Rightarrow> Some (ui\<lparr>ui_code := text\<rparr>)
      | GPRSeedEdited reg seed \<Rightarrow> Some (ui\<lparr>ui_seed_gpr := (ui_seed_gpr ui)[reg := seed]\<rparr>)
      | XMMSeedEdited reg text \<Rightarrow> Some (ui\<lparr>ui_seed_xmm := (ui_seed_xmm ui)[reg := text]\<rparr>)
      | STSeedEdited reg text \<Rightarrow> Some (ui\<lparr>ui_seed_st := (ui_seed_st ui)[reg := text]\<rparr>)
      | EnvironmentSeedEdited env \<Rightarrow> Some (ui\<lparr>ui_seed_env := env\<rparr>)
      | AboutClosed \<Rightarrow> Some (ui\<lparr>ui_show_about := False\<rparr>)
      | SettingsClosed \<Rightarrow> Some (ui\<lparr>ui_show_settings := False\<rparr>)
      | SyntaxPressed \<Rightarrow> toggle_syntax (tui_decoders host) ui
      | BackendPressed forward \<Rightarrow> cycle_backend (tui_decoders host) (if forward then 1 else -1) ui
      | MaxStepsEdited text \<Rightarrow> Some (max_steps_changed (ui\<lparr>ui_max_steps_text := text\<rparr>))
      | DataPointersPressed \<Rightarrow> Some (ui\<lparr>ui_seed_data_pointers := \<not> ui_seed_data_pointers ui\<rparr>)
      | AddressesPressed \<Rightarrow> addresses_changed (tui_decoders host) (ui\<lparr>ui_normalized_addresses := \<not> ui_normalized_addresses ui\<rparr>)
      | Drawn box \<Rightarrow>
          Some (draw_labels (case box of None \<Rightarrow> ui
            | Some (y_min, y_max, min_y) \<Rightarrow>
                ui\<lparr>ui_register_scroll := (ui_register_scroll ui)[ui_register_tab ui :=
                  viewport_offset y_min y_max min_y (ui_register_scroll ui ! ui_register_tab ui)]\<rparr>)))"

text \<open>
  The states of a session: the decoders stay the same, everything else of the host may answer
  differently at each event.
\<close>

inductive session :: "Decoders \<Rightarrow> CLI \<Rightarrow> UI \<Rightarrow> bool" for decoders cli where
  start: "tui_decoders host = decoders \<Longrightarrow> run_tui host cli = Some ui \<Longrightarrow> session decoders cli ui"
| event: "session decoders cli ui \<Longrightarrow> possible_event ui event \<Longrightarrow> tui_decoders host = decoders
    \<Longrightarrow> handle_event host event ui = Some ui' \<Longrightarrow> session decoders cli ui'"

section \<open>Invariant\<close>

text \<open>What the five History tabs show: nothing before a run, else the histories of the trace.\<close>

definition backend_histories :: "Decoders \<Rightarrow> UI \<Rightarrow> HistoryRow list list option" where
  "backend_histories decoders ui =
     those (map (\<lambda>backend. build_history decoders (ui_trace ui) backend (tab_syntax backend (ui_syntax ui))) ALL_BACKENDS)"

definition histories_ok :: "Decoders \<Rightarrow> UI \<Rightarrow> bool" where
  "histories_ok decoders ui \<longleftrightarrow>
     (if trace_code (ui_trace ui) = []
      then ui_history_rows ui = [] \<and> ui_history_backend_rows ui = replicate 4 []
        \<and> ui_history ui = NO_TRACE \<and> ui_history_backend ui = replicate 4 NO_TRACE
      else build_history decoders (ui_trace ui) (ui_backend ui) (ui_syntax ui) = Some (ui_history_rows ui)
        \<and> backend_histories decoders ui = Some (ui_history_backend_rows ui)
        \<and> ui_history ui = build_history_lines (ui_trace ui) (ui_history_rows ui) (ui_normalized_addresses ui)
        \<and> ui_history_backend ui
            = map (\<lambda>rows. build_history_lines (ui_trace ui) rows (ui_normalized_addresses ui)) (ui_history_backend_rows ui))"

definition cursor_ok :: "UI \<Rightarrow> bool" where
  "cursor_ok ui \<longleftrightarrow> ui_history_tab ui \<le> 4 \<and> ui_previous_history_tab ui = ui_history_tab ui
     \<and> 0 \<le> ui_cursor ui \<and> ui_cursor ui \<le> int (length (history_rows_at ui (ui_history_tab ui)))"

definition settings_ok :: "UI \<Rightarrow> bool" where
  "settings_ok ui \<longleftrightarrow> 1 \<le> ui_max_steps ui \<and> ui_max_steps ui \<le> MAX_STEPS_LIMIT
     \<and> backend_supports (ui_backend ui) (ui_syntax ui)
     \<and> ui_syntax_label ui = syntax_label_of (ui_syntax ui) \<and> ui_backend_label ui = backend_label_of (ui_backend ui)"

definition panel_ok :: "UI \<Rightarrow> bool" where
  "panel_ok ui \<longleftrightarrow> ui_register_tab ui < 3
     \<and> length (ui_gpr_depth ui) = 16 \<and> (\<forall>d\<in>set (ui_gpr_depth ui). d \<le> 3)
     \<and> length (ui_xmm_expand ui) = 16 \<and> length (ui_st_expand ui) = 8
     \<and> length (ui_register_scroll ui) = 3 \<and> (\<forall>s\<in>set (ui_register_scroll ui). 0 \<le> s)"

definition seeds_ok :: "UI \<Rightarrow> bool" where
  "seeds_ok ui \<longleftrightarrow> length (ui_seed_gpr ui) = 16 \<and> ui_seed_gpr ui ! reg_index RSP = empty_gpr_seed
     \<and> length (ui_seed_xmm ui) = 16 \<and> length (ui_seed_st ui) = 8
     \<and> ui_seed_flags ui AND NOT RFLAGS_STATUS_MASK = 0"

definition texts_fit :: "UI \<Rightarrow> bool" where
  "texts_fit ui \<longleftrightarrow> length (ui_code ui) < 2 ^ 63 \<and> length (trace_code (ui_trace ui)) < 2 ^ 63"

definition ui_ok :: "Decoders \<Rightarrow> UI \<Rightarrow> bool" where
  "ui_ok decoders ui \<longleftrightarrow> histories_ok decoders ui \<and> cursor_ok ui \<and> settings_ok ui \<and> panel_ok ui
     \<and> seeds_ok ui \<and> texts_fit ui"

lemma find_index_le: "find_index P xs \<le> length xs"
  by (induction xs) auto

lemma restore_cursor:
  assumes "0 \<le> ui_cursor ui"
  obtains c where "restore_history_selection selection ui = ui\<lparr>ui_cursor := c\<rparr>" "0 \<le> c"
    "c \<le> int (length (history_rows_at ui (ui_history_tab ui)))"
proof -
  let ?rows = "history_rows_at ui (ui_history_tab ui)"
  have "\<exists>c. restore_history_selection selection ui = ui\<lparr>ui_cursor := c\<rparr> \<and> 0 \<le> c \<and> c \<le> int (length ?rows)"
    using assms by (auto simp: restore_history_selection_def Let_def)
  then show ?thesis using that by blast
qed

lemma length_code: "length (trace_code trace) < 2 ^ 63 \<Longrightarrow> length (trace_code trace) < 2 ^ 64"
  by simp

lemma backend_histories_total:
  assumes "length (trace_code (ui_trace ui)) < 2 ^ 63"
  obtains rows where "backend_histories decoders ui = Some rows" "length rows = 4"
proof -
  obtain f where "\<And>backend. build_history decoders (ui_trace ui) backend (tab_syntax backend (ui_syntax ui)) = Some (f backend)"
    using choice[of "\<lambda>backend rows. build_history decoders (ui_trace ui) backend (tab_syntax backend (ui_syntax ui)) = Some rows"]
      build_history_total[OF length_code[OF assms]] by blast
  then show ?thesis by (intro that[of "map f ALL_BACKENDS"]) (simp_all add: backend_histories_def ALL_BACKENDS_def)
qed

text \<open>\<open>rebuild_history\<close> returns, and leaves everything but the histories and the cursor alone.\<close>

lemma rebuild_history_result:
  assumes "length (trace_code (ui_trace ui)) < 2 ^ 63" "0 \<le> ui_cursor ui"
  obtains rows brows c where
    "rebuild_history decoders ui = Some (ui\<lparr>ui_history_rows := rows,
       ui_history := build_history_lines (ui_trace ui) rows (ui_normalized_addresses ui), ui_history_backend_rows := brows,
       ui_history_backend := map (\<lambda>rows. build_history_lines (ui_trace ui) rows (ui_normalized_addresses ui)) brows,
       ui_cursor := c\<rparr>)"
    "build_history decoders (ui_trace ui) (ui_backend ui) (ui_syntax ui) = Some rows"
    "backend_histories decoders ui = Some brows" "length brows = 4"
    "0 \<le> c" "c \<le> int (length (if ui_history_tab ui = 0 then rows else brows ! (ui_history_tab ui - 1)))"
proof -
  obtain rows where rows: "build_history decoders (ui_trace ui) (ui_backend ui) (ui_syntax ui) = Some rows"
    using build_history_total[OF length_code[OF assms(1)]] by metis
  obtain brows where brows: "backend_histories decoders ui = Some brows" "length brows = 4"
    using backend_histories_total[OF assms(1)] by metis
  let ?ui = "ui\<lparr>ui_history_rows := rows,
       ui_history := build_history_lines (ui_trace ui) rows (ui_normalized_addresses ui), ui_history_backend_rows := brows,
       ui_history_backend := map (\<lambda>rows. build_history_lines (ui_trace ui) rows (ui_normalized_addresses ui)) brows\<rparr>"
  obtain c where c: "restore_history_selection (history_selection ui (ui_history_tab ui)) ?ui = ?ui\<lparr>ui_cursor := c\<rparr>"
    "0 \<le> c" "c \<le> int (length (history_rows_at ?ui (ui_history_tab ?ui)))"
    using restore_cursor[of ?ui] assms(2) by auto
  show ?thesis
  proof (rule that[OF _ rows brows c(2)])
    show "rebuild_history decoders ui = Some (?ui\<lparr>ui_cursor := c\<rparr>)"
      using rows brows(1) c(1) by (simp add: rebuild_history_def backend_histories_def Let_def)
    show "c \<le> int (length (if ui_history_tab ui = 0 then rows else brows ! (ui_history_tab ui - 1)))"
      using c(3) by (cases "ui_history_tab ui = 0") (simp_all add: history_rows_at_def)
  qed
qed

text \<open>Frame rules: the history and the cursor depend only on their own fields.\<close>

definition same_history :: "UI \<Rightarrow> UI \<Rightarrow> bool" where
  "same_history u ui \<longleftrightarrow> ui_trace u = ui_trace ui \<and> ui_backend u = ui_backend ui \<and> ui_syntax u = ui_syntax ui
     \<and> ui_normalized_addresses u = ui_normalized_addresses ui \<and> ui_history u = ui_history ui
     \<and> ui_history_rows u = ui_history_rows ui \<and> ui_history_backend u = ui_history_backend ui
     \<and> ui_history_backend_rows u = ui_history_backend_rows ui"

lemma histories_ok_frame: "same_history u ui \<Longrightarrow> histories_ok decoders u = histories_ok decoders ui"
  by (simp add: same_history_def histories_ok_def backend_histories_def)

lemma history_rows_frame: "same_history u ui \<Longrightarrow> history_rows_at u tab = history_rows_at ui tab"
  by (simp add: same_history_def history_rows_at_def)

lemma ui_ok_frame:
  assumes "ui_ok decoders ui" "same_history u ui"
    and "ui_history_tab u = ui_history_tab ui" "ui_previous_history_tab u = ui_previous_history_tab ui" "ui_cursor u = ui_cursor ui"
    and "settings_ok ui \<Longrightarrow> settings_ok u" "panel_ok ui \<Longrightarrow> panel_ok u" "seeds_ok ui \<Longrightarrow> seeds_ok u" "texts_fit ui \<Longrightarrow> texts_fit u"
  shows "ui_ok decoders u"
  using assms histories_ok_frame[OF assms(2)] history_rows_frame[OF assms(2)] by (simp add: ui_ok_def cursor_ok_def)

lemmas part_defs = settings_ok_def panel_ok_def seeds_ok_def texts_fit_def same_history_def

lemma ui_ok_cursor:
  assumes "ui_ok decoders ui" "0 \<le> c" "c \<le> int (length (history_rows_at ui (ui_history_tab ui)))"
  shows "ui_ok decoders (ui\<lparr>ui_cursor := c\<rparr>)"
proof -
  have same: "same_history (ui\<lparr>ui_cursor := c\<rparr>) ui" by (simp add: same_history_def)
  show ?thesis
    using assms histories_ok_frame[OF same] history_rows_frame[OF same] by (simp add: ui_ok_def cursor_ok_def part_defs)
qed

lemma ui_ok_status: "ui_ok decoders ui \<Longrightarrow> ui_ok decoders (ui\<lparr>ui_status := s\<rparr>)"
  by (erule ui_ok_frame) (simp_all add: part_defs)

lemma ui_ok_restore: "ui_ok decoders ui \<Longrightarrow> ui_ok decoders (restore_history_selection selection ui)"
  using restore_cursor[of ui selection] ui_ok_cursor[of decoders ui]
  by (metis cursor_ok_def ui_ok_def)

lemma ui_ok_rebuild:
  assumes "settings_ok ui" "panel_ok ui" "seeds_ok ui" "texts_fit ui" "trace_code (ui_trace ui) \<noteq> []"
    and "ui_history_tab ui \<le> 4" "ui_previous_history_tab ui = ui_history_tab ui" "0 \<le> ui_cursor ui"
  shows "\<exists>ui'. rebuild_history decoders ui = Some ui' \<and> ui_ok decoders ui' \<and> ui_trace ui' = ui_trace ui"
proof -
  have "length (trace_code (ui_trace ui)) < 2 ^ 63" using assms(4) by (simp add: texts_fit_def)
  from rebuild_history_result[OF this assms(8), of decoders]
  obtain rows brows c where r:
    "rebuild_history decoders ui = Some (ui\<lparr>ui_history_rows := rows,
       ui_history := build_history_lines (ui_trace ui) rows (ui_normalized_addresses ui), ui_history_backend_rows := brows,
       ui_history_backend := map (\<lambda>rows. build_history_lines (ui_trace ui) rows (ui_normalized_addresses ui)) brows,
       ui_cursor := c\<rparr>)" (is "_ = Some ?ui")
    "build_history decoders (ui_trace ui) (ui_backend ui) (ui_syntax ui) = Some rows"
    "backend_histories decoders ui = Some brows" "length brows = 4"
    "0 \<le> c" "c \<le> int (length (if ui_history_tab ui = 0 then rows else brows ! (ui_history_tab ui - 1)))"
    by metis
  have "histories_ok decoders ?ui" using r(2,3) assms(5) by (simp add: histories_ok_def backend_histories_def)
  moreover have "cursor_ok ?ui"
    using r(5,6) assms(6,7) by (cases "ui_history_tab ui = 0") (simp_all add: cursor_ok_def history_rows_at_def)
  moreover have "settings_ok ?ui" "panel_ok ?ui" "seeds_ok ?ui" "texts_fit ?ui"
    using assms(1-4) by (simp_all add: settings_ok_def panel_ok_def seeds_ok_def texts_fit_def)
  ultimately show ?thesis using r(1) by (simp add: ui_ok_def)
qed

text \<open>A change of decoder or syntax keeps the tabs in step with the trace, also when they are empty.\<close>

lemma ui_ok_rebuild_shown:
  assumes "ui_ok decoders ui" "backend_supports b s"
    and u: "u = ui\<lparr>ui_backend := b, ui_backend_label := backend_label_of b, ui_syntax := s, ui_syntax_label := syntax_label_of s\<rparr>"
  shows "\<exists>ui'. rebuild_shown decoders u = Some ui' \<and> ui_ok decoders ui'"
proof (cases "ui_history_rows ui = []")
  case False
  have "\<exists>ui'. rebuild_history decoders u = Some ui' \<and> ui_ok decoders ui' \<and> ui_trace ui' = ui_trace u"
    by (rule ui_ok_rebuild) (use assms(1,2) False in \<open>auto simp: u ui_ok_def part_defs cursor_ok_def histories_ok_def\<close>)
  then show ?thesis using False by (auto simp: rebuild_shown_def u)
next
  case True
  have "histories_ok decoders u"
  proof (cases "trace_code (ui_trace ui) = []")
    case True
    then show ?thesis using assms(1) by (simp add: u ui_ok_def histories_ok_def)
  next
    case False
    have fits: "length (trace_code (ui_trace ui)) < 2 ^ 64" using assms(1) by (simp add: ui_ok_def texts_fit_def)
    have h: "histories_ok decoders ui" using assms(1) by (simp add: ui_ok_def)
    then have "build_history decoders (ui_trace ui) (ui_backend ui) (ui_syntax ui) = Some []"
      using True False by (simp add: histories_ok_def)
    then have "build_history decoders (ui_trace ui) b' s' = Some []" for b' s'
      by (rule build_history_empty[OF fits])
    then show ?thesis using h True False by (simp add: u histories_ok_def backend_histories_def ALL_BACKENDS_def)
  qed
  moreover have "cursor_ok u"
    using assms(1) by (cases "ui_history_tab ui = 0") (simp_all add: u ui_ok_def cursor_ok_def history_rows_at_def)
  ultimately have "ui_ok decoders u"
    using assms(1,2) by (simp add: u ui_ok_def settings_ok_def panel_ok_def seeds_ok_def texts_fit_def)
  then show ?thesis using True by (simp add: rebuild_shown_def u)
qed

lemma toggle_syntax_ok:
  assumes "ui_ok decoders ui"
  shows "\<exists>ui'. toggle_syntax decoders ui = Some ui' \<and> ui_ok decoders ui'"
proof (cases "backend_supports (ui_backend ui) (if ui_syntax ui = Intel then ATT else Intel)")
  case True
  have "ui_backend_label ui = backend_label_of (ui_backend ui)" using assms by (simp add: ui_ok_def settings_ok_def)
  then have "toggle_syntax decoders ui = rebuild_shown decoders (ui\<lparr>ui_backend := ui_backend ui,
      ui_backend_label := backend_label_of (ui_backend ui),
      ui_syntax := (if ui_syntax ui = Intel then ATT else Intel),
      ui_syntax_label := syntax_label_of (if ui_syntax ui = Intel then ATT else Intel)\<rparr>)"
    using True by (cases "ui_syntax ui = Intel") (simp_all add: toggle_syntax_def Let_def flip: \<open>ui_backend_label ui = _\<close>)
  then show ?thesis using ui_ok_rebuild_shown[OF assms True refl] by simp
next
  case False
  then show ?thesis using ui_ok_status[OF assms] by (simp add: toggle_syntax_def)
qed

lemma every_backend_intel: "backend_supports b Intel"
  by (cases b) (simp_all add: backend_supports_def backend_info_def BACKENDS_def)

lemma cycle_backend_ok:
  assumes "ui_ok decoders ui"
  shows "\<exists>ui'. cycle_backend decoders direction ui = Some ui' \<and> ui_ok decoders ui'"
proof -
  define b where "b = backend_of_index (nat ((int (backend_index (ui_backend ui)) + direction + int (length BACKENDS)) mod int (length BACKENDS)))"
  define s where "s = (if backend_supports b (ui_syntax ui) then ui_syntax ui else Intel)"
  have label: "syntax_label_of (ui_syntax ui) = ui_syntax_label ui" using assms by (simp add: ui_ok_def settings_ok_def)
  have "cycle_backend decoders direction ui
    = rebuild_shown decoders (ui\<lparr>ui_backend := b, ui_backend_label := backend_label_of b, ui_syntax := s, ui_syntax_label := syntax_label_of s\<rparr>)"
    unfolding cycle_backend_def Let_def b_def[symmetric]
    by (cases "backend_supports b (ui_syntax ui)") (simp_all add: s_def label syntax_label_of_def[of Intel])
  moreover have "backend_supports b s" by (simp add: s_def every_backend_intel)
  ultimately show ?thesis using ui_ok_rebuild_shown[OF assms _ refl] by metis
qed

lemma trace_code_run_engine [simp]:
  "trace_code (run_engine host run code seed max_steps backend syn pointers stop_offset) = code"
  by (simp add: run_engine_def describe_stop_def default_trace_def Let_def split: option.split Outcome.split)

lemma decoded_fits:
  assumes "parse_code_text text = Inr code" "length text < 2 ^ 63"
  shows "code \<noteq> []" "length code < 2 ^ 63"
  using code_text_bytes[OF parse_code_text_sound[OF assms(1)]] code_text_length[OF parse_code_text_sound[OF assms(1)]] assms(2)
  by auto

lemma execute_runs:
  assumes "ui_ok (tui_decoders host) ui" "parse_code_text (ui_code ui) = Inr decoded"
    "\<not> (stop_offset \<noteq> None \<and> decoded \<noteq> trace_code (ui_trace ui))"
  shows "\<exists>ui'. execute host stop_offset ui = Some ui' \<and> ui_ok (tui_decoders host) ui'"
proof -
  have fits: "length (ui_code ui) < 2 ^ 63" using assms(1) by (simp add: ui_ok_def texts_fit_def)
  obtain seed errors where seed: "compose_seed (ui_seed_gpr ui) (ui_seed_flags ui) (ui_seed_xmm ui) (ui_seed_st ui) (ui_seed_env ui) [] = (seed, errors)"
    by fastforce
  define trace where "trace = run_engine (tui_engine host) (tui_run_platform host) decoded seed (ui_max_steps ui)
    (ui_backend ui) (ui_syntax ui) (ui_seed_data_pointers ui) stop_offset"
  define u where "u = ui\<lparr>ui_trace := trace, ui_cursor := 0, ui_show_instrumentation_warning :=
    (if trace_instrumentation_detected trace then True else ui_show_instrumentation_warning ui)\<rparr>"
  have code: "trace_code trace = decoded" by (simp add: trace_def)
  have "\<exists>ui'. rebuild_history (tui_decoders host) u = Some ui' \<and> ui_ok (tui_decoders host) ui' \<and> ui_trace ui' = ui_trace u"
    by (rule ui_ok_rebuild)
      (use assms(1) decoded_fits[OF assms(2) fits] in \<open>simp_all add: u_def code ui_ok_def part_defs cursor_ok_def\<close>)
  then obtain u' where u': "rebuild_history (tui_decoders host) u = Some u'" "ui_ok (tui_decoders host) u'" by blast
  let ?shown = "case stop_offset of
       None \<Rightarrow> u'
     | Some offset \<Rightarrow>
         if trace_stop_address trace = reg_get (trace_seed trace) RIP + word_of_nat offset
         then restore_history_selection \<lparr>sel_rip = trace_stop_address trace, sel_event = None, sel_has_row = True\<rparr> u'
         else u'"
  have "execute host stop_offset ui = Some (?shown\<lparr>ui_status := RunReport (length decoded) (trace_message trace) errors\<rparr>)"
    unfolding execute_def assms(2) sum.case if_not_P[OF assms(3)] seed prod.case Let_def trace_def[symmetric]
      u_def[symmetric] u'(1) bind.simps ..
  moreover have "ui_ok (tui_decoders host) ?shown"
    using u'(2) ui_ok_restore[OF u'(2)] by (simp split: option.split)
  ultimately show ?thesis using ui_ok_status by blast
qed

lemma execute_ok:
  assumes "ui_ok (tui_decoders host) ui"
  shows "\<exists>ui'. execute host stop_offset ui = Some ui' \<and> ui_ok (tui_decoders host) ui'"
proof (cases "parse_code_text (ui_code ui)")
  case (Inl e)
  then show ?thesis using ui_ok_status[OF assms] by (simp add: execute_def)
next
  case (Inr decoded)
  show ?thesis
  proof (cases "stop_offset \<noteq> None \<and> decoded \<noteq> trace_code (ui_trace ui)")
    case True
    then show ?thesis using Inr ui_ok_status[OF assms] by (simp add: execute_def)
  next
    case False
    then show ?thesis by (rule execute_runs[OF assms Inr])
  qed
qed

text \<open>The next and the previous executed row.\<close>

definition executed_at :: "HistoryRow list \<Rightarrow> int \<Rightarrow> bool" where
  "executed_at rows k \<longleftrightarrow> 1 \<le> k \<and> k \<le> int (length rows) \<and> executed_row (rows ! nat (k - 1))"

lemma step_from_next:
  assumes "1 \<le> i"
  shows "case step_from rows i of
      Some j \<Rightarrow> i \<le> j \<and> executed_at rows j \<and> (\<forall>k. i \<le> k \<and> k < j \<longrightarrow> \<not> executed_at rows k)
    | None \<Rightarrow> \<forall>k. i \<le> k \<longrightarrow> \<not> executed_at rows k"
  using assms
proof (induction rows i rule: step_from.induct)
  case (1 rows i)
  show ?case
  proof (cases "i \<le> int (length rows) \<and> \<not> executed_row (rows ! nat (i - 1))")
    case True
    then have eq: "step_from rows i = step_from rows (i + 1)" by (subst step_from.simps) simp
    have no: "\<not> executed_at rows i" using True by (simp add: executed_at_def)
    have IH: "case step_from rows (i + 1) of
        Some j \<Rightarrow> i + 1 \<le> j \<and> executed_at rows j \<and> (\<forall>k. i + 1 \<le> k \<and> k < j \<longrightarrow> \<not> executed_at rows k)
      | None \<Rightarrow> \<forall>k. i + 1 \<le> k \<longrightarrow> \<not> executed_at rows k"
      using "1.IH" "1.prems" True by simp
    have split: "i \<le> k \<longleftrightarrow> k = i \<or> i + 1 \<le> k" for k by auto
    show ?thesis using IH no unfolding eq split by (auto split: option.splits)
  next
    case False
    then show ?thesis using "1.prems" by (subst step_from.simps) (auto simp: executed_at_def)
  qed
qed

lemma back_from_previous:
  assumes "i \<le> int (length rows)"
  shows "case back_from rows i of
      Some j \<Rightarrow> j \<le> i \<and> executed_at rows j \<and> (\<forall>k. j < k \<and> k \<le> i \<longrightarrow> \<not> executed_at rows k)
    | None \<Rightarrow> \<forall>k\<le>i. \<not> executed_at rows k"
  using assms
proof (induction rows i rule: back_from.induct)
  case (1 rows i)
  show ?case
  proof (cases "1 \<le> i \<and> \<not> executed_row (rows ! nat (i - 1))")
    case True
    then have eq: "back_from rows i = back_from rows (i - 1)" by (subst back_from.simps) simp
    have no: "\<not> executed_at rows i" using True by (simp add: executed_at_def)
    have IH: "case back_from rows (i - 1) of
        Some j \<Rightarrow> j \<le> i - 1 \<and> executed_at rows j \<and> (\<forall>k. j < k \<and> k \<le> i - 1 \<longrightarrow> \<not> executed_at rows k)
      | None \<Rightarrow> \<forall>k\<le>i - 1. \<not> executed_at rows k"
      using "1.IH" "1.prems" True by simp
    have split: "k \<le> i \<longleftrightarrow> k = i \<or> k \<le> i - 1" for k by auto
    show ?thesis using IH no unfolding eq split by (auto split: option.splits)
  next
    case False
    then show ?thesis using "1.prems" by (subst back_from.simps) (auto simp: executed_at_def)
  qed
qed

lemma ui_ok_step:
  assumes "ui_ok decoders ui"
  shows "ui_ok decoders (ui_step ui)"
proof -
  have "0 \<le> ui_cursor ui" using assms by (simp add: ui_ok_def cursor_ok_def)
  then show ?thesis
    using step_from_next[of "ui_cursor ui + 1" "history_rows_at ui (ui_history_tab ui)"] assms
    by (auto simp: ui_step_def executed_at_def split: option.splits intro: ui_ok_cursor)
qed

lemma ui_ok_back:
  assumes "ui_ok decoders ui"
  shows "ui_ok decoders (ui_back ui)"
proof -
  have "ui_cursor ui - 1 \<le> int (length (history_rows_at ui (ui_history_tab ui)))"
    using assms by (simp add: ui_ok_def cursor_ok_def)
  from back_from_previous[OF this] show ?thesis
    using assms by (auto simp: ui_back_def executed_at_def split: option.splits intro: ui_ok_cursor)
qed

lemma ui_ok_reset:
  assumes "ui_ok decoders ui"
  shows "ui_ok decoders (ui_reset ui)"
proof -
  have "length (ui_history_backend ui) = 4"
  proof (cases "trace_code (ui_trace ui) = []")
    case True
    then show ?thesis using assms by (simp add: ui_ok_def histories_ok_def)
  next
    case False
    obtain rows where "backend_histories decoders ui = Some rows" "length rows = 4"
      using backend_histories_total[of ui decoders] assms by (auto simp: ui_ok_def texts_fit_def)
    then show ?thesis using assms False by (simp add: ui_ok_def histories_ok_def)
  qed
  then have "map (\<lambda>_. NO_TRACE) (ui_history_backend ui) = replicate 4 NO_TRACE" by (simp add: map_replicate_const)
  then show ?thesis
    using assms by (simp add: ui_reset_def ui_ok_def histories_ok_def cursor_ok_def history_rows_at_def part_defs default_trace_def)
qed

lemma length_build_history_lines [simp]: "length (build_history_lines trace rows relative) = Suc (length rows)"
proof -
  have "length (history_line_list trace relative w k rows) = length rows" for w k
    by (induction rows arbitrary: k) (simp_all add: Let_def)
  then show ?thesis by (simp add: build_history_lines_def)
qed

text \<open>Every tab has one line more than rows.\<close>

lemma history_lines_rows:
  assumes "ui_ok decoders ui" "tab \<le> 4"
  shows "length (history_lines_at ui tab) = Suc (length (history_rows_at ui tab))"
proof (cases "trace_code (ui_trace ui) = []")
  case True
  then show ?thesis
    using assms by (cases "tab = 0") (simp_all add: ui_ok_def histories_ok_def history_lines_at_def history_rows_at_def NO_TRACE_def)
next
  case False
  obtain rows where rows: "backend_histories decoders ui = Some rows" "length rows = 4"
    using backend_histories_total[of ui decoders] assms by (auto simp: ui_ok_def texts_fit_def)
  have h: "histories_ok decoders ui" using assms by (simp add: ui_ok_def)
  then have brows: "ui_history_backend_rows ui = rows" using False rows(1) by (simp add: histories_ok_def)
  show ?thesis
    using h False rows(2) assms(2) by (cases "tab = 0") (simp_all add: histories_ok_def history_lines_at_def history_rows_at_def brows)
qed

lemma ui_ok_row_selected:
  assumes "ui_ok decoders ui" "i < length (history_lines_at ui (ui_history_tab ui))"
  shows "ui_ok decoders (ui\<lparr>ui_cursor := int i\<rparr>)"
proof -
  have "ui_history_tab ui \<le> 4" using assms(1) by (simp add: ui_ok_def cursor_ok_def)
  then show ?thesis using assms(2) history_lines_rows[OF assms(1)] by (intro ui_ok_cursor[OF assms(1)]) simp_all
qed

lemma ui_ok_tab_changed:
  assumes "ui_ok decoders ui" "tab \<le> 4"
  shows "ui_ok decoders (history_tab_changed (ui\<lparr>ui_history_tab := tab\<rparr>))"
proof -
  let ?u = "ui\<lparr>ui_history_tab := tab\<rparr>"
  obtain c where c: "restore_history_selection (history_selection ?u (ui_previous_history_tab ?u)) ?u = ?u\<lparr>ui_cursor := c\<rparr>"
    "0 \<le> c" "c \<le> int (length (history_rows_at ?u (ui_history_tab ?u)))"
    using restore_cursor[of ?u] assms(1) by (auto simp: ui_ok_def cursor_ok_def)
  have eq: "history_tab_changed ?u = ui\<lparr>ui_cursor := c, ui_history_tab := tab, ui_previous_history_tab := tab\<rparr>"
    using c(1) by (simp add: history_tab_changed_def Let_def)
  have same: "same_history (history_tab_changed ?u) ui" by (simp add: eq same_history_def)
  have "history_rows_at ?u tab = history_rows_at ui tab" by (simp add: history_rows_at_def)
  then show ?thesis
    using assms c histories_ok_frame[OF same] history_rows_frame[OF same]
    by (simp add: ui_ok_def cursor_ok_def part_defs eq)
qed

lemma ui_ok_cursor_range:
  assumes "ui_ok decoders ui"
  shows "0 \<le> ui_cursor ui" "ui_cursor ui \<le> int (length (history_rows_at ui (ui_history_tab ui)))"
  using assms by (simp_all add: ui_ok_def cursor_ok_def)

lemma ui_ok_wheel: "ui_ok decoders ui \<Longrightarrow> ui_ok decoders (history_wheel up ui)"
  using ui_ok_cursor_range[of decoders ui] by (simp add: history_wheel_def ui_ok_cursor)

lemma ui_ok_panel:
  assumes "ui_ok decoders ui"
  shows "reg < 16 \<Longrightarrow> level < 3 \<Longrightarrow> ui_ok decoders (gpr_clicked reg level ui)"
    and "ui_ok decoders (xmm_clicked reg ui)" "ui_ok decoders (st_clicked reg ui)"
    and "ui_ok decoders (register_wheel has_real_focus up ui)"
    and "tab < 3 \<Longrightarrow> ui_ok decoders (ui\<lparr>ui_register_tab := tab\<rparr>)"
    and "0 \<le> y \<Longrightarrow> ui_ok decoders (ui\<lparr>ui_register_scroll := (ui_register_scroll ui)[r := y]\<rparr>)"
proof -
  have upd: "\<forall>x\<in>set (xs[i := y]). P x" if "\<forall>x\<in>set xs. P x" "P y" for xs :: "'x list" and i y P
    using that set_update_subset_insert[of xs i y] by auto
  have p: "panel_ok ui" using assms by (simp add: ui_ok_def)
  show "ui_ok decoders (xmm_clicked reg ui)" "ui_ok decoders (st_clicked reg ui)"
    "tab < 3 \<Longrightarrow> ui_ok decoders (ui\<lparr>ui_register_tab := tab\<rparr>)"
    by (rule ui_ok_frame[OF assms]; simp add: part_defs xmm_clicked_def st_clicked_def)+
  show "reg < 16 \<Longrightarrow> level < 3 \<Longrightarrow> ui_ok decoders (gpr_clicked reg level ui)"
  proof (rule ui_ok_frame[OF assms])
    assume "level < 3"
    then have "(if ui_gpr_depth ui ! reg > level then level else level + 1) \<le> 3" by simp
    from upd[of "ui_gpr_depth ui" "\<lambda>d. d \<le> 3", OF _ this] show "panel_ok (gpr_clicked reg level ui)"
      using p by (simp add: panel_ok_def gpr_clicked_def Let_def)
  qed (simp_all add: settings_ok_def seeds_ok_def texts_fit_def same_history_def gpr_clicked_def Let_def)
  show "0 \<le> y \<Longrightarrow> ui_ok decoders (ui\<lparr>ui_register_scroll := (ui_register_scroll ui)[r := y]\<rparr>)" for r y
  proof (rule ui_ok_frame[OF assms])
    assume "0 \<le> y"
    from upd[of "ui_register_scroll ui" "\<lambda>s. 0 \<le> s", OF _ this]
    show "panel_ok (ui\<lparr>ui_register_scroll := (ui_register_scroll ui)[r := y]\<rparr>)"
      using p by (simp add: panel_ok_def)
  qed (simp_all add: settings_ok_def seeds_ok_def texts_fit_def same_history_def)
  note scroll = this
  have "0 \<le> ui_register_scroll ui ! ui_register_tab ui" using p by (simp add: panel_ok_def)
  then show "ui_ok decoders (register_wheel has_real_focus up ui)"
    using assms scroll by (simp add: register_wheel_def Let_def)
qed

lemma ui_ok_flag:
  assumes "ui_ok decoders ui" "flag \<in> set (map snd STATUS_FLAGS)"
  shows "ui_ok decoders (flag_clicked flag ui)"
proof (rule ui_ok_frame[OF assms(1)])
  have "flag AND NOT RFLAGS_STATUS_MASK = 0"
    using assms(2) by (auto simp: STATUS_FLAGS_def RFLAGS_STATUS_MASK_def OF_def DF_def SF_def ZF_def AF_def PF_def CF_def)
  moreover have "(ui_seed_flags ui XOR flag) AND NOT RFLAGS_STATUS_MASK
      = (ui_seed_flags ui AND NOT RFLAGS_STATUS_MASK) XOR (flag AND NOT RFLAGS_STATUS_MASK)"
    by (rule bit_eqI) (auto simp: bit_simps)
  ultimately show "seeds_ok ui \<Longrightarrow> seeds_ok (flag_clicked flag ui)"
    by (simp add: seeds_ok_def flag_clicked_def)
qed (simp_all add: part_defs flag_clicked_def)

lemma ui_ok_layout:
  assumes "ui_ok (tui_decoders host) ui"
  shows "\<exists>b ui'. layout_event host input ui = Some (b, ui') \<and> ui_ok (tui_decoders host) ui'"
proof (cases "ui_show_about ui \<or> ui_show_settings ui")
  case True
  then show ?thesis using assms by auto
next
  case False
  note copied = ui_ok_status[OF assms]
  show ?thesis
    using False assms copied execute_ok[OF assms, of None] ui_ok_step[OF assms] ui_ok_back[OF assms]
    by (cases input) (auto simp: copy_address_def copy_value_def ui_run_def Let_def)
qed

lemma addresses_changed_ok:
  assumes "ui_ok decoders ui"
  shows "\<exists>ui'. addresses_changed decoders (ui\<lparr>ui_normalized_addresses := b\<rparr>) = Some ui' \<and> ui_ok decoders ui'"
proof (cases "trace_code (ui_trace ui) = []")
  case True
  have "histories_ok decoders (ui\<lparr>ui_normalized_addresses := b\<rparr>)"
    using True assms by (simp add: ui_ok_def histories_ok_def)
  moreover have "history_rows_at (ui\<lparr>ui_normalized_addresses := b\<rparr>) tab = history_rows_at ui tab" for tab
    by (simp add: history_rows_at_def)
  ultimately show ?thesis
    using True assms by (simp add: addresses_changed_def ui_ok_def cursor_ok_def part_defs)
next
  case False
  have "\<exists>ui'. rebuild_history decoders (ui\<lparr>ui_normalized_addresses := b\<rparr>) = Some ui' \<and> ui_ok decoders ui'
      \<and> ui_trace ui' = ui_trace (ui\<lparr>ui_normalized_addresses := b\<rparr>)"
    by (rule ui_ok_rebuild) (use assms False in \<open>simp_all add: ui_ok_def cursor_ok_def part_defs\<close>)
  then show ?thesis using False by (auto simp: addresses_changed_def)
qed

lemma max_steps_changed_ok: "ui_ok decoders ui \<Longrightarrow> ui_ok decoders (max_steps_changed (ui\<lparr>ui_max_steps_text := t\<rparr>))"
  by (erule ui_ok_frame) (auto simp: max_steps_changed_def MAX_STEPS_LIMIT_def part_defs split: option.split)

lemma draw_labels_ok: "ui_ok decoders ui \<Longrightarrow> ui_ok decoders (draw_labels ui)"
  by (erule ui_ok_frame) (simp_all add: draw_labels_def part_defs)

lemma handle_event_ok:
  assumes "ui_ok (tui_decoders host) ui" "possible_event ui event"
  shows "\<exists>ui'. handle_event host event ui = Some ui' \<and> ui_ok (tui_decoders host) ui'"
proof -
  note status = ui_ok_status[OF assms(1)] and possible = assms(2)[unfolded possible_event_def]
  have frame: "ui_ok (tui_decoders host) u"
    if "same_history u ui" "ui_history_tab u = ui_history_tab ui" "ui_previous_history_tab u = ui_previous_history_tab ui"
      "ui_cursor u = ui_cursor ui" "settings_ok ui \<Longrightarrow> settings_ok u" "panel_ok ui \<Longrightarrow> panel_ok u" "seeds_ok ui \<Longrightarrow> seeds_ok u"
      "texts_fit ui \<Longrightarrow> texts_fit u" for u
    using ui_ok_frame[OF assms(1) that] .
  show ?thesis
  proof (cases event)
    case (LayoutEvent input)
    then show ?thesis using ui_ok_layout[OF assms(1), of input] by (auto simp: handle_event_def)
  next
    case RunPressed
    then show ?thesis using execute_ok[OF assms(1)] by (simp add: handle_event_def ui_run_def)
  next
    case RunToRowPressed
    then show ?thesis using execute_ok[OF assms(1)] status by (simp add: handle_event_def run_to_selected_row_def Let_def)
  next
    case CopyRowPressed
    then show ?thesis using status by (simp add: handle_event_def copy_history_row_def Let_def)
  next
    case (HistoryTabSelected tab)
    then have "tab \<le> 4" using possible by (simp add: BACKENDS_def)
    then show ?thesis using HistoryTabSelected ui_ok_tab_changed[OF assms(1)] by (simp add: handle_event_def)
  next
    case (HistoryRowSelected i)
    then show ?thesis using possible ui_ok_row_selected[OF assms(1)] by (simp add: handle_event_def)
  next
    case (FlagClicked flag)
    then show ?thesis using possible ui_ok_flag[OF assms(1)] by (simp add: handle_event_def)
  next
    case SyntaxPressed
    then show ?thesis using toggle_syntax_ok[OF assms(1)] by (simp add: handle_event_def)
  next
    case (BackendPressed forward)
    then show ?thesis using cycle_backend_ok[OF assms(1)] by (simp add: handle_event_def)
  next
    case (MaxStepsEdited t)
    then show ?thesis using max_steps_changed_ok[OF assms(1)] by (simp add: handle_event_def)
  next
    case AddressesPressed
    then show ?thesis using addresses_changed_ok[OF assms(1)] by (simp add: handle_event_def)
  next
    case (Drawn box)
    then show ?thesis
      using assms(1) ui_ok_panel(6)[OF assms(1)]
      by (auto simp: handle_event_def viewport_offset_def Let_def split: option.split intro!: draw_labels_ok)
  qed (use possible assms(1) ui_ok_step ui_ok_back ui_ok_reset ui_ok_wheel ui_ok_panel
    in \<open>simp_all add: handle_event_def\<close>; (rule frame; simp add: part_defs))+
qed

section \<open>Sessions\<close>

definition cli_text_fits :: "CLI \<Rightarrow> bool" where
  "cli_text_fits cli \<longleftrightarrow> (case cli_bytes cli of None \<Rightarrow> True | Some bytes \<Rightarrow> length bytes < 2 ^ 63)"

lemma length_format_code_text: "length (format_code_text code) \<le> 3 * length code"
proof (induction code)
  case (Cons b bs)
  then show ?case by (cases bs) (simp_all add: format_code_text_def hex_bytes_def hex_padded_byte)
qed (simp add: format_code_text_def hex_bytes_def)

lemma read_binary_input_length:
  "read_binary_input open_file path = Inr code \<Longrightarrow> length code \<le> MAX_RAW_FILE_BYTES"
  by (auto simp: read_binary_input_def Let_def split: option.splits if_splits)

lemma tui_input_frame:
  "\<exists>code s. tui_input host cli ui = ui\<lparr>ui_code := code, ui_status := s\<rparr>
     \<and> (cli_text_fits cli \<longrightarrow> length (ui_code ui) < 2 ^ 63 \<longrightarrow> length code < 2 ^ 63)"
proof -
  have loaded: "length (format_code_text code) < 2 ^ 63" if "read_binary_input open_file path = Inr code" for open_file path code
    using length_format_code_text[of code] read_binary_input_length[OF that]
    by (simp add: MAX_RAW_FILE_BYTES_def MAX_STEPS_LIMIT_def)
  consider bytes where "cli_bytes cli = Some bytes"
    | path where "cli_bytes cli = None" "cli_input_file cli = Some path"
    | "cli_bytes cli = None" "cli_input_file cli = None" by (cases "cli_bytes cli"; cases "cli_input_file cli") auto
  then show ?thesis
  proof cases
    case (1 bytes)
    then show ?thesis
      by (intro exI[of _ bytes] exI[of _ "ui_status ui"]) (simp add: tui_input_def cli_text_fits_def)
  next
    case (2 path)
    show ?thesis
    proof (cases "read_binary_input (tui_open_file host) path")
      case (Inl e)
      then show ?thesis
        using 2 by (intro exI[of _ "ui_code ui"] exI[of _ "InputFileError e"]) (simp add: tui_input_def)
    next
      case (Inr code)
      then show ?thesis
        using 2 loaded[OF Inr]
        by (intro exI[of _ "format_code_text code"] exI[of _ "ui_status ui"]) (simp add: tui_input_def)
    qed
  next
    case 3
    then show ?thesis by (intro exI[of _ "ui_code ui"] exI[of _ "ui_status ui"]) (simp add: tui_input_def)
  qed
qed

lemma tui_state_ok:
  assumes "cli_ok cli" "cli_text_fits cli"
  shows "ui_ok decoders (tui_state host cli)"
proof -
  obtain code s where u: "tui_input host cli (default_ui\<lparr>ui_show_instrumentation_warning := tui_instrumentation_detected host\<rparr>)
      = default_ui\<lparr>ui_show_instrumentation_warning := tui_instrumentation_detected host, ui_code := code, ui_status := s\<rparr>"
    and code: "length code < 2 ^ 63"
    using tui_input_frame[of host cli] assms(2) by (fastforce simp: default_ui_def)
  show ?thesis
    using assms(1) code unfolding tui_state_def u Let_def
    by (simp add: ui_ok_def histories_ok_def cursor_ok_def history_rows_at_def part_defs
        default_ui_def default_trace_def cli_ok_def cli_seeds_ok_def map_replicate_const)
qed

lemma run_tui_ok:
  assumes "cli_ok cli" "cli_text_fits cli"
  shows "\<exists>ui. run_tui host cli = Some ui \<and> ui_ok (tui_decoders host) ui"
  using execute_ok[OF tui_state_ok[OF assms]] tui_state_ok[OF assms] by (simp add: run_tui_def ui_run_def Let_def)

lemma session_ok:
  assumes "session decoders cli ui" "cli_ok cli" "cli_text_fits cli"
  shows "ui_ok decoders ui"
  using assms
proof (induction rule: session.induct)
  case (start host ui)
  then show ?case using run_tui_ok[of cli host] by auto
next
  case (event ui event host ui')
  then show ?case using handle_event_ok[of host ui event] by auto
qed

section \<open>Properties\<close>

text \<open>
  C4: the interface keeps its invariant and never gets stuck. In every state of a session that starts
  from an accepted command line, the five History tabs show the histories of the current trace, the
  cursor is on a row of the visible tab or on the seed, the step cap, decoder and syntax are valid and
  agree with their labels, and the panel state and the seeds are well formed; and every event that a
  widget can trigger is handled to the end.
\<close>

theorem tui_session_safe:
  assumes "session decoders cli ui" "cli_ok cli" "cli_text_fits cli"
  shows "ui_ok decoders ui \<and>
    (\<forall>host event. tui_decoders host = decoders \<and> possible_event ui event \<longrightarrow> (\<exists>ui'. handle_event host event ui = Some ui'))"
  using session_ok[OF assms] handle_event_ok by metis

section \<open>Example\<close>

definition example_tui_host :: TuiHost where
  "example_tui_host = \<lparr>tui_decoders = example_decoders,
     tui_engine = \<lparr>host_cpu_fingerprint = None, host_page_size = 0x1000, host_granularity = 0x1000\<rparr>,
     tui_run_platform = (\<lambda>_. default_result), tui_copy_to_clipboard = (\<lambda>_. True), tui_instrumentation_detected = False,
     tui_open_file = (\<lambda>_. None)\<rparr>"

lemma default_cli_ok: "cli_ok default_cli" "cli_text_fits default_cli"
proof -
  show "cli_text_fits default_cli" by (simp add: cli_text_fits_def default_cli_def)
  have "cli_seeds_ok default_cli" by (rule cli_seeds_ok_default)
  then show "cli_ok default_cli"
    by (simp add: cli_ok_def default_cli_def DEFAULT_MAX_STEPS_def MAX_STEPS_LIMIT_def every_backend_intel)
qed

theorem tui_session_safe_witness: "ui_ok example_decoders (tui_state example_tui_host default_cli)"
proof -
  have "run_tui example_tui_host default_cli = Some (tui_state example_tui_host default_cli)"
    by (simp add: run_tui_def default_cli_def Let_def)
  then have "session example_decoders default_cli (tui_state example_tui_host default_cli)"
    by (intro session.start[of example_tui_host]) (simp_all add: example_tui_host_def)
  from tui_session_safe[OF this default_cli_ok] show ?thesis by blast
qed

end
