(* ===== verification/Navigation.thy ===== *)
theory Navigation
  imports Tui
begin

text \<open>
  Moving through a recorded execution in the terminal interface: which rows have an execution state,
  where Step and Back lead, and what a change of the History tab selects. The theorems combine the
  invariant of the interface with the facts about \<open>build_history\<close>.
\<close>

section \<open>Rows and events\<close>

lemma present_filter: "map snd (present k (map (\<lambda>e. if P e then Some e else None) es)) = filter P es"
  by (induction es arbitrary: k) simp_all

lemma present_nth: "(i, e) \<in> set (present 0 (map (\<lambda>e. if P e then Some e else None) es)) \<longleftrightarrow> i < length es \<and> P (es ! i) \<and> e = es ! i"
  by (auto simp: present_iff split: if_splits)

text \<open>The rows of an ordinary trace: its code is loaded below the end of the address space.\<close>

definition plain_trace :: "Trace \<Rightarrow> bool" where
  "plain_trace trace \<longleftrightarrow> trace_code trace \<noteq> [] \<and> \<not> trace_instrumentation_detected trace
     \<and> unat (reg_get (trace_seed trace) RIP) + length (trace_code trace) < 2 ^ 64"

lemma executed_row_event:
  assumes "build_history decoders trace backend syn = Some rows" "plain_trace trace" "row \<in> set rows"
  shows "executed_row row \<longleftrightarrow> row_event row \<noteq> None"
proof (cases "row_event row")
  case None
  have "in_space (history_context decoders trace backend syn)"
    using assms(2) by (simp add: in_space_def history_context_def plain_trace_def)
  from layout_tiles[OF this] have "tiles trace rows"
    using assms(1,2) by (simp add: build_history_layout plain_trace_def)
  then show ?thesis using assms(3) None by (auto simp: tiles_def executed_row_def Let_def)
next
  case (Some i)
  have "(i, row_rip row, row_kind row)
      \<in> set (map (\<lambda>row. (the (row_event row), row_rip row, row_kind row)) (filter (\<lambda>row. row_event row \<noteq> None) rows))"
    using assms(3) Some by force
  then show ?thesis
    using assms(2) Some unfolding plain_trace_def
    by (subst (asm) build_history_event_rows[OF assms(1)]) (auto simp: executed_row_def split: if_splits)
qed

lemma event_row:
  assumes "build_history decoders trace backend syn = Some rows" "plain_trace trace" "row \<in> set rows" "row_event row = Some i"
  shows "i < length (trace_execution_events trace) \<and> inside_input trace (trace_execution_events trace ! i)
    \<and> row_rip row = ev_rip (trace_execution_events trace ! i)"
proof -
  have "(i, row_rip row, row_kind row)
      \<in> set (map (\<lambda>row. (the (row_event row), row_rip row, row_kind row)) (filter (\<lambda>row. row_event row \<noteq> None) rows))"
    using assms(3,4) by force
  then show ?thesis
    using assms(2) unfolding plain_trace_def
    by (subst (asm) build_history_event_rows[OF assms(1)]) (auto simp: present_nth)
qed

lemma event_has_row:
  assumes "build_history decoders trace backend syn = Some rows" "plain_trace trace"
    and "i < length (trace_execution_events trace)" "inside_input trace (trace_execution_events trace ! i)"
  shows "\<exists>row\<in>set rows. row_event row = Some i"
proof -
  let ?e = "trace_execution_events trace ! i"
  have "(i, ev_rip ?e, if ev_kind ?e = Completed then Reached else RowFaulted)
      \<in> set (map (\<lambda>(i, e). (i, ev_rip e, if ev_kind e = Completed then Reached else RowFaulted))
        (present 0 (map (\<lambda>e. if inside_input trace e then Some e else None) (trace_execution_events trace))))"
    using assms(3,4) present_nth[of i ?e "inside_input trace" "trace_execution_events trace"] by force
  then show ?thesis
    using assms(2) unfolding plain_trace_def
    by (subst (asm) build_history_event_rows[OF assms(1), symmetric]) auto
qed

lemma tab_rows:
  assumes "ui_ok decoders ui" "trace_code (ui_trace ui) \<noteq> []" "tab \<le> 4"
  shows "\<exists>b s. build_history decoders (ui_trace ui) b s = Some (history_rows_at ui tab)"
proof (cases "tab = 0")
  case True
  then show ?thesis using assms by (auto simp: ui_ok_def histories_ok_def history_rows_at_def)
next
  case False
  have "those (map (\<lambda>backend. build_history decoders (ui_trace ui) backend (tab_syntax backend (ui_syntax ui))) ALL_BACKENDS)
      = Some (ui_history_backend_rows ui)"
    using assms by (simp add: ui_ok_def histories_ok_def backend_histories_def)
  moreover have "tab - 1 < length ALL_BACKENDS" using assms(3) False by (simp add: ALL_BACKENDS_def)
  moreover have "those xs = Some ys \<Longrightarrow> k < length xs \<Longrightarrow> xs ! k = Some (ys ! k)" for xs :: "HistoryRow list option list" and ys k
    by (induction xs arbitrary: ys k) (auto split: option.splits simp: nth_Cons')
  ultimately have "build_history decoders (ui_trace ui) (ALL_BACKENDS ! (tab - 1)) (tab_syntax (ALL_BACKENDS ! (tab - 1)) (ui_syntax ui))
      = Some (ui_history_backend_rows ui ! (tab - 1))"
    by (metis (no_types, lifting) length_map nth_map)
  then show ?thesis using False by (auto simp: history_rows_at_def)
qed

section \<open>Navigation\<close>

text \<open>A tab switch with the cursor on an executed row.\<close>

lemma find_index_found:
  assumes "\<exists>x\<in>set xs. P x"
  shows "find_index P xs < length xs \<and> P (xs ! find_index P xs)"
  using assms by (induction xs) auto

definition shown_row :: "UI \<Rightarrow> HistoryRow option" where
  "shown_row ui =
     (let rows = history_rows_at ui (ui_history_tab ui)
      in if cursor_on_row ui rows then Some (rows ! (nat (ui_cursor ui) - 1)) else None)"

definition shown_registers :: "UI \<Rightarrow> Registers" where
  "shown_registers ui = history_state_at ui (nat (ui_cursor ui))"

lemma state_below_event:
  assumes "0 < p" "row_event (rows ! (p - 1)) = Some i" "i < length (trace_execution_events trace)"
  shows "state_below trace rows p = ev_registers (trace_execution_events trace ! i)"
  using assms by (cases p) simp_all

lemma shown_registers_event:
  assumes "shown_row ui = Some row" "row_event row = Some i" "i < length (trace_execution_events (ui_trace ui))"
  shows "shown_registers ui = ev_registers (trace_execution_events (ui_trace ui) ! i)"
  using assms
  by (auto simp: shown_row_def shown_registers_def history_state_at_def cursor_on_row_def Let_def min_absorb1
      intro!: state_below_event split: if_splits)

lemma tab_switch:
  assumes "ui_ok decoders ui" "plain_trace (ui_trace ui)" "tab \<le> 4"
    and "shown_row ui = Some row" "row_event row = Some i"
  shows "\<exists>row'. shown_row (history_tab_changed (ui\<lparr>ui_history_tab := tab\<rparr>)) = Some row' \<and> row_event row' = Some i
    \<and> row_rip row' = row_rip row
    \<and> shown_registers (history_tab_changed (ui\<lparr>ui_history_tab := tab\<rparr>)) = shown_registers ui"
proof -
  let ?rows = "history_rows_at ui (ui_history_tab ui)" and ?rows' = "history_rows_at ui tab"
  let ?u = "ui\<lparr>ui_history_tab := tab\<rparr>"
  have tabs: "ui_previous_history_tab ui = ui_history_tab ui" "ui_history_tab ui \<le> 4" "trace_code (ui_trace ui) \<noteq> []"
    using assms(1,2) by (simp_all add: ui_ok_def cursor_ok_def plain_trace_def)
  obtain b s b' s' where built: "build_history decoders (ui_trace ui) b s = Some ?rows"
      "build_history decoders (ui_trace ui) b' s' = Some ?rows'"
    using tab_rows[OF assms(1) tabs(3)] tabs(2) assms(3) by blast
  have row: "cursor_on_row ui ?rows" "row = ?rows ! (nat (ui_cursor ui) - 1)"
    using assms(4) by (auto simp: shown_row_def Let_def split: if_splits)
  then have "row \<in> set ?rows" by (auto simp: cursor_on_row_def intro!: nth_mem)
  note ev = event_row[OF built(1) assms(2) this assms(5)]
  have "\<exists>row'\<in>set ?rows'. row_event row' = Some i" using event_has_row[OF built(2) assms(2)] ev by blast
  define sel where "sel = \<lparr>sel_rip = row_rip row, sel_event = row_event row, sel_has_row = True\<rparr>"
  define k where "k = find_index (selection_matches sel) ?rows'"
  have "\<exists>row'\<in>set ?rows'. selection_matches sel row'"
    using \<open>\<exists>row'\<in>set ?rows'. _\<close> assms(5) by (auto simp: selection_matches_def sel_def)
  from find_index_found[OF this] have "k < length ?rows' \<and> selection_matches sel (?rows' ! k)"
    by (simp only: k_def)
  then have k: "k < length ?rows'" "row_event (?rows' ! k) = Some i"
    using assms(5) by (simp_all add: selection_matches_def sel_def)
  have same: "history_rows_at ?u t = history_rows_at ui t" for t by (simp add: history_rows_at_def)
  have "history_selection ?u (ui_previous_history_tab ?u) = sel"
    using row tabs(1) by (simp add: history_selection_def sel_def Let_def cursor_on_row_def same)
  then have eq: "history_tab_changed ?u = ui\<lparr>ui_cursor := int k + 1, ui_history_tab := tab, ui_previous_history_tab := tab\<rparr>"
    using k(1) by (simp add: history_tab_changed_def restore_history_selection_def sel_def same Let_def k_def)
  have "history_rows_at (history_tab_changed ?u) tab = ?rows'" by (simp add: eq history_rows_at_def)
  then have shown: "shown_row (history_tab_changed ?u) = Some (?rows' ! k)"
    using k(1) by (simp add: shown_row_def cursor_on_row_def eq Let_def nat_add_distrib)
  have "row_rip (?rows' ! k) = row_rip row"
    using event_row[OF built(2) assms(2) nth_mem[OF k(1)] k(2)] ev by simp
  moreover have "shown_registers (history_tab_changed ?u) = shown_registers ui"
    using shown_registers_event[OF shown k(2)] shown_registers_event[OF assms(4,5)] ev by (simp add: eq)
  ultimately show ?thesis using shown k(2) by blast
qed

text \<open>The executed rows of the visible tab, as cursor positions in order.\<close>

definition timeline :: "UI \<Rightarrow> int list" where
  "timeline ui = filter (executed_at (history_rows_at ui (ui_history_tab ui)))
     (map (\<lambda>p. int p + 1) [0..<length (history_rows_at ui (ui_history_tab ui))])"

lemma timeline_set: "set (timeline ui) = {k. executed_at (history_rows_at ui (ui_history_tab ui)) k}"
proof -
  have "k \<in> (\<lambda>p. int p + 1) ` {0..<n}" if "1 \<le> k" "k \<le> int n" for k n
    using that by (intro image_eqI[of _ _ "nat (k - 1)"]) auto
  then show ?thesis by (auto simp: timeline_def executed_at_def)
qed

lemma timeline_sorted: "sorted_wrt (<) (timeline ui)"
  unfolding timeline_def by (rule sorted_wrt_filter) (simp add: sorted_wrt_iff_nth_less)

lemma timeline_less: "i < j \<Longrightarrow> j < length (timeline ui) \<Longrightarrow> timeline ui ! i < timeline ui ! j"
  using sorted_wrt_nth_less[OF timeline_sorted] by blast

lemma timeline_pos: "i < length (timeline ui) \<Longrightarrow> 1 \<le> timeline ui ! i"
  using timeline_set[of ui] nth_mem[of i "timeline ui"] by (auto simp: executed_at_def)

text \<open>Where the cursor is after \<open>k\<close> steps from the seed.\<close>

definition position_at :: "UI \<Rightarrow> nat \<Rightarrow> int" where
  "position_at ui k = (if k = 0 then 0 else timeline ui ! (k - 1))"

lemma position_at_pos: "1 \<le> k \<Longrightarrow> k \<le> length (timeline ui) \<Longrightarrow> 1 \<le> position_at ui k"
  using timeline_pos[of "k - 1" ui] by (simp add: position_at_def)

lemma position_at_mono:
  assumes "i < j" "j \<le> length (timeline ui)"
  shows "position_at ui i < position_at ui j"
proof (cases "i = 0")
  case True
  then show ?thesis using position_at_pos[of j ui] assms by (simp add: position_at_def)
next
  case False
  then show ?thesis using timeline_less[of "i - 1" "j - 1" ui] assms by (simp add: position_at_def)
qed

lemma position_executed:
  assumes "1 \<le> k" "k \<le> length (timeline ui)"
  shows "executed_at (history_rows_at ui (ui_history_tab ui)) (position_at ui k)"
proof -
  have "position_at ui k \<in> set (timeline ui)" using assms by (simp add: position_at_def)
  then show ?thesis by (simp add: timeline_set)
qed

lemma executed_position:
  assumes "executed_at (history_rows_at ui (ui_history_tab ui)) x"
  obtains k where "1 \<le> k" "k \<le> length (timeline ui)" "x = position_at ui k"
proof -
  have "x \<in> set (timeline ui)" using assms by (simp add: timeline_set)
  then obtain m where "m < length (timeline ui)" "x = timeline ui ! m" by (auto simp: in_set_conv_nth)
  then show ?thesis using that[of "Suc m"] by (simp add: position_at_def)
qed

lemma position_at_le:
  assumes "i \<le> length (timeline ui)" "j \<le> length (timeline ui)"
  shows "position_at ui i < position_at ui j \<longleftrightarrow> i < j"
  using assms position_at_mono[of i j ui] position_at_mono[of j i ui] by (cases i j rule: linorder_cases) auto

lemma step_position:
  assumes "ui_cursor ui = position_at ui k" "k \<le> length (timeline ui)"
  shows "ui_step ui = ui\<lparr>ui_cursor := position_at ui (min (Suc k) (length (timeline ui)))\<rparr>"
proof -
  let ?rows = "history_rows_at ui (ui_history_tab ui)" and ?n = "length (timeline ui)"
  have "0 \<le> position_at ui k" using position_at_pos[of k ui] assms(2) by (cases "k = 0") (simp_all add: position_at_def)
  then have "1 \<le> position_at ui k + 1" by simp
  note nxt = step_from_next[OF this, of ?rows]
  show ?thesis
  proof (cases "step_from ?rows (position_at ui k + 1)")
    case None
    have "\<not> k < ?n"
    proof
      assume "k < ?n"
      then have "executed_at ?rows (position_at ui (Suc k))" "position_at ui k + 1 \<le> position_at ui (Suc k)"
        using position_executed[of "Suc k" ui] position_at_mono[of k "Suc k" ui] by simp_all
      then show False using nxt None by auto
    qed
    then show ?thesis using None assms by (simp add: ui_step_def)
  next
    case (Some j)
    then have j: "position_at ui k + 1 \<le> j" "executed_at ?rows j"
      "\<And>x. position_at ui k + 1 \<le> x \<Longrightarrow> x < j \<Longrightarrow> \<not> executed_at ?rows x"
      using nxt by auto
    obtain m where m: "1 \<le> m" "m \<le> ?n" "j = position_at ui m" using executed_position[OF j(2)] by blast
    have "k < m" using position_at_le[OF assms(2) m(2)] j(1) m(3) by simp
    moreover have "\<not> Suc k < m"
    proof
      assume l: "Suc k < m"
      then have "executed_at ?rows (position_at ui (Suc k))" "position_at ui (Suc k) < j" "position_at ui k + 1 \<le> position_at ui (Suc k)"
        using position_executed[of "Suc k" ui] position_at_mono[of "Suc k" m ui] position_at_mono[of k "Suc k" ui] m by simp_all
      then show False using j(3) by blast
    qed
    ultimately have "m = Suc k" by simp
    then show ?thesis using Some m assms(1) by (simp add: ui_step_def)
  qed
qed

lemma back_position:
  assumes "ui_cursor ui = position_at ui k" "k \<le> length (timeline ui)" "ui_cursor ui \<le> int (length (history_rows_at ui (ui_history_tab ui)))"
  shows "ui_back ui = ui\<lparr>ui_cursor := position_at ui (k - 1)\<rparr>"
proof -
  let ?rows = "history_rows_at ui (ui_history_tab ui)" and ?n = "length (timeline ui)"
  have "position_at ui k - 1 \<le> int (length ?rows)" using assms(1,3) by simp
  note prev = back_from_previous[OF this]
  show ?thesis
  proof (cases "back_from ?rows (position_at ui k - 1)")
    case None
    have "\<not> 1 < k"
    proof
      assume "1 < k"
      then have "executed_at ?rows (position_at ui (k - 1))" "position_at ui (k - 1) \<le> position_at ui k - 1"
        using position_executed[of "k - 1" ui] position_at_mono[of "k - 1" k ui] assms(2) by simp_all
      then show False using prev None by auto
    qed
    then show ?thesis using None assms by (simp add: ui_back_def position_at_def)
  next
    case (Some j)
    then have j: "j \<le> position_at ui k - 1" "executed_at ?rows j"
      "\<And>x. j < x \<Longrightarrow> x \<le> position_at ui k - 1 \<Longrightarrow> \<not> executed_at ?rows x"
      using prev by auto
    obtain m where m: "1 \<le> m" "m \<le> ?n" "j = position_at ui m" using executed_position[OF j(2)] by blast
    have "m < k" using position_at_le[OF m(2) assms(2)] j(1) m(3) by simp
    moreover have "\<not> Suc m < k"
    proof
      assume l: "Suc m < k"
      then have "executed_at ?rows (position_at ui (Suc m))" "j < position_at ui (Suc m)" "position_at ui (Suc m) \<le> position_at ui k - 1"
        using position_executed[of "Suc m" ui] position_at_mono[of "Suc m" k ui] position_at_mono[of m "Suc m" ui] m assms(2) by simp_all
      then show False using j(3) by blast
    qed
    ultimately have "m = k - 1" by simp
    then show ?thesis using Some m assms(1) by (simp add: ui_back_def)
  qed
qed

lemma timeline_rows:
  "map (\<lambda>x. history_rows_at ui (ui_history_tab ui) ! nat (x - 1)) (timeline ui)
    = filter executed_row (history_rows_at ui (ui_history_tab ui))"
proof -
  let ?rows = "history_rows_at ui (ui_history_tab ui)"
  have "filter (executed_at ?rows \<circ> (\<lambda>p. int p + 1)) [0..<length ?rows] = filter (\<lambda>p. executed_row (?rows ! p)) [0..<length ?rows]"
    by (rule filter_cong) (auto simp: executed_at_def)
  then show ?thesis
    unfolding timeline_def filter_map by (simp add: comp_def filter_positions[of executed_row ?rows])
qed

text \<open>The events inside the input, in execution order.\<close>

definition inside_events :: "Trace \<Rightarrow> ExecutionEvent list" where
  "inside_events trace = filter (inside_input trace) (trace_execution_events trace)"

lemma timeline_events:
  assumes "ui_ok decoders ui" "plain_trace (ui_trace ui)"
  shows "length (timeline ui) = length (inside_events (ui_trace ui))"
    and "k < length (timeline ui) \<Longrightarrow> \<exists>i. row_event (history_rows_at ui (ui_history_tab ui) ! nat (timeline ui ! k - 1)) = Some i
      \<and> i < length (trace_execution_events (ui_trace ui))
      \<and> trace_execution_events (ui_trace ui) ! i = inside_events (ui_trace ui) ! k"
proof -
  let ?rows = "history_rows_at ui (ui_history_tab ui)" and ?t = "ui_trace ui"
  let ?present = "present 0 (map (\<lambda>e. if inside_input ?t e then Some e else None) (trace_execution_events ?t))"
  have "ui_history_tab ui \<le> 4" "trace_code ?t \<noteq> []" using assms by (simp_all add: ui_ok_def cursor_ok_def plain_trace_def)
  then obtain b s where built: "build_history decoders ?t b s = Some ?rows" using tab_rows[OF assms(1)] by blast
  have rows: "filter executed_row ?rows = filter (\<lambda>row. row_event row \<noteq> None) ?rows"
    using executed_row_event[OF built assms(2)] by (auto intro: filter_cong)
  have events: "map (\<lambda>row. the (row_event row)) (filter executed_row ?rows) = map fst ?present"
  proof -
    have "map fst (map (\<lambda>row. (the (row_event row), row_rip row, row_kind row)) (filter (\<lambda>row. row_event row \<noteq> None) ?rows)) = map fst ?present"
      using assms(2) unfolding plain_trace_def
      by (subst build_history_event_rows[OF built]) (auto simp: comp_def split_beta)
    then show ?thesis by (simp add: rows comp_def)
  qed
  have inside: "inside_events ?t = map snd ?present" by (simp add: inside_events_def present_filter)
  have len: "length (timeline ui) = length (filter executed_row ?rows)" using arg_cong[OF timeline_rows, of length ui] by simp
  also have "\<dots> = length ?present" using arg_cong[OF events, of length] by simp
  finally show length: "length (timeline ui) = length (inside_events ?t)" by (simp add: inside)
  assume k: "k < length (timeline ui)"
  let ?row = "?rows ! nat (timeline ui ! k - 1)"
  have row: "?row = filter executed_row ?rows ! k" using k by (simp flip: timeline_rows)
  then have "?row \<in> set (filter executed_row ?rows)" using k len nth_mem[of k "filter executed_row ?rows"] by metis
  then obtain i where i: "row_event ?row = Some i" unfolding rows by auto
  have "i = fst (?present ! k)"
  proof -
    have "the (row_event ?row) = map (\<lambda>row. the (row_event row)) (filter executed_row ?rows) ! k" using k len row by simp
    then show ?thesis using k length by (simp add: events i inside)
  qed
  moreover have "inside_events ?t ! k = snd (?present ! k)" "k < length ?present" using k length by (simp_all add: inside)
  ultimately have "(i, inside_events ?t ! k) \<in> set ?present" by simp
  then show "\<exists>i. row_event ?row = Some i \<and> i < length (trace_execution_events ?t) \<and> trace_execution_events ?t ! i = inside_events ?t ! k"
    using i by (auto simp: present_nth)
qed

lemma history_rows_cursor [simp]: "history_rows_at (ui\<lparr>ui_cursor := c\<rparr>) tab = history_rows_at ui tab"
  by (simp add: history_rows_at_def)

lemma timeline_cursor [simp]: "timeline (ui\<lparr>ui_cursor := c\<rparr>) = timeline ui" "position_at (ui\<lparr>ui_cursor := c\<rparr>) = position_at ui"
  by (simp_all add: timeline_def position_at_def fun_eq_iff)

lemma steps_position:
  assumes "ui_cursor ui = 0"
  shows "(ui_step ^^ k) ui = ui\<lparr>ui_cursor := position_at ui (min k (length (timeline ui)))\<rparr>"
proof (induction k)
  case 0
  then show ?case using assms by (simp add: position_at_def)
next
  case (Suc k)
  then show ?case
    using step_position[of "ui\<lparr>ui_cursor := position_at ui (min k (length (timeline ui)))\<rparr>" "min k (length (timeline ui))"]
    by (simp add: min_def)
qed

lemma position_at_bound: "k \<le> length (timeline ui) \<Longrightarrow> position_at ui k \<le> int (length (history_rows_at ui (ui_history_tab ui)))"
  using position_executed[of k ui] by (cases "k = 0") (simp_all add: position_at_def executed_at_def)

lemma steps_visit:
  assumes "ui_ok decoders ui" "plain_trace (ui_trace ui)" "ui_cursor ui = 0" "k \<le> length (inside_events (ui_trace ui))"
  shows "shown_registers ((ui_step ^^ k) ui)
      = (if k = 0 then trace_seed (ui_trace ui) else ev_registers (inside_events (ui_trace ui) ! (k - 1)))"
    and "0 < k \<Longrightarrow> ui_back ((ui_step ^^ k) ui) = (ui_step ^^ (k - 1)) ui"
proof -
  let ?u = "ui\<lparr>ui_cursor := position_at ui k\<rparr>"
  have n: "k \<le> length (timeline ui)" using assms(4) timeline_events(1)[OF assms(1,2)] by simp
  have u: "(ui_step ^^ k) ui = ?u" using n by (simp add: steps_position[OF assms(3)] min_def)
  show "shown_registers ((ui_step ^^ k) ui)
      = (if k = 0 then trace_seed (ui_trace ui) else ev_registers (inside_events (ui_trace ui) ! (k - 1)))"
  proof (cases "k = 0")
    case True
    then show ?thesis using assms(3) by (simp add: shown_registers_def history_state_at_def Let_def)
  next
    case False
    obtain i where i: "row_event (history_rows_at ui (ui_history_tab ui) ! nat (timeline ui ! (k - 1) - 1)) = Some i"
        "i < length (trace_execution_events (ui_trace ui))"
        "trace_execution_events (ui_trace ui) ! i = inside_events (ui_trace ui) ! (k - 1)"
      using timeline_events(2)[OF assms(1,2), of "k - 1"] n False by (metis Suc_le_eq Suc_pred' gr0I)
    have p: "1 \<le> position_at ui k" using position_at_pos[of k ui] n False by simp
    have "shown_row ?u = Some (history_rows_at ui (ui_history_tab ui) ! nat (timeline ui ! (k - 1) - 1))"
      using p position_at_bound[OF n] False
      by (simp add: shown_row_def cursor_on_row_def position_at_def nat_diff_distrib Let_def)
    from shown_registers_event[OF this i(1)] show ?thesis using i False by (simp add: u)
  qed
  assume "0 < k"
  have "ui_back ?u = ?u\<lparr>ui_cursor := position_at ?u (k - 1)\<rparr>"
    by (rule back_position) (use n position_at_bound[OF n] in simp_all)
  then show "ui_back ((ui_step ^^ k) ui) = (ui_step ^^ (k - 1)) ui"
    using n by (simp add: u steps_position[OF assms(3)] min_def)
qed

section \<open>Properties\<close>

text \<open>
  C6: stepping follows the execution. From the seed, \<open>k\<close> presses of Step in any tab show the registers
  after the \<open>k\<close>-th event that lies inside the input, whatever the decoder made of the bytes, a press
  beyond the last event changes nothing, and Back undoes each of these presses.
\<close>

theorem tui_step_visits_events:
  assumes "ui_ok decoders ui" "plain_trace (ui_trace ui)" "ui_cursor ui = 0" "k \<le> length (inside_events (ui_trace ui))"
  shows "shown_registers ((ui_step ^^ k) ui)
      = (if k = 0 then trace_seed (ui_trace ui) else ev_registers (inside_events (ui_trace ui) ! (k - 1)))
    \<and> ui_back ((ui_step ^^ k) ui) = (ui_step ^^ (k - 1)) ui
    \<and> (ui_step ^^ (length (inside_events (ui_trace ui)) + k)) ui = (ui_step ^^ length (inside_events (ui_trace ui))) ui"
proof -
  have n: "length (timeline ui) = length (inside_events (ui_trace ui))" using timeline_events(1)[OF assms(1,2)] .
  have zero: "ui_back ui = ui"
    using back_position[of ui 0] assms(3) by (simp add: position_at_def)
  show ?thesis
    using steps_visit[OF assms] zero by (cases "k = 0") (simp_all add: steps_position[OF assms(3)] n)
qed

text \<open>
  C13: a tab switch keeps the execution state. When the cursor is on the row of an event, the tab of any
  other decoder selects its own row of the same event, at the same address, and the registers shown
  stay the same.
\<close>

theorem tui_tab_switch_keeps_state:
  assumes "ui_ok decoders ui" "plain_trace (ui_trace ui)" "tab \<le> 4"
    and "shown_row ui = Some row" "row_event row = Some i"
  shows "\<exists>row'. shown_row (history_tab_changed (ui\<lparr>ui_history_tab := tab\<rparr>)) = Some row' \<and> row_event row' = Some i
    \<and> row_rip row' = row_rip row
    \<and> shown_registers (history_tab_changed (ui\<lparr>ui_history_tab := tab\<rparr>)) = shown_registers ui"
  using assms by (rule tab_switch)

section \<open>Example\<close>

text \<open>An interface that shows the example trace of the history theory.\<close>

lemma example_session: "\<exists>ui. ui_ok example_decoders ui \<and> ui_trace ui = example_trace \<and> ui_cursor ui = 0"
proof -
  have ok: "ui_ok example_decoders (tui_state example_tui_host default_cli)" by (rule tui_state_ok[OF default_cli_ok])
  let ?u = "(tui_state example_tui_host default_cli)\<lparr>ui_trace := example_trace\<rparr>"
  have "\<exists>ui. rebuild_history example_decoders ?u = Some ui \<and> ui_ok example_decoders ui \<and> ui_trace ui = ui_trace ?u"
    by (rule ui_ok_rebuild) (use ok in \<open>simp_all add: ui_ok_def cursor_ok_def part_defs example_trace_def\<close>)
  then obtain ui where "ui_ok example_decoders ui" "ui_trace ui = example_trace" by auto
  then show ?thesis using ui_ok_cursor[of example_decoders ui 0] by (intro exI[of _ "ui\<lparr>ui_cursor := 0\<rparr>"]) simp
qed

lemma example_plain: "plain_trace example_trace"
  using example_trace_fits by (simp add: plain_trace_def)

lemma example_inside: "inside_events example_trace = trace_execution_events example_trace"
  by (simp add: inside_events_def inside_input_def example_trace_def default_trace_def)

theorem tui_step_visits_events_witness:
  "\<exists>ui. ui_ok example_decoders ui \<and> ui_trace ui = example_trace
     \<and> shown_registers ((ui_step ^^ 2) ui) = ev_registers (trace_execution_events example_trace ! 1)"
proof -
  obtain ui where ui: "ui_ok example_decoders ui" "ui_trace ui = example_trace" "ui_cursor ui = 0" using example_session by blast
  have "2 \<le> length (inside_events (ui_trace ui))" by (simp add: ui(2) example_inside) (simp add: example_trace_def)
  from tui_step_visits_events[OF ui(1) _ ui(3) this] show ?thesis
    using ui example_plain by (auto simp: example_inside)
qed

theorem tui_tab_switch_keeps_state_witness:
  "\<exists>ui row. ui_ok example_decoders ui \<and> shown_row ui = Some row \<and> row_event row = Some 1
     \<and> shown_registers (history_tab_changed (ui\<lparr>ui_history_tab := 3\<rparr>)) = shown_registers ui"
proof -
  obtain ui where ui: "ui_ok example_decoders ui" "ui_trace ui = example_trace" using example_session by blast
  let ?rows = "history_rows_at ui (ui_history_tab ui)"
  have "ui_history_tab ui \<le> 4" using ui(1) by (simp add: ui_ok_def cursor_ok_def)
  then obtain b s where "build_history example_decoders example_trace b s = Some ?rows"
    using tab_rows[OF ui(1)] ui(2) example_trace_fits(1) by metis
  moreover have "1 < length (trace_execution_events example_trace)" "inside_input example_trace (trace_execution_events example_trace ! 1)"
    by (simp_all add: inside_input_def example_trace_def default_trace_def)
  ultimately obtain row where "row \<in> set ?rows" "row_event row = Some 1"
    using event_has_row[OF _ example_plain, of example_decoders b s ?rows 1] by blast
  then obtain p where p: "p < length ?rows" "row_event (?rows ! p) = Some 1" by (auto simp: in_set_conv_nth)
  let ?u = "ui\<lparr>ui_cursor := int p + 1\<rparr>"
  have ok: "ui_ok example_decoders ?u" using p(1) by (intro ui_ok_cursor[OF ui(1)]) simp_all
  have shown: "shown_row ?u = Some (?rows ! p)"
    using p(1) by (simp add: shown_row_def cursor_on_row_def Let_def nat_add_distrib)
  from tui_tab_switch_keeps_state[OF ok _ _ shown p(2), of 3] show ?thesis
    using ok shown p(2) example_plain ui(2) by auto
qed

end
