(* ===== verification/TraceJson.thy ===== *)
theory TraceJson
  imports Report Seeding
begin

text \<open>
  The trace document of src/src/trace_json.cpp. The document structures with their glaze member lists
  become JSON values; glaze, which prints them, is a parameter of \<open>write_trace_json\<close>, and the versions of
  the generated header bme_version.hpp are the record \<open>Versions\<close>. A history row whose span is outside
  the code would be undefined behaviour of \<open>subspan\<close>; it is \<open>None\<close> here.
\<close>

section \<open>JSON values\<close>

datatype json = JNull | JBool bool | JNumber nat | JString string | JArray "json list" | JObject "(string \<times> json) list"

definition nullable :: "('a \<Rightarrow> json) \<Rightarrow> 'a option \<Rightarrow> json" where
  "nullable f v = (case v of None \<Rightarrow> JNull | Some x \<Rightarrow> f x)"

fun member :: "string \<Rightarrow> json \<Rightarrow> json option" where
  "member key (JObject members) = map_of members key"
| "member key _ = None"

section \<open>Names\<close>

definition TRACE_SCHEMA_VERSION :: nat where "TRACE_SCHEMA_VERSION = 1"

definition backend_name :: "DisasmBackend \<Rightarrow> string" where
  "backend_name backend =
     (case backend of Zydis \<Rightarrow> ''zydis'' | Bddisasm \<Rightarrow> ''bddisasm'' | Capstone \<Rightarrow> ''capstone'' | Xed \<Rightarrow> ''xed'')"

record Versions =
  BME_GIT_TAG :: string
  BME_GIT_HASH :: string
  BME_GIT_URL :: string
  BME_GLAZE_VERSION :: string
  BME_GLAZE_REVISION :: string
  BME_ZYDIS_VERSION :: string
  BME_ZYDIS_REVISION :: string
  BME_BDDISASM_VERSION :: string
  BME_BDDISASM_REVISION :: string
  BME_CAPSTONE_VERSION :: string
  BME_CAPSTONE_REVISION :: string
  BME_XED_VERSION :: string
  BME_XED_REVISION :: string

definition backend_version :: "Versions \<Rightarrow> DisasmBackend \<Rightarrow> string" where
  "backend_version v backend =
     (case backend of Zydis \<Rightarrow> BME_ZYDIS_VERSION v | Bddisasm \<Rightarrow> BME_BDDISASM_VERSION v
      | Capstone \<Rightarrow> BME_CAPSTONE_VERSION v | Xed \<Rightarrow> BME_XED_VERSION v)"

definition backend_revision :: "Versions \<Rightarrow> DisasmBackend \<Rightarrow> string" where
  "backend_revision v backend =
     (case backend of Zydis \<Rightarrow> BME_ZYDIS_REVISION v | Bddisasm \<Rightarrow> BME_BDDISASM_REVISION v
      | Capstone \<Rightarrow> BME_CAPSTONE_REVISION v | Xed \<Rightarrow> BME_XED_REVISION v)"

definition syntax_name :: "DisasmSyntax \<Rightarrow> string" where
  "syntax_name syn = (if syn = ATT then ''att'' else ''intel'')"

definition effective_syntax :: "DisasmBackend \<Rightarrow> DisasmSyntax \<Rightarrow> DisasmSyntax" where
  "effective_syntax backend requested = (if backend_supports backend requested then requested else Intel)"

definition capture_scope_name :: "CPUCaptureScope \<Rightarrow> string" where
  "capture_scope_name scope = (case scope of HostVisibleProcess \<Rightarrow> ''host_visible_process'')"

definition outcome_name :: "Outcome \<Rightarrow> string" where
  "outcome_name outcome =
     (case outcome of Idle \<Rightarrow> ''idle'' | Error \<Rightarrow> ''error'' | Finished \<Rightarrow> ''finished'' | Faulted \<Rightarrow> ''faulted''
      | AbortedCap \<Rightarrow> ''aborted_cap'' | Stopped \<Rightarrow> ''stopped'')"

definition event_kind_name :: "ExecutionEventKind \<Rightarrow> string" where
  "event_kind_name kind = (if kind = EventFaulted then ''faulted'' else ''completed'')"

definition fault_access_name :: "FaultAccess \<Rightarrow> string option" where
  "fault_access_name access =
     (case access of Read \<Rightarrow> Some ''read'' | Write \<Rightarrow> Some ''write'' | Execute \<Rightarrow> Some ''execute''
      | Unknown \<Rightarrow> Some ''unknown'' | AccessNone \<Rightarrow> None)"

definition history_kind_name :: "HistoryRowKind \<Rightarrow> string" where
  "history_kind_name kind =
     (case kind of Reached \<Rightarrow> ''reached'' | RowFaulted \<Rightarrow> ''faulted'' | NotReached \<Rightarrow> ''not_reached'' | Data \<Rightarrow> ''data'')"

definition relative_offset :: "Trace \<Rightarrow> u64 \<Rightarrow> u64 option" where
  "relative_offset trace address =
     (let base = reg_get (trace_seed trace) RIP
      in if address < base then None
         else let offset = address - base
              in if unat offset \<ge> length (trace_code trace) then None else Some offset)"

definition nullable_text :: "string \<Rightarrow> string option" where
  "nullable_text value = (if value = [] then None else Some value)"

section \<open>Documents\<close>

definition dependency_document :: "string \<Rightarrow> string \<Rightarrow> string \<Rightarrow> json" where
  "dependency_document name version revision =
     JObject [(''name'', JString name), (''version'', JString version), (''revision'', JString revision)]"

definition producer_document :: "Versions \<Rightarrow> json" where
  "producer_document v =
     JObject [(''name'', JString ''bme''), (''version'', JString (BME_GIT_TAG v)), (''git_hash'', JString (BME_GIT_HASH v)),
       (''repository'', JString (BME_GIT_URL v)),
       (''dependencies'', JArray [dependency_document ''zydis'' (BME_ZYDIS_VERSION v) (BME_ZYDIS_REVISION v),
          dependency_document ''bddisasm'' (BME_BDDISASM_VERSION v) (BME_BDDISASM_REVISION v),
          dependency_document ''capstone'' (BME_CAPSTONE_VERSION v) (BME_CAPSTONE_REVISION v),
          dependency_document ''xed'' (BME_XED_VERSION v) (BME_XED_REVISION v),
          dependency_document ''glaze'' (BME_GLAZE_VERSION v) (BME_GLAZE_REVISION v)])]"

definition GPR_MEMBERS :: "(string \<times> Reg) list" where
  "GPR_MEMBERS =
     [(''rax'', RAX), (''rbx'', RBX), (''rcx'', RCX), (''rdx'', RDX), (''rsi'', RSI), (''rdi'', RDI), (''rbp'', RBP),
      (''rsp'', RSP), (''r8'', R8), (''r9'', R9), (''r10'', R10), (''r11'', R11), (''r12'', R12), (''r13'', R13),
      (''r14'', R14), (''r15'', R15), (''rip'', RIP), (''rflags'', RFLAGS)]"

definition XMM_MEMBERS :: "string list" where
  "XMM_MEMBERS =
     [''xmm0'', ''xmm1'', ''xmm2'', ''xmm3'', ''xmm4'', ''xmm5'', ''xmm6'', ''xmm7'', ''xmm8'', ''xmm9'', ''xmm10'',
      ''xmm11'', ''xmm12'', ''xmm13'', ''xmm14'', ''xmm15'']"

definition ST_MEMBERS :: "string list" where
  "ST_MEMBERS = [''st0'', ''st1'', ''st2'', ''st3'', ''st4'', ''st5'', ''st6'', ''st7'']"

definition gpr_document :: "Registers \<Rightarrow> json" where
  "gpr_document r = JObject (map (\<lambda>(key, reg). (key, JString (format_hex 16 (reg_get r reg)))) GPR_MEMBERS)"

definition sse_document :: "Registers \<Rightarrow> json" where
  "sse_document r =
     JObject (zip XMM_MEMBERS (map (\<lambda>i. JString (format_xmm (xmm r ! i))) [0..<16])
       @ [(''mxcsr'', JString (format_hex 8 (ucast (mxcsr r))))])"

definition x87_document :: "Registers \<Rightarrow> json" where
  "x87_document r =
     JObject (zip ST_MEMBERS (map (\<lambda>i. JString (format_st (st r ! i))) [0..<8])
       @ [(''control_word'', JString (format_hex 4 (ucast (fpu_control_word r)))),
          (''status_word'', JString (format_hex 4 (ucast (fpu_status_word r)))),
          (''tag_word_abridged'', JString (format_hex 2 (ucast (fpu_tag_word_abridged r))))])"

definition make_registers_document :: "Registers \<Rightarrow> json" where
  "make_registers_document r = JObject [(''gpr'', gpr_document r), (''sse'', sse_document r), (''x87'', x87_document r)]"

definition make_cpuid_record_document :: "CPUIDRecord \<Rightarrow> json" where
  "make_cpuid_record_document r =
     (let field = (\<lambda>v :: u32. JString (format_hex 8 (ucast v))); regs = rec_registers r
      in JObject [(''leaf'', field (rec_leaf r)), (''subleaf'', field (rec_subleaf r)), (''eax'', field (eax regs)),
           (''ebx'', field (ebx regs)), (''ecx'', field (ecx regs)), (''edx'', field (edx regs))])"

definition cpu_document :: "CPUFingerprint \<Rightarrow> json" where
  "cpu_document fp =
     (let number = (\<lambda>v :: u32. JNumber (unat v)); width = (\<lambda>v :: u8. JNumber (unat v));
          hex = (\<lambda>v :: u64. JString (format_hex 16 v)); texts = (\<lambda>xs. JArray (map JString xs))
      in JObject
        [(''capture_scope'', JString (capture_scope_name (capture_scope fp))),
         (''execution_cpu_attributed'', JBool (execution_cpu_attributed fp)),
         (''vendor'', JString (vendor fp)),
         (''brand'', nullable JString (nullable_text (brand fp))),
         (''family'', nullable number (family fp)),
         (''model'', nullable number (model fp)),
         (''stepping'', nullable number (stepping fp)),
         (''maximum_basic_leaf'', JString (format_hex 8 (ucast (maximum_basic_leaf fp)))),
         (''maximum_extended_leaf'', JString (format_hex 8 (ucast (maximum_extended_leaf fp)))),
         (''physical_address_width'', nullable width (physical_address_width fp)),
         (''linear_address_width'', nullable width (linear_address_width fp)),
         (''hypervisor_present'', JBool (hypervisor_present fp)),
         (''hypervisor_vendor'', nullable JString (nullable_text (hypervisor_vendor fp))),
         (''hypervisor_interface'', nullable JString (nullable_text (hypervisor_interface fp))),
         (''cpuid_features'', texts (cpuid_features fp)),
         (''xcr0_supported'', nullable hex (xcr0_supported fp)),
         (''xss_supported'', nullable hex (xss_supported fp)),
         (''xcr0'', nullable hex (xcr0 fp)),
         (''enabled_xstate'', texts (enabled_xstate fp)),
         (''raw_cpuid'', JArray (map make_cpuid_record_document (raw_cpuid fp)))])"

text \<open>The platform is chosen when the program is compiled.\<close>

datatype platform = WindowsPlatform | LinuxPlatform

definition host_document :: "platform \<Rightarrow> CPUFingerprint \<Rightarrow> json" where
  "host_document os fp =
     JObject [(''os'', JString (case os of WindowsPlatform \<Rightarrow> ''windows'' | LinuxPlatform \<Rightarrow> ''linux'')),
       (''architecture'', JString ''x86_64''), (''cpu'', cpu_document fp)]"

definition make_request_document :: "Trace \<Rightarrow> json" where
  "make_request_document trace =
     JObject [(''input_bytes'', JString (format_bytes (trace_code trace))),
       (''backend'', JString (backend_name (trace_requested_backend trace))),
       (''syntax'', JString (syntax_name (trace_requested_syntax trace))),
       (''effective_max_steps'', JNumber (trace_effective_max_steps trace)),
       (''seed_data_pointers'', JBool (trace_seed_data_pointers trace)),
       (''seed'', make_registers_document (trace_requested_seed trace))]"

definition make_execution_event_document :: "Trace \<Rightarrow> nat \<Rightarrow> json" where
  "make_execution_event_document trace index =
     (let event = trace_execution_events trace ! index
      in JObject [(''index'', JNumber index), (''classification'', JString (event_kind_name (ev_kind event))),
           (''rip'', JString (format_hex 16 (ev_rip event))),
           (''offset'', nullable (\<lambda>v. JNumber (unat v)) (relative_offset trace (ev_rip event))),
           (''registers'', make_registers_document (ev_registers event))])"

definition execution_document :: "Trace \<Rightarrow> json" where
  "execution_document trace =
     JObject
       [(''seed'', make_registers_document (trace_seed trace)),
        (''events'', JArray (map (make_execution_event_document trace) [0..<length (trace_execution_events trace)])),
        (''outcome'', JString (outcome_name (trace_outcome trace))),
        (''message'', JString (case trace_message trace of None \<Rightarrow> [] | Some m \<Rightarrow> message_text m)),
        (''instrumentation_detected'', JBool (trace_instrumentation_detected trace)),
        (''stop_reason'', JString (case trace_stop_reason trace of None \<Rightarrow> [] | Some r \<Rightarrow> stop_reason_text r)),
        (''stop_address'', if trace_stop_address trace = 0 then JNull else JString (format_hex 16 (trace_stop_address trace))),
        (''fault_memory_address'', nullable (\<lambda>a. JString (format_hex 16 a)) (trace_fault_memory_address trace)),
        (''fault_access'', nullable JString (fault_access_name (trace_fault_access trace)))]"

definition subspan :: "'a list \<Rightarrow> nat \<Rightarrow> nat \<Rightarrow> 'a list option" where
  "subspan xs offset count = (if offset + count \<le> length xs then Some (take count (drop offset xs)) else None)"

definition make_history_row_document :: "Trace \<Rightarrow> HistoryRow \<Rightarrow> json option" where
  "make_history_row_document trace row =
     map_option (\<lambda>bytes. JObject [(''address'', JString (format_hex 16 (row_rip row))),
         (''offset'', JNumber (unat (row_offset row))), (''length'', JNumber (unat (row_length row))),
         (''bytes'', JString (format_bytes bytes)), (''text'', JString (row_text row)),
         (''classification'', JString (history_kind_name (row_kind row))),
         (''execution_event'', nullable JNumber (row_event row))])
       (subspan (trace_code trace) (unat (row_offset row)) (unat (row_length row)))"

text \<open>All elements, if every one is defined.\<close>

definition all_defined :: "'a option list \<Rightarrow> 'a list option" where
  "all_defined xs = (if None \<in> set xs then None else Some (map the xs))"

definition make_decoder_document :: "Versions \<Rightarrow> Decoders \<Rightarrow> Trace \<Rightarrow> DisasmBackend \<Rightarrow> json option" where
  "make_decoder_document versions decoders trace backend =
     (let rendered_syntax = effective_syntax backend (trace_requested_syntax trace)
      in Option.bind (build_history decoders trace backend rendered_syntax) (\<lambda>rows.
         map_option (\<lambda>docs. JObject [(''backend'', JString (backend_name backend)),
             (''version'', JString (backend_version versions backend)),
             (''revision'', JString (backend_revision versions backend)),
             (''requested_syntax'', JString (syntax_name (trace_requested_syntax trace))),
             (''effective_syntax'', JString (syntax_name rendered_syntax)), (''rows'', JArray docs)])
           (all_defined (map (make_history_row_document trace) rows))))"

definition trace_document :: "Versions \<Rightarrow> platform \<Rightarrow> Decoders \<Rightarrow> Trace \<Rightarrow> CPUFingerprint \<Rightarrow> json option" where
  "trace_document versions os decoders trace fingerprint =
     map_option (\<lambda>docs. JObject [(''schema_version'', JNumber TRACE_SCHEMA_VERSION),
         (''producer'', producer_document versions), (''host'', host_document os fingerprint),
         (''request'', make_request_document trace), (''execution'', execution_document trace), (''decoders'', JArray docs)])
       (all_defined (map (make_decoder_document versions decoders trace) ALL_BACKENDS))"

section \<open>write\_trace\_json\<close>

datatype write_status = WriteOk | WriteFailed string | WriteThrowsIos string | WriteThrows string

text \<open>What the writer and the stream do: the call into glaze, the buffer's state after it, and the flush.\<close>

record JsonSink =
  sink_write :: "bool \<Rightarrow> json \<Rightarrow> write_status"
  sink_buffer_good :: bool
  sink_flush :: write_status
  sink_good :: bool

datatype json_error =
    NoFingerprint
  | SerializationFailed string
  | StreamWriteFailed
  | StreamWriteFailedWith string

definition write_trace_json ::
  "Versions \<Rightarrow> platform \<Rightarrow> Decoders \<Rightarrow> JsonSink \<Rightarrow> Trace \<Rightarrow> bool \<Rightarrow> (json_error, json) result option" where
  "write_trace_json versions os decoders sink trace pretty =
     (case trace_cpu_fingerprint trace of
        None \<Rightarrow> Some (Inl NoFingerprint)
      | Some fingerprint \<Rightarrow>
          map_option (\<lambda>document.
            case sink_write sink pretty document of
              WriteFailed e \<Rightarrow> Inl (SerializationFailed e)
            | WriteThrowsIos e \<Rightarrow> Inl (StreamWriteFailedWith e)
            | WriteThrows e \<Rightarrow> Inl (SerializationFailed e)
            | WriteOk \<Rightarrow>
                if \<not> sink_buffer_good sink then Inl StreamWriteFailed
                else case sink_flush sink of
                       WriteThrowsIos e \<Rightarrow> Inl (StreamWriteFailedWith e)
                     | WriteThrows e \<Rightarrow> Inl (SerializationFailed e)
                     | _ \<Rightarrow> if \<not> sink_good sink then Inl StreamWriteFailed else Inr document)
          (trace_document versions os decoders trace fingerprint))"

section \<open>The document is defined\<close>

text \<open>The code does not reach the end of the address space.\<close>

definition trace_fits :: "Trace \<Rightarrow> bool" where
  "trace_fits trace \<longleftrightarrow> unat (reg_get (trace_seed trace) RIP) + length (trace_code trace) < 2 ^ 64"

lemma build_history_spans:
  assumes "trace_fits trace"
  shows "\<exists>rows. build_history decoders trace backend syn = Some rows
    \<and> (\<forall>row\<in>set rows. unat (row_offset row) + unat (row_length row) \<le> length (trace_code trace)
         \<and> row_rip row = reg_get (trace_seed trace) RIP + row_offset row)"
proof (cases "trace_code trace = [] \<or> trace_instrumentation_detected trace")
  case True
  then show ?thesis by (simp add: build_history_def)
next
  case False
  have fits: "unat (reg_get (trace_seed trace) RIP) + length (trace_code trace) < 2 ^ 64"
    using assms by (simp add: trace_fits_def)
  have "in_space (history_context decoders trace backend syn)"
    using fits by (simp add: in_space_def history_context_def)
  note tiled = layout_tiles[OF this]
  show ?thesis
    using build_history_layout[OF _ _ fits] False tiled by (auto simp: tiles_def row_span_def Let_def)
qed

lemma all_defined_map: "(\<And>x. x \<in> set xs \<Longrightarrow> \<exists>y. f x = Some y \<and> P x y) \<Longrightarrow>
  \<exists>ys. all_defined (map f xs) = Some ys \<and> list_all2 P xs ys"
proof -
  assume f: "\<And>x. x \<in> set xs \<Longrightarrow> \<exists>y. f x = Some y \<and> P x y"
  then have "None \<notin> set (map f xs)" by force
  then have "all_defined (map f xs) = Some (map (the \<circ> f) xs)" by (simp add: all_defined_def)
  moreover have "list_all2 P xs (map (the \<circ> f) xs)" using f by (auto simp: list_all2_conv_all_nth) (metis nth_mem option.sel)
  ultimately show ?thesis by blast
qed

lemma all_defined_nth:
  assumes "\<And>i. i < length keys \<Longrightarrow> f (keys ! i) = Some (g i)"
  shows "all_defined (map f keys) = Some (map g [0..<length keys])"
proof -
  have "map f keys = map (\<lambda>i. Some (g i)) [0..<length keys]" using assms by (intro nth_equalityI) simp_all
  then show ?thesis by (simp add: all_defined_def image_iff)
qed

text \<open>The document of a row: it starts where its address says and shows the bytes of the input at its offset.\<close>

definition row_shows :: "Trace \<Rightarrow> json \<Rightarrow> bool" where
  "row_shows trace doc \<longleftrightarrow>
     (\<exists>offset count address. member ''offset'' doc = Some (JNumber offset) \<and> member ''length'' doc = Some (JNumber count)
        \<and> offset + count \<le> length (trace_code trace)
        \<and> member ''bytes'' doc = Some (JString (take (2 * count) (drop (2 * offset) (format_bytes (trace_code trace)))))
        \<and> member ''address'' doc = Some (JString (format_hex 16 address))
        \<and> address = reg_get (trace_seed trace) RIP + word_of_nat offset)"

lemma format_bytes_take: "format_bytes (take n bs) = take (2 * n) (format_bytes bs)"
proof (induction bs arbitrary: n)
  case (Cons b bs)
  then show ?case by (cases n) (simp_all add: format_bytes_def)
qed (simp add: format_bytes_def)

lemma format_bytes_drop: "format_bytes (drop n bs) = drop (2 * n) (format_bytes bs)"
proof (induction bs arbitrary: n)
  case (Cons b bs)
  then show ?case by (cases n) (simp_all add: format_bytes_def)
qed (simp add: format_bytes_def)

lemma row_document_shows:
  assumes "unat (row_offset row) + unat (row_length row) \<le> length (trace_code trace)"
    and "row_rip row = reg_get (trace_seed trace) RIP + row_offset row"
  shows "\<exists>doc. make_history_row_document trace row = Some doc \<and> row_shows trace doc"
  using assms by (simp add: make_history_row_document_def subspan_def row_shows_def format_bytes_take format_bytes_drop)

definition decoder_shows :: "Trace \<Rightarrow> DisasmBackend \<Rightarrow> json \<Rightarrow> bool" where
  "decoder_shows trace backend doc \<longleftrightarrow>
     member ''backend'' doc = Some (JString (backend_name backend))
     \<and> (\<exists>rows. member ''rows'' doc = Some (JArray rows) \<and> (\<forall>row\<in>set rows. row_shows trace row))"

lemma decoder_document_shows:
  assumes "trace_fits trace"
  shows "\<exists>doc. make_decoder_document versions decoders trace backend = Some doc \<and> decoder_shows trace backend doc"
proof -
  let ?syn = "effective_syntax backend (trace_requested_syntax trace)"
  obtain rows where rows: "build_history decoders trace backend ?syn = Some rows"
    "\<forall>row\<in>set rows. unat (row_offset row) + unat (row_length row) \<le> length (trace_code trace)
       \<and> row_rip row = reg_get (trace_seed trace) RIP + row_offset row"
    using build_history_spans[OF assms] by blast
  obtain docs where docs: "all_defined (map (make_history_row_document trace) rows) = Some docs"
    "list_all2 (\<lambda>row. row_shows trace) rows docs"
    using all_defined_map[of rows "make_history_row_document trace" "\<lambda>row. row_shows trace"] rows(2) row_document_shows by blast
  have "\<forall>doc\<in>set docs. row_shows trace doc"
    using docs(2) by (metis in_set_conv_nth list_all2_conv_all_nth)
  then show ?thesis using rows(1) docs(1) by (simp add: make_decoder_document_def decoder_shows_def Let_def)
qed

lemma trace_document_shows:
  assumes "trace_fits trace"
  shows "\<exists>doc docs. trace_document versions os decoders trace fp = Some doc \<and> member ''decoders'' doc = Some (JArray docs)
    \<and> list_all2 (decoder_shows trace) ALL_BACKENDS docs
    \<and> member ''request'' doc = Some (make_request_document trace) \<and> member ''execution'' doc = Some (execution_document trace)"
proof -
  obtain docs where "all_defined (map (make_decoder_document versions decoders trace) ALL_BACKENDS) = Some docs"
    "list_all2 (decoder_shows trace) ALL_BACKENDS docs"
    using all_defined_map[of ALL_BACKENDS "make_decoder_document versions decoders trace" "decoder_shows trace"]
      decoder_document_shows[OF assms] by blast
  then show ?thesis by (simp add: trace_document_def)
qed

section \<open>Reading registers back\<close>

definition text_member :: "(string \<Rightarrow> ('e, 'a) result) \<Rightarrow> json \<Rightarrow> string \<Rightarrow> 'a option" where
  "text_member parse doc key =
     (case member key doc of
        Some (JString s) \<Rightarrow> (case parse s of Inl _ \<Rightarrow> None | Inr v \<Rightarrow> Some v)
      | _ \<Rightarrow> None)"

text \<open>The registers that a document shows, read with the seed parsers.\<close>

definition registers_of_document :: "json \<Rightarrow> Registers option" where
  "registers_of_document doc =
     (case (member ''gpr'' doc, member ''sse'' doc, member ''x87'' doc) of
        (Some g, Some s, Some x) \<Rightarrow>
          (case (all_defined (map (text_member parse_seed g \<circ> fst) GPR_MEMBERS),
                 all_defined (map (text_member compose_xmm_seed s) XMM_MEMBERS), text_member parse_seed s ''mxcsr'',
                 all_defined (map (text_member compose_st_seed x) ST_MEMBERS), text_member parse_seed x ''control_word'',
                 text_member parse_seed x ''status_word'', text_member parse_seed x ''tag_word_abridged'') of
             (Some gs, Some xs, Some m, Some ss, Some cw, Some sw, Some tag) \<Rightarrow>
               Some \<lparr>gpr = take 16 gs, rip = gs ! 16, rflags = gs ! 17, xmm = xs, mxcsr = ucast m, st = ss,
                 fpu_control_word = ucast cw, fpu_status_word = ucast sw, fpu_tag_word_abridged = ucast tag\<rparr>
           | _ \<Rightarrow> None)
      | _ \<Rightarrow> None)"

lemma parse_seed_hex_digits:
  assumes "0 < k" "unat v < 16 ^ k"
  shows "parse_seed (format_hex k v) = Inr v"
  using from_chars_all_hex_nat[OF assms, of 64] unat_lt_2p[of v] assms(1)
  by (simp add: parse_seed_def format_hex_nat Let_def)

lemma keys_ok: "distinct (map fst GPR_MEMBERS)" "distinct XMM_MEMBERS" "length XMM_MEMBERS = 16" "distinct ST_MEMBERS" "length ST_MEMBERS = 8"
  "length GPR_MEMBERS = 18"
  by (simp_all add: GPR_MEMBERS_def XMM_MEMBERS_def ST_MEMBERS_def)

lemma text_member_zip:
  assumes "distinct keys" "length keys = length vs" "i < length keys" "keys ! i \<notin> fst ` set rest"
  shows "text_member parse (JObject (zip keys (map JString vs) @ rest)) (keys ! i)
    = (case parse (vs ! i) of Inl _ \<Rightarrow> None | Inr v \<Rightarrow> Some v)"
proof -
  have "map_of (zip keys (map JString vs)) (keys ! i) = Some (JString (vs ! i))"
    using map_of_zip_nth[of keys "map JString vs" i] assms by simp
  moreover have "map_of rest (keys ! i) = None" using assms(4) by (simp add: map_of_eq_None_iff)
  ultimately show ?thesis by (simp add: text_member_def map_add_def)
qed

lemma text_member_rest:
  assumes "key \<notin> set keys"
  shows "text_member parse (JObject (zip keys vs @ rest)) key = text_member parse (JObject rest) key"
proof -
  have "map_of (zip keys vs) key = None" using assms by (auto simp: map_of_eq_None_iff dest: set_zip_leftD)
  then show ?thesis by (simp add: text_member_def map_add_def split: option.splits)
qed

lemma all_defined_members:
  assumes "distinct keys" "length keys = length vs" "set keys \<inter> fst ` set rest = {}"
    and "\<And>i. i < length keys \<Longrightarrow> parse (vs ! i) = Inr (g i)"
  shows "all_defined (map (text_member parse (JObject (zip keys (map JString vs) @ rest))) keys) = Some (map g [0..<length keys])"
proof (rule all_defined_nth)
  fix i assume "i < length keys"
  moreover from this have "keys ! i \<notin> fst ` set rest" using assms(3) nth_mem[of i keys] by blast
  ultimately show "text_member parse (JObject (zip keys (map JString vs) @ rest)) (keys ! i) = Some (g i)"
    using text_member_zip[of keys vs i rest parse] assms by simp
qed

lemma gpr_members_back:
  "all_defined (map (text_member parse_seed (gpr_document r) \<circ> fst) GPR_MEMBERS)
     = Some (map (\<lambda>i. reg_get r (snd (GPR_MEMBERS ! i))) [0..<18])"
proof -
  have doc: "gpr_document r = JObject (zip (map fst GPR_MEMBERS) (map JString (map (\<lambda>m. format_hex 16 (reg_get r (snd m))) GPR_MEMBERS)) @ [])"
    by (simp add: gpr_document_def zip_map_map case_prod_beta zip_same_conv_map)
  have "all_defined (map (text_member parse_seed (gpr_document r)) (map fst GPR_MEMBERS))
      = Some (map (\<lambda>i. reg_get r (snd (GPR_MEMBERS ! i))) [0..<length (map fst GPR_MEMBERS)])"
    unfolding doc using keys_ok by (intro all_defined_members) (simp_all add: parse_seed_format_hex)
  then show ?thesis using keys_ok by (simp add: comp_def del: upt_rec_numeral)
qed

lemma gpr_members_value:
  assumes "length (gpr r) = 16"
  shows "take 16 (map (\<lambda>i. reg_get r (snd (GPR_MEMBERS ! i))) [0..<18]) = gpr r"
    "map (\<lambda>i. reg_get r (snd (GPR_MEMBERS ! i))) [0..<18] ! 16 = rip r"
    "map (\<lambda>i. reg_get r (snd (GPR_MEMBERS ! i))) [0..<18] ! 17 = rflags r"
proof -
  have "[0..<18] = [0, 1, 2, 3, 4, 5, 6, 7, 8, 9, 10, 11, 12, 13, 14, 15, 16, 17 :: nat]" by (simp add: upt_rec)
  then have all: "map (\<lambda>i. reg_get r (snd (GPR_MEMBERS ! i))) [0..<18]
      = map (\<lambda>i. gpr r ! i) [0, 1, 2, 3, 4, 5, 6, 7, 8, 9, 10, 11, 12, 13, 14, 15] @ [rip r, rflags r]"
    by (simp add: GPR_MEMBERS_def reg_get_def del: upt_rec_numeral)
  show "take 16 (map (\<lambda>i. reg_get r (snd (GPR_MEMBERS ! i))) [0..<18]) = gpr r"
    unfolding all using list_16[OF assms] assms by simp
  show "map (\<lambda>i. reg_get r (snd (GPR_MEMBERS ! i))) [0..<18] ! 16 = rip r"
    "map (\<lambda>i. reg_get r (snd (GPR_MEMBERS ! i))) [0..<18] ! 17 = rflags r"
    unfolding all by simp_all
qed

lemma ucast_widen: "LENGTH('a) \<le> LENGTH('b) \<Longrightarrow> ucast (ucast w :: 'b::len word) = w" for w :: "'a::len word"
  by (rule bit_word_eqI) (simp add: bit_unsigned_iff)

lemma unat_widen: "LENGTH('a) \<le> LENGTH('b) \<Longrightarrow> unat (ucast w :: 'b::len word) = unat w" for w :: "'a::len word"
proof -
  assume "LENGTH('a) \<le> LENGTH('b)"
  then have "unat w < 2 ^ LENGTH('b)"
    using unat_lt_2p[of w] power_increasing[of "LENGTH('a)" "LENGTH('b)" "2 :: nat"] by linarith
  then show ?thesis by (simp add: unsigned_ucast_eq unsigned_take_bit_eq take_bit_nat_eq_self)
qed

lemma narrow_hex:
  "parse_seed (format_hex 8 (ucast (m :: u32))) = Inr (ucast m)" "parse_seed (format_hex 4 (ucast (c :: u16))) = Inr (ucast c)"
  "parse_seed (format_hex 2 (ucast (t :: u8))) = Inr (ucast t)"
  using unat_lt_2p[of m] unat_lt_2p[of c] unat_lt_2p[of t]
  by (auto intro!: parse_seed_hex_digits simp: unat_widen)

lemma sse_members_back:
  "all_defined (map (text_member compose_xmm_seed (sse_document r)) XMM_MEMBERS) = Some (map (\<lambda>i. xmm r ! i) [0..<16])"
  "text_member parse_seed (sse_document r) ''mxcsr'' = Some (ucast (mxcsr r))"
proof -
  let ?rest = "[(''mxcsr'', JString (format_hex 8 (ucast (mxcsr r))))]"
  have doc: "sse_document r = JObject (zip XMM_MEMBERS (map JString (map (\<lambda>i. format_xmm (xmm r ! i)) [0..<16])) @ ?rest)"
    by (simp add: sse_document_def comp_def del: upt_rec_numeral)
  have no: "''mxcsr'' \<notin> set XMM_MEMBERS" by (simp add: XMM_MEMBERS_def)
  have "all_defined (map (text_member compose_xmm_seed (sse_document r)) XMM_MEMBERS)
      = Some (map (\<lambda>i. xmm r ! i) [0..<length XMM_MEMBERS])"
    unfolding doc using keys_ok no
    by (intro all_defined_members) (simp_all add: compose_xmm_seed_format_xmm del: upt_rec_numeral)
  then show "all_defined (map (text_member compose_xmm_seed (sse_document r)) XMM_MEMBERS) = Some (map (\<lambda>i. xmm r ! i) [0..<16])"
    using keys_ok by (simp del: upt_rec_numeral)
  show "text_member parse_seed (sse_document r) ''mxcsr'' = Some (ucast (mxcsr r))"
    unfolding doc text_member_rest[OF no] by (simp add: text_member_def narrow_hex)
qed

lemma x87_members_back:
  assumes "wf_registers r"
  shows "all_defined (map (text_member compose_st_seed (x87_document r)) ST_MEMBERS) = Some (map (\<lambda>i. st r ! i) [0..<8])"
    "text_member parse_seed (x87_document r) ''control_word'' = Some (ucast (fpu_control_word r))"
    "text_member parse_seed (x87_document r) ''status_word'' = Some (ucast (fpu_status_word r))"
    "text_member parse_seed (x87_document r) ''tag_word_abridged'' = Some (ucast (fpu_tag_word_abridged r))"
proof -
  let ?rest = "[(''control_word'', JString (format_hex 4 (ucast (fpu_control_word r)))),
    (''status_word'', JString (format_hex 4 (ucast (fpu_status_word r)))),
    (''tag_word_abridged'', JString (format_hex 2 (ucast (fpu_tag_word_abridged r))))]"
  have doc: "x87_document r = JObject (zip ST_MEMBERS (map JString (map (\<lambda>i. format_st (st r ! i)) [0..<8])) @ ?rest)"
    by (simp add: x87_document_def comp_def del: upt_rec_numeral)
  have no: "''control_word'' \<notin> set ST_MEMBERS" "''status_word'' \<notin> set ST_MEMBERS" "''tag_word_abridged'' \<notin> set ST_MEMBERS"
    by (simp_all add: ST_MEMBERS_def)
  have len: "length (st r ! i) = 10" if "i < 8" for i using assms that by (auto simp: wf_registers_def)
  have "all_defined (map (text_member compose_st_seed (x87_document r)) ST_MEMBERS)
      = Some (map (\<lambda>i. st r ! i) [0..<length ST_MEMBERS])"
    unfolding doc using keys_ok no len
    by (intro all_defined_members) (simp_all add: compose_st_seed_format_st del: upt_rec_numeral)
  then show "all_defined (map (text_member compose_st_seed (x87_document r)) ST_MEMBERS) = Some (map (\<lambda>i. st r ! i) [0..<8])"
    using keys_ok by (simp del: upt_rec_numeral)
  show "text_member parse_seed (x87_document r) ''control_word'' = Some (ucast (fpu_control_word r))"
    "text_member parse_seed (x87_document r) ''status_word'' = Some (ucast (fpu_status_word r))"
    "text_member parse_seed (x87_document r) ''tag_word_abridged'' = Some (ucast (fpu_tag_word_abridged r))"
    unfolding doc text_member_rest[OF no(1)] text_member_rest[OF no(2)] text_member_rest[OF no(3)]
    by (simp_all add: text_member_def narrow_hex)
qed

lemma registers_document_back:
  assumes "wf_registers r"
  shows "registers_of_document (make_registers_document r) = Some r"
proof -
  have len: "length (gpr r) = 16" "length (xmm r) = 16" "length (st r) = 8" using assms by (simp_all add: wf_registers_def)
  have "map (\<lambda>i. xmm r ! i) [0..<16] = xmm r" "map (\<lambda>i. st r ! i) [0..<8] = st r"
    using map_nth[of "xmm r"] map_nth[of "st r"] len by simp_all
  moreover have "ucast (ucast (mxcsr r) :: u64) = mxcsr r" "ucast (ucast (fpu_control_word r) :: u64) = fpu_control_word r"
    "ucast (ucast (fpu_status_word r) :: u64) = fpu_status_word r"
    "ucast (ucast (fpu_tag_word_abridged r) :: u64) = fpu_tag_word_abridged r" by (simp_all add: ucast_widen)
  ultimately show ?thesis
    by (simp add: registers_of_document_def make_registers_document_def gpr_members_back sse_members_back
        x87_members_back[OF assms] gpr_members_value[OF len(1)] del: upt_rec_numeral)
qed

interpretation registers_codec: text_codec wf_registers make_registers_document
  "\<lambda>doc. case registers_of_document doc of None \<Rightarrow> Inl () | Some r \<Rightarrow> Inr r"
  by unfold_locales (simp add: registers_document_back)

section \<open>Member names\<close>

fun keys_distinct :: "json \<Rightarrow> bool" where
  "keys_distinct (JObject members) \<longleftrightarrow> distinct (map fst members) \<and> (\<forall>m\<in>set members. keys_distinct (snd m))"
| "keys_distinct (JArray elements) \<longleftrightarrow> (\<forall>e\<in>set elements. keys_distinct e)"
| "keys_distinct _ = True"

lemma keys_distinct_nullable: "(\<And>x. keys_distinct (f x)) \<Longrightarrow> keys_distinct (nullable f v)"
  by (simp add: nullable_def split: option.split)

lemma keys_distinct_zip: "(a, b) \<in> set (zip keys (map (\<lambda>i. JString (g i)) is)) \<Longrightarrow> keys_distinct b"
  by (drule set_zip_rightD) auto

lemma keys_distinct_registers: "keys_distinct (make_registers_document r)"
proof -
  have "keys_distinct (gpr_document r)"
    using keys_ok(1) by (auto simp: gpr_document_def comp_def case_prod_beta)
  moreover have "keys_distinct (sse_document r)"
    using keys_ok(2,3) by (auto simp: sse_document_def XMM_MEMBERS_def dest: keys_distinct_zip simp del: upt_rec_numeral)
  moreover have "keys_distinct (x87_document r)"
    using keys_ok(4,5) by (auto simp: x87_document_def ST_MEMBERS_def dest: keys_distinct_zip simp del: upt_rec_numeral)
  ultimately show ?thesis by (simp add: make_registers_document_def)
qed

lemma keys_distinct_producer: "keys_distinct (producer_document v)"
  by (simp add: producer_document_def dependency_document_def)

lemma keys_distinct_host: "keys_distinct (host_document os fp)"
  by (simp add: host_document_def cpu_document_def Let_def make_cpuid_record_document_def keys_distinct_nullable)

lemma keys_distinct_request: "keys_distinct (make_request_document trace)"
  by (simp add: make_request_document_def keys_distinct_registers)

lemma keys_distinct_execution: "keys_distinct (execution_document trace)"
  by (simp add: execution_document_def make_execution_event_document_def Let_def keys_distinct_registers keys_distinct_nullable)

lemma keys_distinct_row: "make_history_row_document trace row = Some doc \<Longrightarrow> keys_distinct doc"
  by (auto simp: make_history_row_document_def keys_distinct_nullable)

lemma all_defined_all: "all_defined (map f xs) = Some ys \<Longrightarrow> (\<And>x y. f x = Some y \<Longrightarrow> P y) \<Longrightarrow> \<forall>y\<in>set ys. P y"
  by (auto simp: all_defined_def split: if_splits) (metis option.collapse rev_image_eqI)

lemma keys_distinct_decoder: "make_decoder_document versions decoders trace backend = Some doc \<Longrightarrow> keys_distinct doc"
  by (auto simp: make_decoder_document_def Let_def bind_eq_Some_conv
      dest!: all_defined_all[where P = keys_distinct, OF _ keys_distinct_row])

lemma keys_distinct_trace_document: "trace_document versions os decoders trace fp = Some doc \<Longrightarrow> keys_distinct doc"
  by (auto simp: trace_document_def keys_distinct_producer keys_distinct_host keys_distinct_request keys_distinct_execution
      dest!: all_defined_all[where P = keys_distinct, OF _ keys_distinct_decoder])

section \<open>Properties\<close>

text \<open>
  C14: the trace document. For every trace whose code fits in memory the document exists (no row reads
  outside the input), every object in it has distinct member names, the decoders appear in the order of
  the backends, and every history row of every decoder states its offset, an address that is that
  offset above the code base, and as its bytes the digits of the request's input bytes at that offset.
\<close>

theorem trace_document_correct:
  assumes "trace_fits trace"
  shows "\<exists>doc docs. trace_document versions os decoders trace fp = Some doc \<and> keys_distinct doc
    \<and> member ''decoders'' doc = Some (JArray docs) \<and> list_all2 (decoder_shows trace) ALL_BACKENDS docs"
  using trace_document_shows[OF assms, of versions os decoders fp] keys_distinct_trace_document by metis

text \<open>
  C31: registers survive the document. The registers of the seed and of every event, read back from the
  execution part with the parsers of the seed fields, are the ones the trace holds.
\<close>

theorem execution_document_registers:
  assumes "wf_registers (trace_seed trace)" "\<forall>e\<in>set (trace_execution_events trace). wf_registers (ev_registers e)"
  shows "Option.bind (member ''seed'' (execution_document trace)) registers_of_document = Some (trace_seed trace)
    \<and> (\<exists>docs. member ''events'' (execution_document trace) = Some (JArray docs)
         \<and> map (\<lambda>doc. Option.bind (member ''registers'' doc) registers_of_document) docs
             = map (Some \<circ> ev_registers) (trace_execution_events trace))"
proof -
  let ?events = "trace_execution_events trace"
  have "member ''seed'' (execution_document trace) = Some (make_registers_document (trace_seed trace))"
    "member ''events'' (execution_document trace) = Some (JArray (map (make_execution_event_document trace) [0..<length ?events]))"
    by (simp_all add: execution_document_def)
  moreover have "map (\<lambda>doc. Option.bind (member ''registers'' doc) registers_of_document)
      (map (make_execution_event_document trace) [0..<length ?events]) = map (Some \<circ> ev_registers) ?events"
    using assms(2) by (intro nth_equalityI)
      (simp_all add: make_execution_event_document_def Let_def registers_document_back)
  ultimately show ?thesis using registers_document_back[OF assms(1)] by (simp del: map_map)
qed

text \<open>
  When \<open>write_trace_json\<close> succeeds. For a trace whose code fits in memory it returns; it succeeds
  exactly if the trace has a CPU fingerprint, the writer accepts the document, and the stream is good
  after the write and after the flush, and then what was written is the trace document.
\<close>

lemma write_trace_json_succeeds:
  assumes "trace_fits trace"
  shows "\<exists>r. write_trace_json versions os decoders sink trace pretty = Some r
    \<and> (\<forall>doc. r = Inr doc \<longleftrightarrow>
        (\<exists>fp. trace_cpu_fingerprint trace = Some fp \<and> trace_document versions os decoders trace fp = Some doc)
        \<and> sink_write sink pretty doc = WriteOk \<and> sink_buffer_good sink
        \<and> (\<forall>e. sink_flush sink \<noteq> WriteThrowsIos e \<and> sink_flush sink \<noteq> WriteThrows e) \<and> sink_good sink)"
proof (cases "trace_cpu_fingerprint trace")
  case None
  then show ?thesis by (simp add: write_trace_json_def)
next
  case (Some fp)
  obtain doc where "trace_document versions os decoders trace fp = Some doc"
    using trace_document_shows[OF assms] by metis
  then show ?thesis
    using Some by (auto simp: write_trace_json_def split: write_status.splits)
qed

lemma example_trace_json: "trace_fits example_trace" "wf_registers (trace_seed example_trace)"
  "\<forall>e\<in>set (trace_execution_events example_trace). wf_registers (ev_registers e)"
  by (simp_all add: trace_fits_def example_trace_def default_trace_def reg_get_def wf_registers_def default_registers_def)

theorem trace_document_correct_witness:
  "\<exists>doc docs. trace_document \<lparr>BME_GIT_TAG = ''v1'', BME_GIT_HASH = ''0'', BME_GIT_URL = ''u'', BME_GLAZE_VERSION = ''1'',
      BME_GLAZE_REVISION = ''1'', BME_ZYDIS_VERSION = ''1'', BME_ZYDIS_REVISION = ''1'', BME_BDDISASM_VERSION = ''1'',
      BME_BDDISASM_REVISION = ''1'', BME_CAPSTONE_VERSION = ''1'', BME_CAPSTONE_REVISION = ''1'', BME_XED_VERSION = ''1'',
      BME_XED_REVISION = ''1''\<rparr> LinuxPlatform example_decoders example_trace default_fingerprint = Some doc
    \<and> keys_distinct doc \<and> member ''decoders'' doc = Some (JArray docs) \<and> list_all2 (decoder_shows example_trace) ALL_BACKENDS docs"
  by (rule trace_document_correct[OF example_trace_json(1)])

theorem execution_document_registers_witness:
  "Option.bind (member ''seed'' (execution_document example_trace)) registers_of_document = Some (trace_seed example_trace)"
  using execution_document_registers[OF example_trace_json(2,3)] by simp

end
