(* ===== verification/St80.thy ===== *)
theory St80
  imports Report Complex_Main
begin

text \<open>
  The conversions of src/src/st80.S (and st80.asm, the same instructions for the other assembler) from an
  80-bit x87 register to a double or a float, rounded in the mode of the traced control word, and the
  round trips between the seed fields, the registers and the decimal texts of the register panes.
  A routine is the sequence of its x87 instructions on the state of the host's x87 unit: control word,
  exception flags, the condition code C1 and the stack of at most eight registers. A waiting instruction traps
  (\<open>None\<close>, the process gets SIGFPE) when an exception is pending, so that the exception masks matter.
\<close>

section \<open>Rounding\<close>

datatype rounding = RoundNearest | RoundDown | RoundUp | RoundTruncate

text \<open>The rounding-control field, bits 10 and 11 of a control word.\<close>

definition rounding_control :: "u16 \<Rightarrow> rounding" where
  "rounding_control control_word =
     [RoundNearest, RoundDown, RoundUp, RoundTruncate] ! unat (drop_bit 10 control_word AND 3)"

text \<open>The exponent of the last place of \<open>n / d\<close> in a format, as in \<open>round_binary\<close>.\<close>

definition last_place :: "nat \<Rightarrow> int \<Rightarrow> nat \<Rightarrow> nat \<Rightarrow> int" where
  "last_place p emin n d =
     (let b = int (bitlen n) - int (bitlen d);
          k = (if d * 2 ^ nat b \<le> n * 2 ^ nat (- b) then b else b - 1)
      in max (k - int p + 1) emin)"

definition away_from_zero :: "rounding \<Rightarrow> bool \<Rightarrow> bool" where
  "away_from_zero mode negative \<longleftrightarrow> (if negative then mode = RoundDown else mode = RoundUp)"

text \<open>The magnitude bits of \<open>n / d\<close> rounded in a mode, before a result that is too large is replaced.\<close>

definition round_magnitude :: "nat \<Rightarrow> int \<Rightarrow> rounding \<Rightarrow> bool \<Rightarrow> nat \<Rightarrow> nat \<Rightarrow> nat" where
  "round_magnitude p emin mode negative n d =
     (let e = last_place p emin n d;
          num = n * 2 ^ nat (- e);
          den = d * 2 ^ nat e;
          q = num div den;
          r = num mod den;
          up = (if mode = RoundNearest then den < 2 * r \<or> (2 * r = den \<and> odd q)
                else away_from_zero mode negative \<and> 0 < r)
      in nat (e - emin) * 2 ^ (p - 1) + (if up then q + 1 else q))"

definition round_result :: "nat \<Rightarrow> int \<Rightarrow> nat \<Rightarrow> rounding \<Rightarrow> bool \<Rightarrow> nat \<Rightarrow> nat \<Rightarrow> nat" where
  "round_result p emin infinity mode negative n d =
     (let bits = round_magnitude p emin mode negative n d
      in if bits < infinity then bits
         else if mode = RoundNearest \<or> away_from_zero mode negative then infinity else infinity - 1)"

section \<open>Instructions\<close>

text \<open>
  The exception flags are bits 0 to 6 of the status word: invalid operation (0), overflow (3), underflow (4), inexact
  result (5) and stack fault (6) occur here; they are sticky. The low six bits of the control word mask exceptions.
  The top of the stack is given by the number of registers in use. C0, C2 and C3 are undefined after these
  instructions and left out.
\<close>

record X87 =
  x87_control :: u16
  x87_flags :: u16
  x87_c1 :: bool
  x87_stack :: "u8 list list"

definition x87_pending :: "X87 \<Rightarrow> bool" where
  "x87_pending s \<longleftrightarrow> x87_flags s AND NOT (x87_control s) AND 0x3F \<noteq> 0"

definition fldcw :: "u16 \<Rightarrow> X87 \<Rightarrow> X87 option" where
  "fldcw control_word s = (if x87_pending s then None else Some (s\<lparr>x87_control := control_word\<rparr>))"

definition INDEFINITE :: "u8 list" where
  "INDEFINITE = [0, 0, 0, 0, 0, 0, 0, 0xC0, 0xFF, 0xFF]"

text \<open>
  \<open>fldt\<close> copies the ten bytes into a new top of stack, whatever they encode. On a full stack it is an invalid
  operation, which masked replaces the last register by the indefinite NaN.
\<close>

definition fldt :: "u8 list \<Rightarrow> X87 \<Rightarrow> X87 option" where
  "fldt bytes s =
     (if x87_pending s then None
      else if length (x87_stack s) < 8 then Some (s\<lparr>x87_c1 := False, x87_stack := bytes # x87_stack s\<rparr>)
      else let faulted = s\<lparr>x87_flags := x87_flags s OR 0x41, x87_c1 := True\<rparr>
           in Some (if bit (x87_control s) 0 then faulted\<lparr>x87_stack := take 8 (INDEFINITE # x87_stack s)\<rparr> else faulted))"

text \<open>
  What a store of the 80-bit value into a narrower format writes. A value whose integer bit does not
  fit its exponent is not a supported encoding and gives the indefinite NaN; a NaN is made quiet and
  keeps the leading bits of its fraction; a zero exponent counts as one.
\<close>

definition store_bits :: "nat \<Rightarrow> int \<Rightarrow> nat \<Rightarrow> nat \<Rightarrow> rounding \<Rightarrow> u8 list \<Rightarrow> nat" where
  "store_bits p emin infinity sign mode bytes =
     (let m = unat (st_mantissa bytes);
          exponent = unat (st_exponent bytes);
          negative = (128 \<le> unat (bytes ! 9));
          signed = (\<lambda>bits. if negative then sign + bits else bits)
      in if exponent \<noteq> 0 \<and> m < 2 ^ 63 then sign + infinity + 2 ^ (p - 2)
         else if exponent = 32767
         then signed (if m = 2 ^ 63 then infinity
                      else infinity + 2 ^ (p - 2) + (m - 2 ^ 63) div 2 ^ (64 - p) mod 2 ^ (p - 2))
         else if m = 0 then signed 0
         else let e = int (max exponent 1) - 16446
              in signed (round_result p emin infinity mode negative (m * 2 ^ nat e) (2 ^ nat (- e))))"

text \<open>
  The exceptions of such a store: an unsupported encoding or a signalling NaN is invalid, a finite value may
  overflow, underflow (masked: when it is tiny after rounding and inexact; unmasked: when it is tiny) and be
  inexact. C1 tells that the magnitude was rounded up.
\<close>

definition rounding_inexact :: "nat \<Rightarrow> int \<Rightarrow> nat \<Rightarrow> nat \<Rightarrow> bool" where
  "rounding_inexact p emin n d = (let e = last_place p emin n d in (n * 2 ^ nat (- e)) mod (d * 2 ^ nat e) \<noteq> 0)"

definition rounding_tiny :: "nat \<Rightarrow> int \<Rightarrow> rounding \<Rightarrow> bool \<Rightarrow> nat \<Rightarrow> nat \<Rightarrow> bool" where
  "rounding_tiny p emin mode negative n d =
     (let unbounded = min emin (last_place p (- 20000) n d)
      in round_magnitude p unbounded mode negative n d < (nat (emin - unbounded) + 1) * 2 ^ (p - 1))"

definition store_flags :: "nat \<Rightarrow> int \<Rightarrow> nat \<Rightarrow> u16 \<Rightarrow> u8 list \<Rightarrow> u16" where
  "store_flags p emin infinity control_word bytes =
     (let m = unat (st_mantissa bytes);
          exponent = unat (st_exponent bytes);
          negative = (128 \<le> unat (bytes ! 9));
          mode = rounding_control control_word
      in if exponent \<noteq> 0 \<and> m < 2 ^ 63 then 0x01
         else if exponent = 32767 then (if m \<noteq> 2 ^ 63 \<and> m < 2 ^ 63 + 2 ^ 62 then 0x01 else 0)
         else if m = 0 then 0
         else let e = int (max exponent 1) - 16446; n = m * 2 ^ nat e; d = 2 ^ nat (- e)
              in if infinity \<le> round_magnitude p emin mode negative n d then 0x28
                 else (if rounding_inexact p emin n d then 0x20 else 0)
                   OR (if rounding_tiny p emin mode negative n d \<and> (rounding_inexact p emin n d \<or> \<not> bit control_word 4) then 0x10 else 0))"

definition store_up :: "nat \<Rightarrow> int \<Rightarrow> nat \<Rightarrow> nat \<Rightarrow> rounding \<Rightarrow> u8 list \<Rightarrow> bool" where
  "store_up p emin infinity sign mode bytes \<longleftrightarrow>
     store_bits p emin infinity sign mode bytes \<noteq> store_bits p emin infinity sign RoundTruncate bytes"

text \<open>
  A store with pop: the bits that are written, if any. An unmasked invalid operation, overflow or underflow leaves
  memory and stack as they are; an empty stack is an invalid operation.
\<close>

definition fstp :: "nat \<Rightarrow> int \<Rightarrow> nat \<Rightarrow> nat \<Rightarrow> X87 \<Rightarrow> (nat option \<times> X87) option" where
  "fstp p emin infinity sign s =
     (if x87_pending s then None
      else let mode = rounding_control (x87_control s)
           in case x87_stack s of
                [] \<Rightarrow> Some (if bit (x87_control s) 0 then Some (store_bits p emin infinity sign mode INDEFINITE) else None,
                  s\<lparr>x87_flags := x87_flags s OR 0x41, x87_c1 := False\<rparr>)
              | bytes # rest \<Rightarrow>
                  let raised = store_flags p emin infinity (x87_control s) bytes;
                      stored = s\<lparr>x87_flags := x87_flags s OR raised, x87_c1 := store_up p emin infinity sign mode bytes\<rparr>
                  in Some (if raised AND NOT (x87_control s) AND 0x19 \<noteq> 0 then (None, stored)
                       else (Some (store_bits p emin infinity sign mode bytes), stored\<lparr>x87_stack := rest\<rparr>)))"

definition fstpl :: "X87 \<Rightarrow> (u64 option \<times> X87) option" where
  "fstpl s = map_option (map_prod (map_option word_of_nat) id) (fstp 53 (- 1074) DOUBLE_INF (2 ^ 63) s)"

definition fstps :: "X87 \<Rightarrow> (u32 option \<times> X87) option" where
  "fstps s = map_option (map_prod (map_option word_of_nat) id) (fstp 24 (- 149) FLOAT_INF (2 ^ 31) s)"

section \<open>Routines\<close>

text \<open>\<open>fnstcw\<close> reads the control word without waiting; \<open>None\<close> is a trap.\<close>

definition conversion_control_word :: "u16 \<Rightarrow> u16 \<Rightarrow> u16" where
  "conversion_control_word host_control_word control =
     (host_control_word AND 0xF3FF) OR (control AND 0x0C00)"

definition st80_to_double :: "u8 list \<Rightarrow> u16 \<Rightarrow> X87 \<Rightarrow> (u64 \<times> X87) option" where
  "st80_to_double bytes control s =
     (let saved = x87_control s
      in Option.bind (fldcw (conversion_control_word saved control) s) (\<lambda>s.
         Option.bind (fldt bytes s) (\<lambda>s.
         Option.bind (fstpl s) (\<lambda>(stored, s).
         Option.bind (fldcw saved s) (\<lambda>s.
         map_option (\<lambda>value. (value, s)) stored)))))"

definition st80_to_float :: "u8 list \<Rightarrow> u16 \<Rightarrow> X87 \<Rightarrow> (u32 \<times> X87) option" where
  "st80_to_float bytes control s =
     (let saved = x87_control s
      in Option.bind (fldcw (conversion_control_word saved control) s) (\<lambda>s.
         Option.bind (fldt bytes s) (\<lambda>s.
         Option.bind (fstps s) (\<lambda>(stored, s).
         Option.bind (fldcw saved s) (\<lambda>s.
         map_option (\<lambda>value. (value, s)) stored)))))"

text \<open>The state in which the C++ runtime runs the program: every exception masked, and a free register.\<close>

definition x87_ready :: "X87 \<Rightarrow> bool" where
  "x87_ready s \<longleftrightarrow> x87_control s AND 0x3F = 0x3F \<and> length (x87_stack s) < 8"

section \<open>Facts about rounding\<close>

lemma powi_less_iff: "(2 :: real) powi a < 2 powi b \<longleftrightarrow> a < b"
  using power_int_strict_increasing[of a b "2 :: real"] power_int_increasing[of b a "2 :: real"]
  by (meson not_le one_le_numeral one_less_numeral_iff semiring_norm(76))

lemma powi_add: "(2 :: real) powi (a + b) = 2 powi a * 2 powi b"
  and powi_diff: "(2 :: real) powi (a - b) = 2 powi a / 2 powi b"
  by (simp_all add: power_int_add power_int_diff)

lemma pow_compare:
  "d * 2 ^ nat b \<le> n * 2 ^ nat (- b) \<longleftrightarrow> 2 powi b \<le> real n / real d" if "0 < d" for b :: int
proof -
  have "real (d * 2 ^ nat b) \<le> real (n * 2 ^ nat (- b)) \<longleftrightarrow> 2 powi b \<le> real n / real d"
    using that by (cases "0 \<le> b") (auto simp: power_int_def field_simps)
  then show ?thesis by (simp only: of_nat_le_iff)
qed

lemma bitlen_real:
  assumes "0 < n"
  shows "2 powi (int (bitlen n) - 1) \<le> real n" "real n < 2 powi (int (bitlen n))"
proof -
  have b: "2 ^ bitlen n \<le> 2 * n" "n < 2 ^ bitlen n" using bitlen_bounds[OF assms] by auto
  have "real (2 ^ bitlen n) \<le> real (2 * n)" using b(1) by (simp only: of_nat_le_iff)
  then show "2 powi (int (bitlen n) - 1) \<le> real n" by (simp add: power_int_diff)
  have "real n < real (2 ^ bitlen n)" using b(2) by (simp only: of_nat_less_iff)
  then show "real n < 2 powi (int (bitlen n))" by simp
qed

text \<open>The exponent of the leading bit is determined by the quotient.\<close>

definition leading_bit :: "nat \<Rightarrow> nat \<Rightarrow> int" where
  "leading_bit n d =
     (let b = int (bitlen n) - int (bitlen d)
      in if d * 2 ^ nat b \<le> n * 2 ^ nat (- b) then b else b - 1)"

lemma last_place_leading: "last_place p emin n d = max (leading_bit n d - int p + 1) emin"
  by (simp add: last_place_def leading_bit_def Let_def)

lemma leading_bit_bounds:
  assumes "0 < n" "0 < d"
  shows "2 powi leading_bit n d \<le> real n / real d" "real n / real d < 2 powi (leading_bit n d + 1)"
proof -
  let ?b = "int (bitlen n) - int (bitlen d)"
  note n = bitlen_real[OF assms(1)] and d = bitlen_real[OF assms(2)]
  have "2 powi (?b - 1) = 2 powi (int (bitlen n) - 1) / (2 :: real) powi (int (bitlen d))"
    by (simp add: powi_diff)
  also have "\<dots> \<le> real n / real d" using n d assms by (intro frac_le) auto
  finally have lo: "2 powi (?b - 1) \<le> real n / real d" .
  have "real n / real d < 2 powi (int (bitlen n)) / 2 powi (int (bitlen d) - 1)"
    using n d assms by (intro frac_less) auto
  also have "\<dots> = 2 powi (?b + 1)" by (simp add: powi_diff powi_add)
  finally have hi: "real n / real d < 2 powi (?b + 1)" .
  show "2 powi leading_bit n d \<le> real n / real d" "real n / real d < 2 powi (leading_bit n d + 1)"
    using lo hi pow_compare[OF assms(2), of ?b n] by (auto simp: leading_bit_def Let_def)
qed

lemma leading_bit_unique:
  assumes "0 < n" "0 < d" "2 powi k \<le> real n / real d" "real n / real d < 2 powi (k + 1)"
  shows "leading_bit n d = k"
proof -
  have "2 powi k < (2 :: real) powi (leading_bit n d + 1)" "(2 :: real) powi (leading_bit n d) < 2 powi (k + 1)"
    using leading_bit_bounds[OF assms(1,2)] assms(3,4) by linarith+
  then show ?thesis by (simp add: powi_less_iff)
qed

text \<open>A value of the format is its own rounding, in every mode.\<close>

definition in_format :: "nat \<Rightarrow> int \<Rightarrow> nat \<Rightarrow> int \<Rightarrow> bool" where
  "in_format p emin m e \<longleftrightarrow> 0 < m \<and> m < 2 ^ p \<and> emin \<le> e \<and> (2 ^ (p - 1) \<le> m \<or> e = emin)"

lemma in_format_last_place:
  assumes "in_format p emin m e" "0 < p" "0 < n" "0 < d" "real n / real d = real m * 2 powi e"
  shows "last_place p emin n d = e"
proof -
  have hi: "real m < 2 powi int p" using assms(1) by (simp add: in_format_def)
  have "2 powi leading_bit n d < 2 powi int p * (2 :: real) powi e"
    using leading_bit_bounds(1)[OF assms(3,4)] hi unfolding assms(5) 
    by (meson le_less_trans mult_strict_right_mono zero_less_power_int zero_less_numeral)
  then have up: "leading_bit n d < int p + e"
    by (simp only: powi_add[symmetric] powi_less_iff)
  have "leading_bit n d = int p - 1 + e" if "2 ^ (p - 1) \<le> m"
  proof (rule leading_bit_unique[OF assms(3,4)])
    have "real (2 ^ (p - 1)) \<le> real m" using that by (simp only: of_nat_le_iff)
    then have "2 powi (int p - 1) \<le> real m" using assms(2) by (simp add: power_int_def nat_diff_distrib)
    then show "2 powi (int p - 1 + e) \<le> real n / real d" unfolding assms(5)
      by (simp add: power_int_add mult_right_mono)
    show "real n / real d < 2 powi (int p - 1 + e + 1)" unfolding assms(5)
      using hi by (simp add: power_int_add)
  qed
  then show ?thesis using assms(1) up by (auto simp: last_place_leading in_format_def)
qed

lemma round_magnitude_exact:
  assumes "in_format p emin m e" "0 < p" "0 < n" "0 < d" "real n / real d = real m * 2 powi e"
  shows "round_magnitude p emin mode negative n d = nat (e - emin) * 2 ^ (p - 1) + m"
proof -
  let ?num = "n * 2 ^ nat (- e)" and ?den = "d * 2 ^ nat e"
  have "real ?num = real (m * ?den)"
    using assms(4,5) by (cases "0 \<le> e") (auto simp: power_int_def field_simps)
  then have num: "?num = m * ?den" by (simp only: of_nat_eq_iff)
  have den: "0 < ?den" using assms(4) by simp
  have q: "?num div ?den = m" "?num mod ?den = 0" unfolding num using den by simp_all
  show ?thesis using den
    unfolding round_magnitude_def Let_def in_format_last_place[OF assms] q by simp
qed

lemma round_binary_nearest: "round_binary p emin n d = round_magnitude p emin RoundNearest negative n d"
  by (simp only: round_binary_def round_magnitude_def last_place_def Let_def simp_thms if_True)

lemma round_magnitude_quotient:
  assumes "0 < n" "0 < d" "0 < n'" "0 < d'" "n * d' = n' * d"
  shows "round_magnitude p emin mode negative n d = round_magnitude p emin mode negative n' d'"
proof -
  have "real (n * d') = real (n' * d)" using assms(5) by (simp only: )
  then have eq: "real n / real d = real n' / real d'" using assms(2,4) by (simp add: field_simps)
  have lead: "leading_bit n d = leading_bit n' d'"
    using leading_bit_bounds[OF assms(3,4)] unfolding eq[symmetric] by (intro leading_bit_unique assms(1,2))
  let ?e = "last_place p emin n d"
  have e: "last_place p emin n' d' = ?e" by (simp add: last_place_leading lead)
  let ?num = "n * 2 ^ nat (- ?e)" and ?den = "d * 2 ^ nat ?e"
  let ?num' = "n' * 2 ^ nat (- ?e)" and ?den' = "d' * 2 ^ nat ?e"
  have cross: "?num * ?den' = ?num' * ?den" using assms(5) by (simp add: ac_simps)
  have den: "0 < ?den" "0 < ?den'" using assms(2,4) by simp_all
  have q: "?num div ?den = ?num' div ?den'"
  proof -
    have "?num div ?den = ?num * ?den' div (?den * ?den')" using den(2) by simp
    also have "\<dots> = ?num' * ?den div (?den' * ?den)" unfolding cross by (simp only: mult.commute)
    also have "\<dots> = ?num' div ?den'" using den(1) by simp
    finally show ?thesis .
  qed
  have r: "?num mod ?den * ?den' = ?num' mod ?den' * ?den"
  proof -
    have "?num mod ?den * ?den' = ?num * ?den' mod (?den * ?den')" by (rule mod_mult_mult2[symmetric])
    also have "\<dots> = ?num' * ?den mod (?den' * ?den)" unfolding cross by (simp only: mult.commute)
    also have "\<dots> = ?num' mod ?den' * ?den" by (rule mod_mult_mult2)
    finally show ?thesis .
  qed
  have pos: "0 < ?num mod ?den \<longleftrightarrow> 0 < ?num' mod ?den'" using r den by (metis mult_is_0 neq0_conv)
  have gt: "?den < 2 * (?num mod ?den) \<longleftrightarrow> ?den' < 2 * (?num' mod ?den')"
  proof -
    have "?den < 2 * (?num mod ?den) \<longleftrightarrow> ?den * ?den' < 2 * (?num mod ?den * ?den')" using den(2) by simp
    also have "\<dots> \<longleftrightarrow> ?den * ?den' < 2 * (?num' mod ?den' * ?den)" unfolding r ..
    also have "\<dots> \<longleftrightarrow> ?den' < 2 * (?num' mod ?den')" using den(1) by simp
    finally show ?thesis .
  qed
  have tie: "2 * (?num mod ?den) = ?den \<longleftrightarrow> 2 * (?num' mod ?den') = ?den'"
  proof -
    have "2 * (?num mod ?den) = ?den \<longleftrightarrow> 2 * (?num mod ?den * ?den') = ?den * ?den'" using den(2) by simp
    also have "\<dots> \<longleftrightarrow> 2 * (?num' mod ?den' * ?den) = ?den * ?den'" unfolding r ..
    also have "\<dots> \<longleftrightarrow> 2 * (?num' mod ?den') = ?den'" using den(1) by simp
    finally show ?thesis .
  qed
  show ?thesis unfolding round_magnitude_def Let_def e q pos gt tie ..
qed

text \<open>The bits of a value of the format lead back to its significand and exponent.\<close>

lemma binary_parts_bits:
  assumes "in_format p emin m e" "0 < p"
  shows "binary_parts p emin (nat (e - emin) * 2 ^ (p - 1) + m) = (m, e)"
proof -
  define P :: nat where "P = 2 ^ (p - 1)"
  have P: "0 < P" "2 ^ p = 2 * P" using assms(2) by (cases p; simp add: P_def)+
  have fmt: "m < 2 * P" "emin \<le> e" "P \<le> m \<or> e = emin"
    using assms(1) unfolding in_format_def P(2) P_def[symmetric] by simp_all
  have "binary_parts p emin (nat (e - emin) * P + m) = (m, e)"
  proof (cases "P \<le> m")
    case True
    then obtain f where f: "m = P + f" "f < P" using fmt(1) by (metis add_less_cancel_left le_Suc_ex mult_2)
    have "nat (e - emin) * P + m = (nat (e - emin) + 1) * P + f" unfolding f(1) by simp
    then have "(nat (e - emin) * P + m) div P = nat (e - emin) + 1" "(nat (e - emin) * P + m) mod P = f"
      using f(2) P(1) by simp_all
    then show ?thesis using fmt(2) f(1) unfolding binary_parts_def Let_def P_def[symmetric] by simp
  next
    case False
    then show ?thesis using fmt(3) unfolding binary_parts_def Let_def P_def[symmetric] by simp
  qed
  then show ?thesis unfolding P_def .
qed

lemma binary_parts_in_format:
  assumes "0 < bits" "0 < p" "binary_parts p emin bits = (m, e)"
  shows "in_format p emin m e \<and> bits = nat (e - emin) * 2 ^ (p - 1) + m"
proof -
  define P :: nat where "P = 2 ^ (p - 1)"
  have P: "0 < P" "2 ^ p = 2 * P" using assms(2) by (cases p; simp add: P_def)+
  have dm: "bits = bits div P * P + bits mod P" "bits mod P < P" using P by simp_all
  have parts: "(if bits div P = 0 then (bits mod P, emin) else (bits mod P + P, emin + int (bits div P) - 1)) = (m, e)"
    using assms(3) unfolding binary_parts_def Let_def P_def[symmetric] .
  show ?thesis
  proof (cases "bits div P = 0")
    case True
    then show ?thesis using parts assms(1) dm unfolding in_format_def P(2) by simp
  next
    case False
    then have me: "m = bits mod P + P" "e = emin + int (bits div P) - 1" using parts by simp_all
    have "bits = (bits div P - 1) * P + (bits mod P + P)" using dm(1) False by (cases "bits div P") simp_all
    moreover have "nat (e - emin) = bits div P - 1" using me(2) by simp
    ultimately show ?thesis
      using me dm(2) P(1) False unfolding in_format_def P(2) P_def[symmetric] by simp
  qed
qed

text \<open>The real number that magnitude bits denote.\<close>

definition bits_real :: "nat \<Rightarrow> int \<Rightarrow> nat \<Rightarrow> real" where
  "bits_real p emin bits = (let (m, e) = binary_parts p emin bits in real m * 2 powi e)"

lemma powi_ratio: "real (m * 2 ^ nat e) / real (2 ^ nat (- e)) = real m * 2 powi e"
  by (cases "0 \<le> e") (simp_all add: power_int_def divide_simps)

lemma binary_value_ratio:
  assumes "binary_value p emin bits = (n, d)"
  shows "real n / real d = bits_real p emin bits"
  using assms powi_ratio by (auto simp: binary_value_def bits_real_def split: prod.splits)

lemma binary_value_pos:
  assumes "binary_value p emin bits = (n, d)" "0 < bits" "0 < p"
  shows "0 < n" "0 < d"
proof -
  obtain m e where me: "binary_parts p emin bits = (m, e)" by fastforce
  have "0 < m" using binary_parts_in_format[OF assms(2,3) me] by (simp add: in_format_def)
  then show "0 < n" "0 < d" using assms(1) me by (auto simp: binary_value_def)
qed

lemma round_magnitude_bits:
  assumes "0 < bits" "0 < p" "0 < n" "0 < d" "real n / real d = bits_real p emin bits"
  shows "round_magnitude p emin mode negative n d = bits"
proof -
  obtain m e where me: "binary_parts p emin bits = (m, e)" by fastforce
  then have "real n / real d = real m * 2 powi e" using assms(5) by (simp add: bits_real_def)
  then show ?thesis
    using round_magnitude_exact[OF _ assms(2-4)] binary_parts_in_format[OF assms(1,2) me] by metis
qed

section \<open>Widened doubles\<close>

lemma mod_upper_half: "c \<le> f \<Longrightarrow> f < 2 * c \<Longrightarrow> f mod c = f - c" for f :: nat
  by (subst le_mod_geq) simp_all

lemma st80_parts_real:
  assumes "0 < bits" "bits < DOUBLE_INF" "st80_parts bits = (m, e)"
  shows "real m * 2 powi (int (max e 1) - 16446) = bits_real 53 (- 1074) bits"
proof -
  let ?ef = "bits div 2 ^ 52" and ?f = "bits mod 2 ^ 52"
  have ef: "?ef < 2047" "?f < 2 ^ 52" using assms(2) by (simp_all add: DOUBLE_INF_def less_mult_imp_div_less)
  have "bits = ?ef * 2 ^ 52 + ?f" by simp
  then have nz: "?ef = 0 \<Longrightarrow> ?f \<noteq> 0" using assms(1) by (metis add_is_0 mult_0 neq0_conv)
  show ?thesis
  proof (cases "?ef = 0")
    case True
    let ?b = "bitlen ?f"
    have b: "?b \<le> 52" by (rule bitlen_le[OF ef(2)])
    have me: "m = ?f * 2 ^ (64 - ?b)" "e = ?b + 15308"
      using assms(3) True nz[OF True] unfolding st80_parts_def Let_def by simp_all
    have "(2 :: real) ^ (64 - ?b) * 2 powi (int (max e 1) - 16446) = 2 powi (int (64 - ?b) + (int (max e 1) - 16446))"
      by (simp only: powi_add power_int_of_nat)
    also have "int (64 - ?b) + (int (max e 1) - 16446) = - 1074" using b me(2) by simp
    finally have "real m * 2 powi (int (max e 1) - 16446) = real ?f * 2 powi (- 1074)"
      unfolding me(1) of_nat_mult of_nat_power of_nat_numeral by (simp only: mult.assoc)
    then show ?thesis using True by (simp add: bits_real_def binary_parts_def Let_def)
  next
    case False
    have me: "m = (?f + 2 ^ 52) * 2 ^ 11" "e = ?ef + 15360"
      using assms(3) False ef(1) unfolding st80_parts_def Let_def by auto
    have "(2 :: real) ^ 11 * 2 powi (int (max e 1) - 16446) = 2 powi (int 11 + (int (max e 1) - 16446))"
      by (simp only: powi_add power_int_of_nat)
    also have "int 11 + (int (max e 1) - 16446) = - 1074 + int ?ef - 1" using me(2) by simp
    finally have "real m * 2 powi (int (max e 1) - 16446) = real (?f + 2 ^ 52) * 2 powi (- 1074 + int ?ef - 1)"
      unfolding me(1) of_nat_mult of_nat_power of_nat_numeral by (simp only: mult.assoc)
    then show ?thesis using False by (simp add: bits_real_def binary_parts_def Let_def)
  qed
qed

lemma double_to_st80_fields:
  assumes "st80_parts (unat w mod 2 ^ 63) = (m, e)"
  shows "unat (st_mantissa (double_to_st80 w)) = m" "unat (st_exponent (double_to_st80 w)) = e"
    "128 \<le> unat (double_to_st80 w ! 9) \<longleftrightarrow> 2 ^ 63 \<le> unat w"
proof -
  let ?sign = "if 2 ^ 63 \<le> unat w then 2 ^ 15 else 0 :: nat"
  have lim: "m < 2 ^ 64" "e < 32768" using st80_parts_normal[OF _ assms] by simp_all
  then have se: "?sign + e < 2 ^ 16" by auto
  have bs: "double_to_st80 w = bytes_le 8 m @ bytes_le 2 (?sign + e)"
    using assms unfolding double_to_st80_def Let_def by simp
  show "unat (st_mantissa (double_to_st80 w)) = m"
    unfolding bs st_mantissa_bytes[OF lim(1)] by (rule unat_word_of_nat) (use lim(1) in simp)
  show "unat (st_exponent (double_to_st80 w)) = e"
    unfolding bs st_exponent_bytes[OF se] using lim(2) by auto
  have "(?sign + e) div 256 < 256" using se by (simp add: less_mult_imp_div_less)
  moreover have "double_to_st80 w ! 9 = word_of_nat ((?sign + e) div 256)"
    unfolding bs by (simp add: nth_append) (simp add: bytes_le_def)
  ultimately have "unat (double_to_st80 w ! 9) = (?sign + e) div 256" by (simp add: unat_word_of_nat)
  then show "128 \<le> unat (double_to_st80 w ! 9) \<longleftrightarrow> 2 ^ 63 \<le> unat w" using lim(2) by auto
qed

text \<open>
  Storing a widened double into a format of at most 53 bits: a value of the format is stored exactly,
  whatever the rounding mode; infinities stay and a NaN keeps the leading bits of its payload.
\<close>

lemma store_widened_finite:
  assumes "0 < unat w mod 2 ^ 63" "unat w mod 2 ^ 63 < DOUBLE_INF" "0 < p" "0 < bits" "bits < infinity"
    "bits_real 53 (- 1074) (unat w mod 2 ^ 63) = bits_real p emin bits"
  shows "store_bits p emin infinity sign mode (double_to_st80 w) = (if 2 ^ 63 \<le> unat w then sign else 0) + bits"
proof -
  obtain m e where me: "st80_parts (unat w mod 2 ^ 63) = (m, e)" by fastforce
  have lim: "2 ^ 63 \<le> m" "e \<noteq> 32767" using st80_parts_normal[OF _ me] assms(1,2) by (auto simp: DOUBLE_INF_def)
  let ?x = "int (max e 1) - 16446" and ?neg = "2 ^ 63 \<le> unat w"
  have "real (m * 2 ^ nat ?x) / real (2 ^ nat (- ?x)) = bits_real p emin bits"
    using powi_ratio[of m ?x] st80_parts_real[OF assms(1,2) me] assms(6) by simp
  then have "round_magnitude p emin mode ?neg (m * 2 ^ nat ?x) (2 ^ nat (- ?x)) = bits"
    using lim(1) by (intro round_magnitude_bits assms(3,4)) simp_all
  then have "round_result p emin infinity mode ?neg (m * 2 ^ nat ?x) (2 ^ nat (- ?x)) = bits"
    using assms(5) by (simp add: round_result_def)
  then show ?thesis
    using lim by (cases ?neg) (simp_all add: store_bits_def double_to_st80_fields[OF me] Let_def)
qed

lemma st80_parts_special:
  assumes "DOUBLE_INF \<le> bits" "bits < 2 ^ 63"
  shows "st80_parts bits = (2 ^ 63 + (if bits = DOUBLE_INF then 0 else 2 ^ 51 + (bits - DOUBLE_INF) mod 2 ^ 51) * 2 ^ 11, 32767)"
proof -
  define f where "f = bits - DOUBLE_INF"
  have b: "bits = 2047 * 2 ^ 52 + f" "f < 2 ^ 52" using assms by (simp_all add: f_def DOUBLE_INF_def)
  have dm: "bits div 2 ^ 52 = 2047" "bits mod 2 ^ 52 = f"
    unfolding b(1) div_mult_self3[OF power_not_zero[OF zero_neq_numeral[symmetric]]] mod_mult_self3 using b(2) by simp_all
  have "(if f < 2 ^ 51 then f + 2 ^ 51 else f) = 2 ^ 51 + f mod 2 ^ 51"
  proof (cases "f < 2 ^ 51")
    case False
    then have "f mod 2 ^ 51 = f - 2 ^ 51" using b(2) by (intro mod_upper_half) simp_all
    then show ?thesis using False by simp
  qed simp
  moreover have "f = 0 \<longleftrightarrow> bits = DOUBLE_INF" using b(1) by (simp add: DOUBLE_INF_def)
  ultimately show ?thesis unfolding st80_parts_def Let_def dm f_def[symmetric] by simp
qed

lemma store_widened_special:
  assumes "DOUBLE_INF \<le> unat w mod 2 ^ 63"
  shows "store_bits p emin infinity sign mode (double_to_st80 w)
    = (if 2 ^ 63 \<le> unat w then sign else 0) + infinity
      + (if unat w mod 2 ^ 63 = DOUBLE_INF then 0
         else 2 ^ (p - 2) + (2 ^ 51 + (unat w mod 2 ^ 63 - DOUBLE_INF) mod 2 ^ 51) * 2 ^ 11 div 2 ^ (64 - p) mod 2 ^ (p - 2))"
proof -
  have lt: "unat w mod 2 ^ 63 < 2 ^ 63" by simp
  note parts = st80_parts_special[OF assms lt]
  show ?thesis
    unfolding store_bits_def Let_def double_to_st80_fields[OF parts]
    by (cases "unat w mod 2 ^ 63 = DOUBLE_INF"; cases "2 ^ 63 \<le> unat w") (simp_all only: if_True if_False simp_thms, simp_all)
qed

lemma store_widened_zero:
  assumes "unat w mod 2 ^ 63 = 0"
  shows "store_bits p emin infinity sign mode (double_to_st80 w) = (if 2 ^ 63 \<le> unat w then sign else 0)"
proof -
  have "st80_parts (unat w mod 2 ^ 63) = (0, 0)" unfolding assms by (simp add: st80_parts_def)
  from double_to_st80_fields[OF this] show ?thesis by (simp add: store_bits_def)
qed

lemma unat_sign: "(if 2 ^ 63 \<le> unat w then 2 ^ 63 else 0) + unat w mod 2 ^ 63 = unat w" for w :: u64
proof (cases "2 ^ 63 \<le> unat w")
  case True
  then have "unat w mod 2 ^ 63 = unat w - 2 ^ 63" using unat_lt_2p[of w] by (intro mod_upper_half) simp_all
  then show ?thesis using True by simp
qed simp

lemma or_exp:
  fixes w :: "'a::len word"
  shows "bit w k \<Longrightarrow> w OR 2 ^ k = w" "\<not> bit w k \<Longrightarrow> w OR 2 ^ k = w + 2 ^ k"
proof -
  show "bit w k \<Longrightarrow> w OR 2 ^ k = w" by (rule bit_word_eqI) (auto simp: bit_or_iff bit_exp_iff)
  assume "\<not> bit w k"
  then have "w AND 2 ^ k = 0" by (intro bit_word_eqI) (auto simp: bit_and_iff bit_exp_iff)
  then show "w OR 2 ^ k = w + 2 ^ k" by (simp add: disjunctive_add_eq_or)
qed

lemma quiet_double:
  assumes "DOUBLE_INF < unat w mod 2 ^ 63"
  shows "word_of_nat ((if 2 ^ 63 \<le> unat w then 2 ^ 63 else 0) + DOUBLE_INF + (2 ^ 51 + (unat w mod 2 ^ 63 - DOUBLE_INF) mod 2 ^ 51))
    = (w OR 0x0008000000000000 :: u64)"
proof -
  define f where "f = unat w mod 2 ^ 63 - DOUBLE_INF"
  define s :: nat where "s = (if 2 ^ 63 \<le> unat w then 2 ^ 63 else 0)"
  have f: "f < 2 ^ 52" using mod_less_divisor[of "2 ^ 63" "unat w"] by (simp add: f_def DOUBLE_INF_def)
  have "unat w mod 2 ^ 63 = DOUBLE_INF + f" using assms unfolding f_def by linarith
  then have w: "unat w = s + DOUBLE_INF + f" using unat_sign[of w] by (simp add: s_def)
  have bit: "bit w 51 \<longleftrightarrow> 2 ^ 51 \<le> f"
  proof -
    have "bit w 51 \<longleftrightarrow> bit (unat w) 51" by (simp add: bit_unsigned_iff)
    also have "\<dots> \<longleftrightarrow> odd (unat w div 2 ^ 51)" by (rule bit_iff_odd)
    finally have "bit w 51 \<longleftrightarrow> odd (unat w div 2 ^ 51)" .
    moreover have "unat w div 2 ^ 51 = (s + DOUBLE_INF) div 2 ^ 51 + f div 2 ^ 51"
      unfolding w by (rule div_plus_div_distrib_dvd_left) (simp add: DOUBLE_INF_def s_def)
    moreover have "even ((s + DOUBLE_INF) div 2 ^ 51)" by (simp add: DOUBLE_INF_def s_def)
    moreover have "f div 2 ^ 51 = (if 2 ^ 51 \<le> f then 1 else 0)" using f by (auto simp: div_if)
    ultimately show ?thesis by simp
  qed
  have "w OR 2 ^ 51 = (if 2 ^ 51 \<le> f then w else w + 2 ^ 51)" 
    unfolding bit[symmetric] using or_exp[of w 51] by (split if_split) blast
  also have "\<dots> = word_of_nat (s + DOUBLE_INF + (2 ^ 51 + f mod 2 ^ 51))"
  proof (cases "2 ^ 51 \<le> f")
    case True
    then have "2 ^ 51 + f mod 2 ^ 51 = f" using f mod_upper_half[OF True] by simp
    then show ?thesis using True w by (metis word_of_nat_unat)
  next
    case False
    have "w + 2 ^ 51 = word_of_nat (unat w + 2 ^ 51)" by simp
    then show ?thesis unfolding w using False by (simp add: ac_simps)
  qed
  finally show ?thesis unfolding f_def s_def by simp
qed

lemma store_double_widened_exact:
  assumes "unat w mod 2 ^ 63 \<le> DOUBLE_INF"
  shows "store_bits 53 (- 1074) DOUBLE_INF (2 ^ 63) mode (double_to_st80 w) = unat w"
proof -
  consider "unat w mod 2 ^ 63 = 0" | "0 < unat w mod 2 ^ 63" "unat w mod 2 ^ 63 < DOUBLE_INF"
    | "unat w mod 2 ^ 63 = DOUBLE_INF" using assms by linarith
  then show ?thesis
  proof cases
    case 1
    show ?thesis using unat_sign[of w] unfolding store_widened_zero[OF 1] 1 add_0_right .
  next
    case 2
    then show ?thesis using unat_sign[of w] by (subst store_widened_finite[OF 2 _ 2]) simp_all
  next
    case 3
    then show ?thesis using unat_sign[of w] by (subst store_widened_special) simp_all
  qed
qed

lemma store_double_widened_nan:
  assumes "DOUBLE_INF < unat w mod 2 ^ 63"
  shows "word_of_nat (store_bits 53 (- 1074) DOUBLE_INF (2 ^ 63) mode (double_to_st80 w)) = w OR 0x0008000000000000"
proof -
  let ?x = "(unat w mod 2 ^ 63 - DOUBLE_INF) mod 2 ^ 51"
  have "(2 ^ 51 + ?x) * 2 ^ 11 div 2 ^ (64 - 53) mod 2 ^ (53 - 2) = ?x" by simp
  then have "store_bits 53 (- 1074) DOUBLE_INF (2 ^ 63) mode (double_to_st80 w)
      = (if 2 ^ 63 \<le> unat w then 2 ^ 63 else 0) + DOUBLE_INF + (2 ^ 51 + ?x)"
    using store_widened_special[OF less_imp_le[OF assms]] assms by simp
  then show ?thesis using quiet_double[OF assms] assms by presburger
qed

section \<open>Floats inside the doubles\<close>

lemma in_format_widen:
  assumes "in_format 24 (- 149) m e"
  shows "in_format 53 (- 1074) (m * 2 ^ (53 - bitlen m)) (e - int (53 - bitlen m))"
    "real (m * 2 ^ (53 - bitlen m)) * 2 powi (e - int (53 - bitlen m)) = real m * 2 powi e"
proof -
  have m: "0 < m" "m < 2 ^ 24" "- 149 \<le> e" using assms by (auto simp: in_format_def)
  let ?b = "bitlen m"
  have b: "?b \<le> 24" by (rule bitlen_le[OF m(2)])
  have two: "(2 :: nat) ^ ?b * 2 ^ (53 - ?b) = 2 ^ 53" using b by (simp flip: power_add)
  have "2 ^ ?b * 2 ^ (53 - ?b) \<le> 2 * m * 2 ^ (53 - ?b)" "m * 2 ^ (53 - ?b) < 2 ^ ?b * 2 ^ (53 - ?b)"
    using bitlen_bounds[OF m(1)] by simp_all
  then have "2 ^ 52 \<le> m * 2 ^ (53 - ?b)" "m * 2 ^ (53 - ?b) < 2 ^ 53" unfolding two by simp_all
  then show "in_format 53 (- 1074) (m * 2 ^ (53 - ?b)) (e - int (53 - ?b))"
    using m by (simp add: in_format_def)
  have "(2 :: real) ^ (53 - ?b) * 2 powi (e - int (53 - ?b)) = 2 powi e"
    by (simp only: powi_diff power_int_of_nat) simp
  then show "real (m * 2 ^ (53 - ?b)) * 2 powi (e - int (53 - ?b)) = real m * 2 powi e"
    by (simp only: of_nat_mult of_nat_power of_nat_numeral mult.assoc)
qed

lemma bits_real_encoded:
  assumes "in_format p emin m e" "0 < p"
  shows "bits_real p emin (nat (e - emin) * 2 ^ (p - 1) + m) = real m * 2 powi e"
  by (simp only: bits_real_def binary_parts_bits[OF assms] Let_def prod.case)

lemma float_widened:
  assumes "0 < bits" "bits < FLOAT_INF" "binary_value 24 (- 149) bits = (n, d)"
  shows "0 < round_binary 53 (- 1074) n d" "round_binary 53 (- 1074) n d < DOUBLE_INF"
    "bits_real 53 (- 1074) (round_binary 53 (- 1074) n d) = bits_real 24 (- 149) bits"
proof -
  obtain m e where me: "binary_parts 24 (- 149) bits = (m, e)" by fastforce
  have fmt: "in_format 24 (- 149) m e" "bits = nat (e + 149) * 2 ^ 23 + m"
    using binary_parts_in_format[OF assms(1) _ me] by simp_all
  let ?j = "53 - bitlen m"
  let ?M = "m * 2 ^ ?j" and ?E = "e - int ?j"
  note wide = in_format_widen[OF fmt(1)]
  have nd: "0 < n" "0 < d" "real n / real d = bits_real 24 (- 149) bits"
    using binary_value_ratio[OF assms(3)] binary_value_pos[OF assms(3,1)] by simp_all
  have val: "bits_real 24 (- 149) bits = real m * 2 powi e" by (simp add: bits_real_def me)
  have rb: "round_binary 53 (- 1074) n d = nat (?E - - 1074) * 2 ^ (53 - 1) + ?M"
    unfolding round_binary_nearest[where negative = False]
    by (rule round_magnitude_exact[OF wide(1) _ nd(1,2)]) (simp, simp only: nd(3) val wide(2))
  have "nat (e + 149) * 2 ^ 23 < 255 * 2 ^ 23" using fmt(2) assms(2) unfolding FLOAT_INF_def by linarith
  then have "e < 106" by simp
  then have "nat (?E - - 1074) \<le> 1180" by simp
  then have "nat (?E - - 1074) * 2 ^ 52 \<le> 1180 * 2 ^ 52" by (rule mult_le_mono1)
  moreover have M: "?M < 2 ^ 53" "0 < ?M" using wide(1) by (simp_all add: in_format_def)
  ultimately show "round_binary 53 (- 1074) n d < DOUBLE_INF" unfolding rb DOUBLE_INF_def by simp
  show "0 < round_binary 53 (- 1074) n d" unfolding rb using M(2) by linarith
  show "bits_real 53 (- 1074) (round_binary 53 (- 1074) n d) = bits_real 24 (- 149) bits"
    unfolding rb val wide(2)[symmetric] by (rule bits_real_encoded[OF wide(1)]) simp
qed

text \<open>The magnitude of a widened float, and that its sign is kept.\<close>

definition widened_magnitude :: "nat \<Rightarrow> nat" where
  "widened_magnitude bits =
     (if bits = 0 then 0
      else if bits = FLOAT_INF then DOUBLE_INF
      else if FLOAT_INF < bits then DOUBLE_INF + 2 ^ 51 + (bits - FLOAT_INF) mod 2 ^ 22 * 2 ^ 29
      else let (n, d) = binary_value 24 (- 149) bits in round_binary 53 (- 1074) n d)"

lemma widened_magnitude_less: "widened_magnitude bits < 2 ^ 63"
proof -
  have "(bits - FLOAT_INF) mod 2 ^ 22 * 2 ^ 29 < 2 ^ 22 * 2 ^ 29" by simp
  moreover have "0 < bits \<Longrightarrow> bits < FLOAT_INF \<Longrightarrow>
      (let (n, d) = binary_value 24 (- 149) bits in round_binary 53 (- 1074) n d) < DOUBLE_INF"
    using float_widened(2) by (auto simp: Let_def split: prod.splits)
  ultimately show ?thesis unfolding widened_magnitude_def DOUBLE_INF_def by auto
qed

lemma float_to_double_fields:
  "unat (float_to_double f) mod 2 ^ 63 = widened_magnitude (unat f mod 2 ^ 31)"
  "2 ^ 63 \<le> unat (float_to_double f) \<longleftrightarrow> 2 ^ 31 \<le> unat f"
proof -
  let ?s = "if 2 ^ 31 \<le> unat f then 2 ^ 63 else 0 :: nat" and ?m = "widened_magnitude (unat f mod 2 ^ 31)"
  have m: "?m < 2 ^ 63" by (rule widened_magnitude_less)
  have w: "float_to_double f = word_of_nat (?s + ?m)"
    unfolding float_to_double_def widened_magnitude_def Let_def ..
  have u: "unat (float_to_double f) = ?s + ?m" unfolding w by (rule unat_word_of_nat) (use m in auto)
  show "unat (float_to_double f) mod 2 ^ 63 = ?m" unfolding u using m by (cases "2 ^ 31 \<le> unat f") simp_all
  show "2 ^ 63 \<le> unat (float_to_double f) \<longleftrightarrow> 2 ^ 31 \<le> unat f" unfolding u using m by (cases "2 ^ 31 \<le> unat f") simp_all
qed

text \<open>What narrowing leaves of the magnitude of a float: a NaN is quiet, everything else is unchanged.\<close>

definition quiet_magnitude :: "nat \<Rightarrow> nat" where
  "quiet_magnitude bits = (if FLOAT_INF < bits then FLOAT_INF + 2 ^ 22 + (bits - FLOAT_INF) mod 2 ^ 22 else bits)"

lemma widened_magnitude_cases:
  obtains (zero) "bits = 0" "widened_magnitude bits = 0"
  | (finite) "0 < bits" "bits < FLOAT_INF" "0 < widened_magnitude bits" "widened_magnitude bits < DOUBLE_INF"
      "bits_real 53 (- 1074) (widened_magnitude bits) = bits_real 24 (- 149) bits"
  | (infinite) "bits = FLOAT_INF" "widened_magnitude bits = DOUBLE_INF"
  | (nan) "FLOAT_INF < bits" "widened_magnitude bits = DOUBLE_INF + (2 ^ 51 + (bits - FLOAT_INF) mod 2 ^ 22 * 2 ^ 29)"
proof -
  consider "bits = 0" | "0 < bits" "bits < FLOAT_INF" | "bits = FLOAT_INF" | "FLOAT_INF < bits" by linarith
  then show thesis
  proof cases
    case 2
    obtain n d where nd: "binary_value 24 (- 149) bits = (n, d)" by fastforce
    then have "widened_magnitude bits = round_binary 53 (- 1074) n d"
      using 2 by (simp only: widened_magnitude_def) simp
    then show thesis using finite[OF 2] float_widened[OF 2 nd] by simp
  qed (use zero infinite nan in \<open>simp_all add: widened_magnitude_def FLOAT_INF_def\<close>)
qed

lemma store_float_widened:
  "store_bits 24 (- 149) FLOAT_INF (2 ^ 31) mode (double_to_st80 (float_to_double f))
     = (if 2 ^ 31 \<le> unat f then 2 ^ 31 else 0) + quiet_magnitude (unat f mod 2 ^ 31)"
proof -
  let ?w = "float_to_double f" and ?b = "unat f mod 2 ^ 31"
  show ?thesis
  proof (cases rule: widened_magnitude_cases[of ?b])
    case zero
    then show ?thesis by (subst store_widened_zero) (simp_all only: float_to_double_fields, simp add: quiet_magnitude_def)
  next
    case finite
    have "store_bits 24 (- 149) FLOAT_INF (2 ^ 31) mode (double_to_st80 ?w) = (if 2 ^ 63 \<le> unat ?w then 2 ^ 31 else 0) + ?b"
      by (rule store_widened_finite) (use finite in \<open>simp_all only: float_to_double_fields zero_less_numeral\<close>)
    then show ?thesis using finite(2) unfolding float_to_double_fields by (simp add: quiet_magnitude_def)
  next
    case infinite
    then show ?thesis by (subst store_widened_special) (simp_all only: float_to_double_fields, simp_all add: quiet_magnitude_def)
  next
    case nan
    let ?x = "(?b - FLOAT_INF) mod 2 ^ 22"
    have x: "?x * 2 ^ 29 < 2 ^ 51" using mod_less_divisor[of "2 ^ 22" "?b - FLOAT_INF"] by simp
    have "(2 ^ 51 + ?x * 2 ^ 29) mod 2 ^ 51 = ?x * 2 ^ 29" using x by simp
    then have "(2 ^ 51 + (2 ^ 51 + ?x * 2 ^ 29) mod 2 ^ 51) * 2 ^ 11 = (2 ^ 22 + ?x) * 2 ^ 40" by simp
    then have "(2 ^ 51 + (2 ^ 51 + ?x * 2 ^ 29) mod 2 ^ 51) * 2 ^ 11 div 2 ^ (64 - 24) mod 2 ^ (24 - 2) = ?x" by simp
    then show ?thesis
      using nan by (subst store_widened_special) (simp_all only: float_to_double_fields, simp_all add: quiet_magnitude_def)
  qed
qed

lemma double_to_float_widened:
  assumes "unat f mod 2 ^ 31 \<le> FLOAT_INF"
  shows "double_to_float (float_to_double f) = f"
proof -
  let ?w = "float_to_double f" and ?b = "unat f mod 2 ^ 31"
  let ?s = "if 2 ^ 31 \<le> unat f then 2 ^ 31 else 0 :: nat"
  have f: "?s + ?b = unat f"
  proof (cases "2 ^ 31 \<le> unat f")
    case True
    then have "?b = unat f - 2 ^ 31" using unat_lt_2p[of f] by (intro mod_upper_half) simp_all
    then show ?thesis using True by simp
  qed simp
  have "double_to_float ?w = word_of_nat (?s + ?b)"
  proof (cases rule: widened_magnitude_cases[of ?b])
    case zero
    then show ?thesis unfolding double_to_float_def Let_def float_to_double_fields by simp
  next
    case finite
    obtain n d where nd: "binary_value 53 (- 1074) (widened_magnitude ?b) = (n, d)" by fastforce
    have pos: "0 < n" "0 < d" using binary_value_pos[OF nd finite(3)] by simp_all
    have "round_binary 24 (- 149) n d = ?b"
      unfolding round_binary_nearest[where negative = False]
      by (rule round_magnitude_bits) (use finite pos binary_value_ratio[OF nd] in simp_all)
    then show ?thesis
      using finite nd unfolding double_to_float_def Let_def float_to_double_fields by (simp add: min_def)
  next
    case infinite
    then show ?thesis unfolding double_to_float_def Let_def float_to_double_fields by (simp add: DOUBLE_INF_def)
  next
    case nan
    then show ?thesis using assms by simp
  qed
  then show ?thesis unfolding f by simp
qed

section \<open>The routines\<close>

lemma rounding_conversion [simp]: "rounding_control (conversion_control_word host control) = rounding_control control"
proof -
  have "drop_bit 10 (conversion_control_word host control) AND 3 = drop_bit 10 control AND 3"
  proof (rule bit_word_eqI)
    fix n assume "n < LENGTH(16)"
    have "bit (3 :: u16) n \<longleftrightarrow> n = 0 \<or> n = 1" using bit_mask_iff[of 2 n, where 'a = u16] by (auto simp: mask_eq_exp_minus_1)
    then show "bit (drop_bit 10 (conversion_control_word host control) AND 3) n \<longleftrightarrow> bit (drop_bit 10 control AND 3) n"
      by (auto simp: conversion_control_word_def bit_simps)
  qed
  then show ?thesis by (simp add: rounding_control_def)
qed

lemma conversion_control_word_bits:
  "bit (conversion_control_word host control) i \<longleftrightarrow> (if i = 10 \<or> i = 11 then bit control i else bit host i)"
proof (cases "i < 16")
  case True
  have "\<forall>i\<in>set [0..<16]. (bit (0xF3FF :: u16) i \<longleftrightarrow> i \<noteq> 10 \<and> i \<noteq> 11) \<and> (bit (0x0C00 :: u16) i \<longleftrightarrow> i = 10 \<or> i = 11)"
    by code_simp
  then have "bit (0xF3FF :: u16) i \<longleftrightarrow> i \<noteq> 10 \<and> i \<noteq> 11" "bit (0x0C00 :: u16) i \<longleftrightarrow> i = 10 \<or> i = 11"
    using True by (simp_all only: set_upt atLeastLessThan_iff) auto
  then show ?thesis unfolding conversion_control_word_def bit_or_iff bit_and_iff by auto
next
  case False
  then have "\<not> bit w i" for w :: u16 using bit_imp_le_length[of w i] by auto
  then show ?thesis by simp
qed

text \<open>With all exceptions masked nothing is pending, and the conversion keeps them masked.\<close>

lemma bit_low_six: "bit (0x3F :: u16) i \<longleftrightarrow> i < 6"
proof -
  have "bit (mask 6 :: u16) i \<longleftrightarrow> i < 6" unfolding bit_mask_iff by (auto simp: possible_bit_word)
  then show ?thesis by (simp add: mask_eq_exp_minus_1)
qed

lemma masked_bits: "c AND 0x3F = 0x3F \<longleftrightarrow> (\<forall>i<6. bit c i)" for c :: u16
proof
  assume c: "c AND 0x3F = 0x3F"
  have "bit c i" if "i < 6" for i
  proof -
    have "bit (c AND 0x3F) i" unfolding c bit_low_six by (rule that)
    then show ?thesis unfolding bit_and_iff by (rule conjunct1)
  qed
  then show "\<forall>i<6. bit c i" by blast
next
  assume "\<forall>i<6. bit c i"
  then show "c AND 0x3F = 0x3F" unfolding bit_eq_iff bit_and_iff bit_low_six by blast
qed

lemma masked_conversion: "host AND 0x3F = 0x3F \<Longrightarrow> conversion_control_word host control AND 0x3F = 0x3F"
  by (simp add: masked_bits conversion_control_word_bits)

lemma masked_not:
  fixes c f m :: u16
  assumes "c AND 0x3F = 0x3F" "m AND NOT 0x3F = 0"
  shows "f AND NOT c AND m = 0"
proof (rule bit_word_eqI)
  fix i
  assume "i < LENGTH(16)"
  moreover have "\<not> bit (m AND NOT 0x3F) i" using assms(2) by simp
  ultimately show "bit (f AND NOT c AND m) i = bit 0 i"
    using assms(1) unfolding masked_bits bit_and_iff bit_not_iff bit_low_six by (auto simp: possible_bit_word)
qed

lemma not_pending: "x87_control s AND 0x3F = 0x3F \<Longrightarrow> \<not> x87_pending s"
  using masked_not[of "x87_control s" "0x3F" "x87_flags s"] by (simp add: x87_pending_def and.assoc)

lemma fstp_masked:
  assumes "x87_control s AND 0x3F = 0x3F" "x87_stack s = bytes # rest"
  shows "fstp p emin infinity sign s
    = Some (Some (store_bits p emin infinity sign (rounding_control (x87_control s)) bytes),
        s\<lparr>x87_flags := x87_flags s OR store_flags p emin infinity (x87_control s) bytes,
          x87_c1 := store_up p emin infinity sign (rounding_control (x87_control s)) bytes, x87_stack := rest\<rparr>)"
  using not_pending[OF assms(1)] masked_not[OF assms(1), of "0x19" "store_flags p emin infinity (x87_control s) bytes"] assms(2)
  by (simp add: fstp_def Let_def and.assoc)

text \<open>The state after a conversion in a ready state: only flags and C1 change.\<close>

definition converted :: "nat \<Rightarrow> int \<Rightarrow> nat \<Rightarrow> nat \<Rightarrow> u8 list \<Rightarrow> u16 \<Rightarrow> X87 \<Rightarrow> X87" where
  "converted p emin infinity sign bytes control s =
     s\<lparr>x87_flags := x87_flags s OR store_flags p emin infinity (conversion_control_word (x87_control s) control) bytes,
       x87_c1 := store_up p emin infinity sign (rounding_control control) bytes\<rparr>"

lemma st80_to_double_eq:
  assumes "x87_ready s"
  shows "st80_to_double bytes control s
    = Some (word_of_nat (store_bits 53 (- 1074) DOUBLE_INF (2 ^ 63) (rounding_control control) bytes),
        converted 53 (- 1074) DOUBLE_INF (2 ^ 63) bytes control s)"
proof -
  have m: "x87_control s AND 0x3F = 0x3F" "length (x87_stack s) < 8" using assms by (simp_all add: x87_ready_def)
  note c = masked_conversion[OF m(1), of control]
  show ?thesis
    using not_pending[OF m(1)] m(2) c
    by (simp add: st80_to_double_def fldcw_def fldt_def fstpl_def fstp_masked not_pending converted_def Let_def)
qed

lemma st80_to_float_eq:
  assumes "x87_ready s"
  shows "st80_to_float bytes control s
    = Some (word_of_nat (store_bits 24 (- 149) FLOAT_INF (2 ^ 31) (rounding_control control) bytes),
        converted 24 (- 149) FLOAT_INF (2 ^ 31) bytes control s)"
proof -
  have m: "x87_control s AND 0x3F = 0x3F" "length (x87_stack s) < 8" using assms by (simp_all add: x87_ready_def)
  note c = masked_conversion[OF m(1), of control]
  show ?thesis
    using not_pending[OF m(1)] m(2) c
    by (simp add: st80_to_float_def fldcw_def fldt_def fstps_def fstp_masked not_pending converted_def Let_def)
qed

text \<open>A widened value of the format is stored without an exception, as long as underflow is masked.\<close>

lemma rounding_exact:
  assumes "0 < bits" "0 < p" "0 < n" "0 < d" "real n / real d = bits_real p emin bits"
  shows "\<not> rounding_inexact p emin n d"
proof -
  obtain m e where me: "binary_parts p emin bits = (m, e)" by fastforce
  have fmt: "in_format p emin m e" using binary_parts_in_format[OF assms(1,2) me] by simp
  have eq: "real n / real d = real m * 2 powi e" using assms(5) me by (simp add: bits_real_def)
  let ?num = "n * 2 ^ nat (- e)" and ?den = "d * 2 ^ nat e"
  have "real ?num = real (m * ?den)"
    using assms(4) eq by (cases "0 \<le> e") (auto simp: power_int_def field_simps)
  then have "?num = m * ?den" by (simp only: of_nat_eq_iff)
  then show ?thesis by (simp add: rounding_inexact_def in_format_last_place[OF fmt assms(2-4) eq])
qed

lemma store_flags_widened_finite:
  assumes "0 < unat w mod 2 ^ 63" "unat w mod 2 ^ 63 < DOUBLE_INF" "0 < p" "0 < bits" "bits < infinity"
    "bits_real 53 (- 1074) (unat w mod 2 ^ 63) = bits_real p emin bits" "bit control_word 4"
  shows "store_flags p emin infinity control_word (double_to_st80 w) = 0"
proof -
  obtain m e where me: "st80_parts (unat w mod 2 ^ 63) = (m, e)" by fastforce
  have lim: "2 ^ 63 \<le> m" "e \<noteq> 32767" using st80_parts_normal[OF _ me] assms(1,2) by (auto simp: DOUBLE_INF_def)
  let ?x = "int (max e 1) - 16446"
  have v: "real (m * 2 ^ nat ?x) / real (2 ^ nat (- ?x)) = bits_real p emin bits"
    using powi_ratio[of m ?x] st80_parts_real[OF assms(1,2) me] assms(6) by simp
  have "round_magnitude p emin mode negative (m * 2 ^ nat ?x) (2 ^ nat (- ?x)) = bits" for mode negative
    using lim(1) v by (intro round_magnitude_bits assms(3,4)) simp_all
  moreover have "\<not> rounding_inexact p emin (m * 2 ^ nat ?x) (2 ^ nat (- ?x))"
    by (rule rounding_exact[OF assms(4,3) _ _ v]) (use lim(1) in simp_all)
  ultimately show ?thesis
    using lim assms(5,7) by (simp add: store_flags_def double_to_st80_fields[OF me] Let_def)
qed

lemma store_flags_widened_special:
  assumes "unat w mod 2 ^ 63 = 0 \<or> unat w mod 2 ^ 63 = DOUBLE_INF"
  shows "store_flags p emin infinity control_word (double_to_st80 w) = 0"
  using assms
proof
  assume "unat w mod 2 ^ 63 = 0"
  then have "st80_parts (unat w mod 2 ^ 63) = (0, 0)" by (simp add: st80_parts_def)
  from double_to_st80_fields[OF this] show ?thesis by (simp add: store_flags_def)
next
  assume w: "unat w mod 2 ^ 63 = DOUBLE_INF"
  have "st80_parts (unat w mod 2 ^ 63) = (2 ^ 63, 32767)" unfolding w by (subst st80_parts_special) (simp_all add: DOUBLE_INF_def)
  from double_to_st80_fields[OF this] show ?thesis by (simp add: store_flags_def)
qed

lemma converted_exact:
  assumes "x87_ready s" "\<And>c. bit c 4 \<Longrightarrow> store_flags p emin infinity c bytes = 0"
    "\<And>mode. store_bits p emin infinity sign mode bytes = v"
  shows "converted p emin infinity sign bytes control s = s\<lparr>x87_c1 := False\<rparr>"
proof -
  have "bit (x87_control s) 4" using assms(1) by (simp add: x87_ready_def masked_bits)
  then have "bit (conversion_control_word (x87_control s) control) 4" by (simp add: conversion_control_word_bits)
  then show ?thesis using assms(2,3) by (simp add: converted_def store_up_def)
qed

end
