(* ===== verification/FloatShow.thy ===== *)
theory FloatShow
  imports St80
begin

text \<open>
  The decimal texts of src/src/bme_core.cpp: \<open>format_float\<close> and \<open>format_float_single\<close>, which the x87 and SSE
  panes and the delta lines show, and what the seed parsers make of them. The shortest decimal of a
  value is fmt's; that it reads back as the value is what fmt documents and a hypothesis here.
\<close>

section \<open>Texts\<close>

record FloatHost =
  float_x87 :: X87
  float_double_text :: "u64 \<Rightarrow> string"
  float_single_text :: "u32 \<Rightarrow> string"

text \<open>\<open>std::isfinite\<close>, and whether a value is a NaN.\<close>

definition isfinite_double :: "u64 \<Rightarrow> bool" where
  "isfinite_double w \<longleftrightarrow> unat w mod 2 ^ 63 < DOUBLE_INF"

definition isfinite_single :: "u32 \<Rightarrow> bool" where
  "isfinite_single f \<longleftrightarrow> unat f mod 2 ^ 31 < FLOAT_INF"

definition isnan_double :: "u64 \<Rightarrow> bool" where
  "isnan_double w \<longleftrightarrow> DOUBLE_INF < unat w mod 2 ^ 63"

definition isnan_single :: "u32 \<Rightarrow> bool" where
  "isnan_single f \<longleftrightarrow> FLOAT_INF < unat f mod 2 ^ 31"

text \<open>\<open>format_float\<close> on the text that fmt gives for a value.\<close>

definition format_float_text :: "bool \<Rightarrow> string \<Rightarrow> string" where
  "format_float_text is_finite text =
     (if CHR ''.'' \<in> set text then text
      else let mantissa = takeWhile (\<lambda>c. c \<noteq> CHR ''e'' \<and> c \<noteq> CHR ''E'') text
           in if mantissa \<noteq> text then mantissa @ ''.0'' @ drop (length mantissa) text
              else if is_finite then text @ ''.0''
              else text)"

definition format_float :: "FloatHost \<Rightarrow> u64 \<Rightarrow> string" where
  "format_float host value = format_float_text (isfinite_double value) (float_double_text host value)"

definition format_float_single :: "FloatHost \<Rightarrow> u32 \<Rightarrow> string" where
  "format_float_single host value = format_float_text (isfinite_single value) (float_single_text host value) @ ''f''"

text \<open>
  The calls of the conversion routines: the value that the host's x87 unit returns. The C++ runtime keeps that unit in
  a ready state, in which they always return.
\<close>

definition st_double :: "FloatHost \<Rightarrow> u8 list \<Rightarrow> u16 \<Rightarrow> u64" where
  "st_double host bytes control = (case st80_to_double bytes control (float_x87 host) of Some (value, _) \<Rightarrow> value | None \<Rightarrow> 0)"

definition st_single :: "FloatHost \<Rightarrow> u8 list \<Rightarrow> u16 \<Rightarrow> u32" where
  "st_single host bytes control = (case st80_to_float bytes control (float_x87 host) of Some (value, _) \<Rightarrow> value | None \<Rightarrow> 0)"

section \<open>Reading a decimal\<close>

definition decimal_char :: "char \<Rightarrow> bool" where
  "decimal_char c \<longleftrightarrow> is_digit_in 10 c \<or> c \<in> set ''.eE+-''"

lemma digit_not_letter: "is_digit_in 10 c \<Longrightarrow> c \<notin> set ''.eE+-iInNfFlL''"
  by (auto simp: is_digit_in_def digit_value_def split: if_splits)

lemma lowercase_digit: "is_digit_in 10 c \<Longrightarrow> lowercase c = c"
  by (auto simp: is_digit_in_def digit_value_def lowercase_def Let_def split: if_splits)

lemma scan_special_head:
  assumes "lowercase c \<noteq> CHR ''i''" "lowercase c \<noteq> CHR ''n''"
  shows "scan_special infinity nan (c # s) = None"
proof -
  have "take (Suc k) (map lowercase (c # s)) \<noteq> CHR ''i'' # t" "take (Suc k) (map lowercase (c # s)) \<noteq> CHR ''n'' # t" for k t
    using assms by simp_all
  from this[of 2] this[of 7] show ?thesis unfolding scan_special_def Let_def by (simp only: if_False numeral_eq_Suc pred_numeral_simps) simp
qed

lemma lowercase_dot: "lowercase (CHR ''.'') = CHR ''.''"
  by code_simp

lemma scan_special_digit: "s \<noteq> [] \<Longrightarrow> is_digit_in 10 (hd s) \<or> hd s = CHR ''.'' \<Longrightarrow> scan_special infinity nan s = None"
  using digit_not_letter by (cases s) (auto simp: lowercase_digit lowercase_dot intro!: scan_special_head)

lemma scan_exponent_cases:
  assumes "scan_exponent s = (x, [])"
  obtains (none) "s = []" "x = 0"
  | (exponent) c t where "s = c # t" "c = CHR ''e'' \<or> c = CHR ''E''" "\<forall>c\<in>set t. decimal_char c" "t \<noteq> []"
      "is_digit_in 10 (last t)"
proof (cases s)
  case Nil
  then show thesis using assms none by (simp add: scan_exponent_def)
next
  case (Cons c t)
  let ?u = "if t \<noteq> [] \<and> (hd t = CHR ''-'' \<or> hd t = CHR ''+'') then tl t else t"
  have c: "c = CHR ''e'' \<or> c = CHR ''E''" and u: "takeWhile (is_digit_in 10) ?u \<noteq> []" "dropWhile (is_digit_in 10) ?u = []"
    using assms Cons by (auto simp: scan_exponent_def Let_def split: if_splits)
  then have "\<forall>c\<in>set ?u. is_digit_in 10 c" "?u \<noteq> []" by auto
  then have "\<forall>c\<in>set t. decimal_char c" "t \<noteq> []" "is_digit_in 10 (last t)"
    by (cases t; auto simp: decimal_char_def split: if_splits)+
  then show thesis using exponent[OF Cons c] by blast
qed

lemma scan_exponent_chars: "scan_exponent s = (x, []) \<Longrightarrow> \<forall>c\<in>set s. decimal_char c"
  by (auto elim!: scan_exponent_cases simp: decimal_char_def)

lemma scan_decimal_split:
  assumes "scan_decimal s = Some (v, x, [])"
  obtains whole fraction rest y where "s = whole @ fraction @ rest" "\<forall>c\<in>set whole. is_digit_in 10 c"
    "\<forall>c\<in>set fraction. is_digit_in 10 c \<or> c = CHR ''.''" "whole @ fraction \<noteq> []" "scan_exponent rest = (y, [])"
proof -
  let ?whole = "takeWhile (is_digit_in 10) s" and ?s1 = "dropWhile (is_digit_in 10) s"
  have s: "s = ?whole @ ?s1" by simp
  have whole: "\<forall>c\<in>set ?whole. is_digit_in 10 c" by (auto dest: set_takeWhileD)
  show thesis
  proof (cases "?s1 \<noteq> [] \<and> hd ?s1 = CHR ''.''")
    case True
    let ?fraction = "takeWhile (is_digit_in 10) (tl ?s1)" and ?s2 = "dropWhile (is_digit_in 10) (tl ?s1)"
    have "?s1 = CHR ''.'' # ?fraction @ ?s2" using True by (cases ?s1) simp_all
    moreover obtain y where "scan_exponent ?s2 = (y, [])"
      using assms True unfolding scan_decimal_def Let_def by (auto split: if_splits prod.splits)
    ultimately show thesis
      using s whole by (intro that[of ?whole "CHR ''.'' # ?fraction" ?s2 y]) (auto dest: set_takeWhileD)
  next
    case False
    obtain y where "scan_exponent ?s1 = (y, [])" and "?whole \<noteq> []"
      using assms False unfolding scan_decimal_def Let_def by (auto split: if_splits prod.splits)
    then show thesis using s whole by (intro that[of ?whole "[]" ?s1 y]) simp_all
  qed
qed

lemma scan_decimal_chars:
  assumes "scan_decimal s = Some (v, x, [])"
  shows "s \<noteq> []" "is_digit_in 10 (hd s) \<or> hd s = CHR ''.''" "\<forall>c\<in>set s. decimal_char c"
proof -
  obtain whole fraction rest y where s: "s = whole @ fraction @ rest" "\<forall>c\<in>set whole. is_digit_in 10 c"
    "\<forall>c\<in>set fraction. is_digit_in 10 c \<or> c = CHR ''.''" "whole @ fraction \<noteq> []" "scan_exponent rest = (y, [])"
    by (rule scan_decimal_split[OF assms])
  show "\<forall>c\<in>set s. decimal_char c" using s scan_exponent_chars[OF s(5)] by (auto simp: decimal_char_def)
  show "s \<noteq> []" using s by auto
  show "is_digit_in 10 (hd s) \<or> hd s = CHR ''.''"
    using s(2-4) unfolding s(1) by (cases whole; cases fraction) auto
qed

text \<open>An integer significand with \<open>.0\<close> added has the same value.\<close>

lemma scan_decimal_point:
  assumes "scan_decimal s = Some (v, x, [])" "CHR ''.'' \<notin> set s"
  defines "whole \<equiv> takeWhile (is_digit_in 10) s" and "rest \<equiv> dropWhile (is_digit_in 10) s"
  shows "scan_decimal (whole @ ''.0'' @ rest) = Some (10 * v, x - 1, [])"
    "takeWhile (\<lambda>c. c \<noteq> CHR ''e'' \<and> c \<noteq> CHR ''E'') s = whole" "whole \<noteq> []" "\<forall>c\<in>set whole. is_digit_in 10 c"
proof -
  have s: "s = whole @ rest" by (simp add: whole_def rest_def)
  have nodot: "\<not> (rest \<noteq> [] \<and> hd rest = CHR ''.'')" using assms(2) s by (cases rest) auto
  have parts: "whole \<noteq> []" "v = digits_value 10 whole 0" "scan_exponent rest = (x, [])"
    using assms(1) nodot unfolding scan_decimal_def Let_def whole_def[symmetric] rest_def[symmetric]
    by (auto split: if_splits prod.splits)
  show digits: "\<forall>c\<in>set whole. is_digit_in 10 c" by (auto simp: whole_def dest: set_takeWhileD)
  have rest: "rest = [] \<or> (hd rest = CHR ''e'' \<or> hd rest = CHR ''E'')"
    using parts(3) by (auto elim!: scan_exponent_cases)
  then have nodigit: "rest = [] \<or> \<not> is_digit_in 10 (hd rest)" using digit_not_letter by fastforce
  have plain: "\<not> is_digit_in 10 (CHR ''.'')" "is_digit_in 10 (CHR ''0'')" "digit_value (CHR ''0'') = Some 0" by code_simp+
  have "takeWhile (is_digit_in 10) (whole @ ''.0'' @ rest) = whole"
    "dropWhile (is_digit_in 10) (whole @ ''.0'' @ rest) = ''.0'' @ rest"
    using digits plain(1) by (auto intro!: takeWhile_all_append dropWhile_all_append)
  moreover have "takeWhile (is_digit_in 10) (''0'' @ rest) = ''0''" "dropWhile (is_digit_in 10) (''0'' @ rest) = rest"
    using nodigit plain(2) by (intro takeWhile_all_append dropWhile_all_append; simp)+
  ultimately show "scan_decimal (whole @ ''.0'' @ rest) = Some (10 * v, x - 1, [])"
    using parts plain(3) by (simp add: scan_decimal_def Let_def digits_value_append)
  show "takeWhile (\<lambda>c. c \<noteq> CHR ''e'' \<and> c \<noteq> CHR ''E'') s = whole"
    unfolding s using digits rest digit_not_letter by (intro takeWhile_all_append) fastforce+
  show "whole \<noteq> []" by (rule parts(1))
qed

text \<open>Ten times the digits at one power of ten less round to the same bits.\<close>

lemma round_binary_point:
  assumes "0 < v"
  shows "round_binary p emin (10 * v * 10 ^ nat (x - 1)) (10 ^ nat (- (x - 1))) = round_binary p emin (v * 10 ^ nat x) (10 ^ nat (- x))"
  unfolding round_binary_nearest[where negative = False]
proof (rule round_magnitude_quotient)
  show "10 * v * 10 ^ nat (x - 1) * 10 ^ nat (- x) = v * 10 ^ nat x * 10 ^ nat (- (x - 1))"
  proof (cases "0 < x")
    case True
    then have "nat x = Suc (nat (x - 1))" by simp
    then show ?thesis using True by simp
  next
    case False
    then have "nat (- (x - 1)) = Suc (nat (- x))" by simp
    then show ?thesis using False by simp
  qed
qed (use assms in simp_all)

section \<open>from\_chars on the shown text\<close>

definition sign_text :: "bool \<Rightarrow> string" where
  "sign_text negative = (if negative then ''-'' else [])"

text \<open>What \<open>from_chars\<close> reads from a decimal.\<close>

definition decimal_bits :: "nat \<Rightarrow> int \<Rightarrow> nat \<Rightarrow> int \<Rightarrow> nat" where
  "decimal_bits p emin v x = (if v = 0 then 0 else round_binary p emin (v * 10 ^ nat x) (10 ^ nat (- x)))"

lemma decimal_bits_point: "decimal_bits p emin (10 * v) (x - 1) = decimal_bits p emin v x"
  using round_binary_point[of v p emin x] by (simp add: decimal_bits_def)

lemma from_chars_decimal:
  assumes "scan_decimal s = Some (v, x, [])"
  shows "from_chars_binary p emin infinity nan sign (sign_text negative @ s)
    = (let bits = decimal_bits p emin v x
       in if v \<noteq> 0 \<and> (bits = 0 \<or> infinity \<le> bits) then Inl result_out_of_range
          else Inr ((if negative then sign else 0) + bits, []))"
proof -
  note shape = scan_decimal_chars[OF assms]
  have "scan_special infinity nan s = None" by (rule scan_special_digit[OF shape(1,2)])
  moreover have "hd s \<noteq> CHR ''-''" using shape(2) digit_not_letter by fastforce
  ultimately show ?thesis
    using assms shape(1) by (simp add: from_chars_binary_def sign_text_def decimal_bits_def Let_def)
qed

lemma from_chars_cases:
  assumes "from_chars_binary p emin infinity nan sign t = Inr (bits, [])"
  obtains (decimal) negative s v x where "t = sign_text negative @ s" "scan_decimal s = Some (v, x, [])"
  | (special) negative s b where "t = sign_text negative @ s" "scan_special infinity nan s = Some (b, [])"
      "bits = (if negative then sign else 0) + b"
proof -
  define negative where "negative \<longleftrightarrow> t \<noteq> [] \<and> hd t = CHR ''-''"
  define s where "s = (if negative then tl t else t)"
  have t: "t = sign_text negative @ s" by (cases t) (auto simp: negative_def s_def sign_text_def)
  show thesis
  proof (cases "scan_special infinity nan s")
    case None
    then obtain v x where "scan_decimal s = Some (v, x, [])"
      using assms unfolding from_chars_binary_def Let_def negative_def[symmetric] s_def[symmetric]
      by (auto split: option.splits if_splits prod.splits)
    then show thesis by (rule decimal[OF t])
  next
    case (Some r)
    then have "snd r = []" "bits = (if negative then sign else 0) + fst r"
      using assms unfolding from_chars_binary_def Let_def negative_def[symmetric] s_def[symmetric]
      by (auto split: prod.splits if_splits)
    then show thesis using special[OF t, of "fst r"] Some by (cases r) simp
  qed
qed

text \<open>The shown text of a decimal is a decimal with a point and the same bits.\<close>

lemma format_float_decimal:
  assumes "t = sign_text negative @ s" "scan_decimal s = Some (v, x, [])"
  obtains s' v' x' where "format_float_text True t = sign_text negative @ s'" "scan_decimal s' = Some (v', x', [])"
    "CHR ''.'' \<in> set s'" "v' = 0 \<longleftrightarrow> v = 0" "decimal_bits p emin v' x' = decimal_bits p emin v x"
proof (cases "CHR ''.'' \<in> set s")
  case True
  then show thesis using assms by (intro that[of s v x]) (simp_all add: format_float_text_def)
next
  case False
  let ?whole = "takeWhile (is_digit_in 10) s" and ?rest = "dropWhile (is_digit_in 10) s"
  let ?m = "\<lambda>c. c \<noteq> CHR ''e'' \<and> c \<noteq> CHR ''E''"
  note point = scan_decimal_point[OF assms(2) False]
  have mantissa: "takeWhile ?m t = sign_text negative @ ?whole" using point(2) by (simp add: assms(1) sign_text_def)
  have t: "t = (sign_text negative @ ?whole) @ ?rest" by (simp add: assms(1))
  have drop: "drop (length (sign_text negative @ ?whole)) t = ?rest" by (subst t) (rule append_eq_conv_conj[THEN iffD1, THEN conjunct2, OF refl, symmetric])
  have "CHR ''.'' \<notin> set t" using False by (simp add: assms(1) sign_text_def)
  then have "format_float_text True t = sign_text negative @ ?whole @ ''.0'' @ ?rest"
    unfolding format_float_text_def Let_def mantissa drop using t by (cases "?rest = []") (simp_all del: takeWhile_dropWhile_id dropWhile_Nil_iff)
  then show thesis
    by (rule that[OF _ point(1)]) (simp_all add: decimal_bits_point)
qed

lemma from_chars_shown:
  assumes "from_chars_binary p emin infinity nan sign t = Inr (bits, [])" "t = sign_text negative @ s"
    "scan_decimal s = Some (v, x, [])"
  shows "from_chars_binary p emin infinity nan sign (format_float_text True t) = Inr (bits, [])"
proof -
  obtain s' v' x' where f: "format_float_text True t = sign_text negative @ s'" "scan_decimal s' = Some (v', x', [])"
    "CHR ''.'' \<in> set s'" "v' = 0 \<longleftrightarrow> v = 0" "decimal_bits p emin v' x' = decimal_bits p emin v x"
    by (rule format_float_decimal[OF assms(2,3)])
  show ?thesis using assms(1)
    unfolding assms(2) f(1)[unfolded assms(2)] from_chars_decimal[OF assms(3)] from_chars_decimal[OF f(2)] f(4,5) .
qed

section \<open>The seed parser on a decimal\<close>

lemma decimal_char_letters:
  assumes "decimal_char c"
  shows "c \<notin> set ''iInNfFlL''" "lowercase c \<noteq> CHR ''i''" "lowercase c \<noteq> CHR ''n''"
proof -
  have signs: "\<forall>c\<in>set ''.eE+-''. c \<notin> set ''iInNfFlL'' \<and> lowercase c \<noteq> CHR ''i'' \<and> lowercase c \<noteq> CHR ''n''" by code_simp
  have "c \<notin> set ''iInNfFlL'' \<and> lowercase c \<noteq> CHR ''i'' \<and> lowercase c \<noteq> CHR ''n''"
  proof (cases "is_digit_in 10 c")
    case True
    then show ?thesis using digit_not_letter[OF True] lowercase_digit[OF True] by simp
  next
    case False
    then show ?thesis using assms signs unfolding decimal_char_def by blast
  qed
  then show "c \<notin> set ''iInNfFlL''" "lowercase c \<noteq> CHR ''i''" "lowercase c \<noteq> CHR ''n''" by simp_all
qed

lemma decimal_not_infinity:
  assumes "s \<noteq> []" "\<forall>c\<in>set s. decimal_char c"
  shows "\<not> is_infinity_text (s @ u)" "\<not> ascii_case_insensitive_equal (s @ u) ''nan''"
proof -
  obtain c r where s: "s = c # r" using assms(1) by (cases s) auto
  then have "lowercase c \<noteq> CHR ''i''" "lowercase c \<noteq> CHR ''n''" using assms(2) decimal_char_letters by simp_all
  moreover have "lowercase (CHR ''i'') = CHR ''i''" "lowercase (CHR ''n'') = CHR ''n''" by code_simp+
  ultimately show "\<not> is_infinity_text (s @ u)" "\<not> ascii_case_insensitive_equal (s @ u) ''nan''"
    unfolding s is_infinity_text_def ascii_case_insensitive_equal_def by (simp_all add: list_all2_Cons1 list_all2_Cons2)
qed

lemma strip_sign_decimal:
  assumes "scan_decimal s = Some (v, x, [])"
  shows "strip_sign (sign_text negative @ s @ u) = s @ u"
proof -
  note shape = scan_decimal_chars[OF assms]
  have "hd s \<notin> set ''+-''" using shape(2) digit_not_letter by fastforce
  then show ?thesis using shape(1) by (cases s) (auto simp: strip_sign_def sign_text_def)
qed

lemma parse_decimal_shown:
  assumes "scan_decimal s = Some (v, x, [])"
  shows "parse_decimal_seed (sign_text negative @ s) label
      = (case from_chars_double (sign_text negative @ s) of
           Inr (parsed, []) \<Rightarrow> Inr \<lparr>decimal_value = parsed, is_single = False\<rparr>
         | _ \<Rightarrow> Inl (InvalidDecimalSeed label (sign_text negative @ s)))"
    "parse_decimal_seed (sign_text negative @ s @ ''f'') label
      = (case from_chars_float (sign_text negative @ s) of
           Inr (parsed, []) \<Rightarrow> Inr \<lparr>decimal_value = float_to_double parsed, is_single = True\<rparr>
         | _ \<Rightarrow> Inl (InvalidDecimalSeed label (sign_text negative @ s @ ''f'')))"
proof -
  note shape = scan_decimal_chars[OF assms]
  have last: "last (sign_text negative @ s) \<notin> set ''fFlL''"
    using shape(1,3) decimal_char_letters(1)[of "last s"] by auto
  note strip = strip_sign_decimal[OF assms, where u = "[]", unfolded append_Nil2] strip_sign_decimal[OF assms, of negative "''f''"]
  note plain = decimal_not_infinity[OF shape(1,3), where u = "[]", unfolded append_Nil2] decimal_not_infinity[OF shape(1,3), of "''f''"]
  show "parse_decimal_seed (sign_text negative @ s) label
      = (case from_chars_double (sign_text negative @ s) of
           Inr (parsed, []) \<Rightarrow> Inr \<lparr>decimal_value = parsed, is_single = False\<rparr>
         | _ \<Rightarrow> Inl (InvalidDecimalSeed label (sign_text negative @ s)))"
    using last unfolding parse_decimal_seed_def Let_def strip by (simp add: plain strip)
  show "parse_decimal_seed (sign_text negative @ s @ ''f'') label
      = (case from_chars_float (sign_text negative @ s) of
           Inr (parsed, []) \<Rightarrow> Inr \<lparr>decimal_value = float_to_double parsed, is_single = True\<rparr>
         | _ \<Rightarrow> Inl (InvalidDecimalSeed label (sign_text negative @ s @ ''f'')))"
    unfolding parse_decimal_seed_def Let_def strip by (simp add: plain strip butlast_append)
qed

section \<open>The seed parser on an infinity\<close>

lemma lowercase_i:
  assumes "lowercase c = CHR ''i''"
  shows "c \<in> set ''iInN''"
proof (cases "65 \<le> (of_char c :: nat) \<and> (of_char c :: nat) \<le> 90")
  case True
  then have "(of_char (lowercase c) :: nat) = of_char c + 32" by (simp add: lowercase_def)
  then have "(of_char c :: nat) = of_char (CHR ''I'')" using assms by simp
  then have "c = CHR ''I''" by (simp only: of_char_eq_iff)
  then show ?thesis by simp
next
  case False
  then have "lowercase c = c" unfolding lowercase_def Let_def by (rule if_not_P)
  then show ?thesis using assms by simp
qed

lemma scan_special_infinity:
  assumes "scan_special infinity nan s = Some (b, [])" "b \<noteq> nan"
  shows "b = infinity" "map lowercase s = ''inf'' \<or> map lowercase s = ''infinity''"
proof -
  have "take 8 (map lowercase s) = ''infinity'' \<and> drop 8 s = [] \<or> take 3 (map lowercase s) = ''inf'' \<and> drop 3 s = []"
    and "b = infinity"
    using assms unfolding scan_special_def Let_def by (simp_all split: if_splits)
  then show "b = infinity" "map lowercase s = ''inf'' \<or> map lowercase s = ''infinity''" by auto
qed

lemma infinity_shape:
  assumes "map lowercase s = ''inf'' \<or> map lowercase s = ''infinity''"
  shows "is_infinity_text s" "\<not> is_infinity_text (s @ ''f'')" "s \<noteq> []" "hd s \<in> set ''iInN''"
    "\<forall>c\<in>set s. c \<notin> set ''.eE+-lL''"
proof -
  have low: "\<forall>c\<in>set ''.eE+-lL''. lowercase c \<notin> set ''infity''" "map lowercase ''inf'' = ''inf''"
    "map lowercase ''infinity'' = ''infinity''" by code_simp+
  have eq: "ascii_case_insensitive_equal s r \<longleftrightarrow> map lowercase s = map lowercase r" for s r
    by (auto simp: ascii_case_insensitive_equal_def list_all2_conv_all_nth list_eq_iff_nth_eq)
  have len: "length s = 3 \<or> length s = 8" using assms by (auto dest: arg_cong[of _ _ length])
  show "is_infinity_text s" using assms unfolding is_infinity_text_def eq low .
  show "\<not> is_infinity_text (s @ ''f'')"
  proof
    assume "is_infinity_text (s @ ''f'')"
    then have "length (s @ ''f'') = 3 \<or> length (s @ ''f'') = 8" 
      unfolding is_infinity_text_def eq by (auto dest: arg_cong[of _ _ length])
    then show False using len by auto
  qed
  show ne: "s \<noteq> []" using assms by auto
  then have "lowercase (hd s) = hd (map lowercase s)" by (simp add: hd_map)
  then show "hd s \<in> set ''iInN''" using assms by (intro lowercase_i) auto
  have "\<forall>c\<in>set (map lowercase s). c \<in> set ''infity''" using assms by auto
  then show "\<forall>c\<in>set s. c \<notin> set ''.eE+-lL''" using low(1) by auto
qed

definition infinity_double :: "bool \<Rightarrow> u64" where
  "infinity_double negative = word_of_nat ((if negative then 2 ^ 63 else 0) + DOUBLE_INF)"

lemma parse_decimal_infinity:
  assumes "map lowercase s = ''inf'' \<or> map lowercase s = ''infinity''"
  shows "parse_decimal_seed (sign_text negative @ s) label = Inr \<lparr>decimal_value = infinity_double negative, is_single = False\<rparr>"
    "parse_decimal_seed (sign_text negative @ s @ ''f'') label = Inr \<lparr>decimal_value = infinity_double negative, is_single = True\<rparr>"
    "format_float_text False (sign_text negative @ s) = sign_text negative @ s"
proof -
  note shape = infinity_shape[OF assms(1)]
  have hd: "hd s \<notin> set ''+-''" "last s \<notin> set ''lL''" using shape(3,5) by auto
  have strip: "strip_sign (sign_text negative @ s @ u) = s @ u" for u
    using hd(1) shape(3) by (cases s) (auto simp: strip_sign_def sign_text_def)
  note strip0 = strip[where u = "[]", unfolded append_Nil2]
  have neg: "(hd (sign_text negative @ s) = CHR ''-'') = negative"
    using hd(1) by (auto simp: sign_text_def)
  show "parse_decimal_seed (sign_text negative @ s) label = Inr \<lparr>decimal_value = infinity_double negative, is_single = False\<rparr>"
    using hd(2) shape(3) unfolding parse_decimal_seed_def Let_def strip0 infinity_double_def
    by (simp add: shape(1) strip0 neg)
  have butlast: "butlast (sign_text negative @ s @ ''f'') = sign_text negative @ s" by (simp add: butlast_append)
  show "parse_decimal_seed (sign_text negative @ s @ ''f'') label = Inr \<lparr>decimal_value = infinity_double negative, is_single = True\<rparr>"
    unfolding parse_decimal_seed_def Let_def strip infinity_double_def
    by (simp add: shape(1,3) shape(2)[simplified] strip0 butlast[simplified] neg)
  have "takeWhile (\<lambda>c. c \<noteq> CHR ''e'' \<and> c \<noteq> CHR ''E'') (sign_text negative @ s) = sign_text negative @ s"
    using shape(5) by (auto simp: sign_text_def takeWhile_eq_all_conv)
  moreover have "CHR ''.'' \<notin> set (sign_text negative @ s)" using shape(5) by (auto simp: sign_text_def)
  ultimately show "format_float_text False (sign_text negative @ s) = sign_text negative @ s"
    by (simp add: format_float_text_def)
qed

text \<open>The shown text of a value that is not a NaN, for both formats.\<close>

lemma shown_cases:
  assumes "from_chars_binary p emin infinity nan sign t = Inr (bits, [])" "bits mod sign \<le> infinity"
    "0 < infinity" "infinity < nan" "nan < sign"
  obtains (finite) negative s where "bits mod sign < infinity" "format_float_text True t = sign_text negative @ s"
      "\<exists>v x. scan_decimal s = Some (v, x, [])" "CHR ''.'' \<in> set s"
      "from_chars_binary p emin infinity nan sign (sign_text negative @ s) = Inr (bits, [])"
  | (infinite) negative s where "t = sign_text negative @ s" "map lowercase s = ''inf'' \<or> map lowercase s = ''infinity''"
      "bits = (if negative then sign else 0) + infinity"
  using assms(1)
proof (cases rule: from_chars_cases)
  case (decimal negative s v x)
  let ?b = "decimal_bits p emin v x"
  have b: "?b < infinity" "bits = (if negative then sign else 0) + ?b"
    using assms(1,3) unfolding decimal(1) from_chars_decimal[OF decimal(2)] Let_def
    by (auto split: if_splits simp: decimal_bits_def)
  obtain s' v' x' where f: "format_float_text True t = sign_text negative @ s'" "scan_decimal s' = Some (v', x', [])"
    "CHR ''.'' \<in> set s'" by (rule format_float_decimal[OF decimal])
  have "bits mod sign < infinity" using b assms(4,5) by (cases negative) auto
  moreover have "from_chars_binary p emin infinity nan sign (sign_text negative @ s') = Inr (bits, [])"
    using from_chars_shown[OF assms(1) decimal] by (simp only: f(1))
  ultimately show thesis using finite f by blast
next
  case (special negative s b)
  have "b \<noteq> nan" using special(3) assms(2,4,5) by (cases negative) auto
  from scan_special_infinity[OF special(2) this] show thesis using infinite[OF special(1)] special(3) by blast
qed

lemma shown_double_parses:
  assumes "from_chars_double (float_double_text host w) = Inr (w, [])" "\<not> isnan_double w"
  shows "is_decimal_seed (format_float host w) \<and> format_float host w \<noteq> []
    \<and> parse_decimal_seed (format_float host w) label = Inr \<lparr>decimal_value = w, is_single = False\<rparr>"
proof -
  let ?t = "float_double_text host w" and ?fc = "from_chars_binary 53 (- 1074) DOUBLE_INF DOUBLE_NAN (2 ^ 63)"
  obtain bits where fc: "?fc ?t = Inr (bits, [])" "w = word_of_nat bits"
    using assms(1) unfolding from_chars_double_def by (cases "?fc ?t") auto
  have lim: "0 < DOUBLE_INF" "DOUBLE_INF < DOUBLE_NAN" "DOUBLE_NAN < 2 ^ 63" by (simp_all add: DOUBLE_INF_def DOUBLE_NAN_def)
  have w: "unat w mod 2 ^ 63 = bits mod 2 ^ 63" unfolding fc(2) by (simp add: unsigned_of_nat take_bit_eq_mod mod_mod_cancel)
  have "bits mod 2 ^ 63 \<le> DOUBLE_INF" using assms(2) unfolding isnan_double_def w by simp
  from fc(1) this lim show ?thesis
  proof (cases rule: shown_cases)
    case (finite negative s)
    obtain v x where d: "scan_decimal s = Some (v, x, [])" using finite(3) by blast
    have "from_chars_double (sign_text negative @ s) = Inr (w, [])" using finite(5) fc(2) by (simp add: from_chars_double_def)
    moreover have "isfinite_double w" using finite(1) unfolding isfinite_double_def w .
    ultimately show ?thesis
      using finite(2,4) parse_decimal_shown(1)[OF d, of negative label] by (auto simp: format_float_def is_decimal_seed_def)
  next
    case (infinite negative s)
    have "\<not> isfinite_double w" using infinite(3) unfolding isfinite_double_def w by (auto simp: DOUBLE_INF_def)
    then have "format_float host w = sign_text negative @ s"
      using parse_decimal_infinity(3)[OF infinite(2)] by (simp add: format_float_def infinite(1))
    moreover have "w = infinity_double negative" using infinite(3) fc(2) by (simp add: infinity_double_def)
    ultimately show ?thesis
      using infinity_shape(3,4)[OF infinite(2)] parse_decimal_infinity(1)[OF infinite(2), of negative label]
      by (auto simp: is_decimal_seed_def intro: hd_in_set)
  qed
qed

lemma infinity_double_single:
  "float_to_double (word_of_nat ((if negative then 2 ^ 31 else 0) + FLOAT_INF)) = infinity_double negative"
  by (cases negative) (simp_all add: float_to_double_def infinity_double_def FLOAT_INF_def DOUBLE_INF_def)

lemma shown_single_parses:
  assumes "from_chars_float (float_single_text host f) = Inr (f, [])" "\<not> isnan_single f"
  shows "is_decimal_seed (format_float_single host f) \<and> format_float_single host f \<noteq> []
    \<and> parse_decimal_seed (format_float_single host f) label = Inr \<lparr>decimal_value = float_to_double f, is_single = True\<rparr>"
proof -
  let ?t = "float_single_text host f" and ?fc = "from_chars_binary 24 (- 149) FLOAT_INF FLOAT_NAN (2 ^ 31)"
  obtain bits where fc: "?fc ?t = Inr (bits, [])" "f = word_of_nat bits"
    using assms(1) unfolding from_chars_float_def by (cases "?fc ?t") auto
  have lim: "0 < FLOAT_INF" "FLOAT_INF < FLOAT_NAN" "FLOAT_NAN < 2 ^ 31" by (simp_all add: FLOAT_INF_def FLOAT_NAN_def)
  have f: "unat f mod 2 ^ 31 = bits mod 2 ^ 31" unfolding fc(2) by (simp add: unsigned_of_nat take_bit_eq_mod mod_mod_cancel)
  have "bits mod 2 ^ 31 \<le> FLOAT_INF" using assms(2) unfolding isnan_single_def f by simp
  from fc(1) this lim show ?thesis
  proof (cases rule: shown_cases)
    case (finite negative s)
    obtain v x where d: "scan_decimal s = Some (v, x, [])" using finite(3) by blast
    have "from_chars_float (sign_text negative @ s) = Inr (f, [])" using finite(5) fc(2) by (simp add: from_chars_float_def)
    moreover have "isfinite_single f" using finite(1) unfolding isfinite_single_def f .
    ultimately show ?thesis
      using finite(2,4) parse_decimal_shown(2)[OF d, of negative label] by (auto simp: format_float_single_def is_decimal_seed_def)
  next
    case (infinite negative s)
    have "\<not> isfinite_single f" using infinite(3) unfolding isfinite_single_def f by (auto simp: FLOAT_INF_def)
    then have "format_float_single host f = sign_text negative @ s @ ''f''"
      using parse_decimal_infinity(3)[OF infinite(2)] by (simp add: format_float_single_def infinite(1))
    moreover have "float_to_double f = infinity_double negative"
      unfolding fc(2) infinite(3) by (rule infinity_double_single)
    ultimately show ?thesis
      using infinity_shape(3,4)[OF infinite(2)] parse_decimal_infinity(2)[OF infinite(2), of negative label]
      by (auto simp: is_decimal_seed_def intro: hd_in_set)
  qed
qed

lemma unat_single_sign: "(if 2 ^ 31 \<le> unat f then 2 ^ 31 else 0) + unat f mod 2 ^ 31 = unat f" for f :: u32
proof (cases "2 ^ 31 \<le> unat f")
  case True
  then have "unat f mod 2 ^ 31 = unat f - 2 ^ 31" using unat_lt_2p[of f] by (intro mod_upper_half) simp_all
  then show ?thesis using True by simp
qed simp

text \<open>A double that is loaded into an x87 register and narrowed back is the same double, and a float the same float.\<close>

lemma st80_to_double_widened:
  assumes "x87_ready s" "\<not> isnan_double w"
  shows "st80_to_double (double_to_st80 w) control s = Some (w, s\<lparr>x87_c1 := False\<rparr>)"
proof -
  let ?b = "unat w mod 2 ^ 63"
  have v: "store_bits 53 (- 1074) DOUBLE_INF (2 ^ 63) mode (double_to_st80 w) = unat w" for mode
    using assms(2) by (intro store_double_widened_exact) (simp add: isnan_double_def)
  have "store_flags 53 (- 1074) DOUBLE_INF c (double_to_st80 w) = 0" if "bit c 4" for c
  proof (cases "?b = 0 \<or> ?b = DOUBLE_INF")
    case True
    then show ?thesis by (rule store_flags_widened_special)
  next
    case False
    then show ?thesis using assms(2) that by (intro store_flags_widened_finite) (auto simp: isnan_double_def)
  qed
  from converted_exact[OF assms(1) this v] show ?thesis unfolding st80_to_double_eq[OF assms(1)] v by simp
qed

lemma st80_to_double_nan:
  "x87_ready s \<Longrightarrow> isnan_double w \<Longrightarrow> \<exists>s'. st80_to_double (double_to_st80 w) control s = Some (w OR 0x0008000000000000, s')"
  unfolding isnan_double_def st80_to_double_eq by (simp only: st80_to_double_eq store_double_widened_nan) blast

lemma st80_to_float_widened:
  assumes "x87_ready s" "\<not> isnan_single f"
  shows "st80_to_float (double_to_st80 (float_to_double f)) control s = Some (f, s\<lparr>x87_c1 := False\<rparr>)"
proof -
  have "quiet_magnitude (unat f mod 2 ^ 31) = unat f mod 2 ^ 31"
    using assms(2) by (simp add: quiet_magnitude_def isnan_single_def)
  then have v: "store_bits 24 (- 149) FLOAT_INF (2 ^ 31) mode (double_to_st80 (float_to_double f)) = unat f" for mode
    unfolding store_float_widened by (simp only: unat_single_sign)
  have "store_flags 24 (- 149) FLOAT_INF c (double_to_st80 (float_to_double f)) = 0" if "bit c 4" for c
  proof (cases rule: widened_magnitude_cases[of "unat f mod 2 ^ 31"])
    case zero
    show ?thesis by (rule store_flags_widened_special) (use zero in \<open>simp only: float_to_double_fields simp_thms\<close>)
  next
    case finite
    show ?thesis
      by (rule store_flags_widened_finite[where bits = "unat f mod 2 ^ 31"]) (use finite that in \<open>simp_all only: float_to_double_fields zero_less_numeral\<close>)
  next
    case infinite
    show ?thesis by (rule store_flags_widened_special) (use infinite in \<open>simp only: float_to_double_fields simp_thms\<close>)
  next
    case nan
    then show ?thesis using assms(2) by (simp only: isnan_single_def simp_thms)
  qed
  from converted_exact[OF assms(1) this v] show ?thesis unfolding st80_to_float_eq[OF assms(1)] v by simp
qed

section \<open>Properties\<close>

text \<open>
  C36: the decimals shown in the register panes can be typed into the seed fields: when fmt's text of a value
  that is not a NaN reads back as the value, the shown double seeds an x87 register that shows the same
  double and the low lane of an XMM register with its bits, and the shown float, with its \<open>f\<close>, seeds an x87
  register that narrows to the same float and the low lane of an XMM register with its bits. The host's x87 unit is
  in the state in which the C++ runtime leaves it (exceptions masked, a free register), and the two conversions
  raise no exception and leave it as it was, but for C1.
\<close>

theorem shown_values_reseed:
  assumes "from_chars_double (float_double_text host w) = Inr (w, [])" "\<not> isnan_double w"
    and "from_chars_float (float_single_text host f) = Inr (f, [])" "\<not> isnan_single f" and "x87_ready s"
  shows "compose_st_seed (format_float host w) = Inr (double_to_st80 w)
    \<and> st80_to_double (double_to_st80 w) control s = Some (w, s\<lparr>x87_c1 := False\<rparr>)
    \<and> compose_xmm_seed (format_float host w) = Inr (w, 0)
    \<and> compose_st_seed (format_float_single host f) = Inr (double_to_st80 (float_to_double f))
    \<and> st80_to_float (double_to_st80 (float_to_double f)) control s = Some (f, s\<lparr>x87_c1 := False\<rparr>)
    \<and> compose_xmm_seed (format_float_single host f) = Inr (ucast f, 0)"
proof -
  have "double_to_float (float_to_double f) = f" using assms(4) by (intro double_to_float_widened) (simp add: isnan_single_def)
  then show ?thesis
    using shown_double_parses[OF assms(1,2)] shown_single_parses[OF assms(3,4)] st80_to_float_widened[OF assms(5,4)]
      st80_to_double_widened[OF assms(5,2)]
    by (simp add: compose_st_seed_def compose_xmm_seed_def)
qed

theorem shown_values_reseed_witness:
  "compose_st_seed ''1.0e+1'' = Inr (double_to_st80 0x4024000000000000)
    \<and> compose_xmm_seed ''-2.0f'' = Inr (0xC0000000, 0)"
proof -
  define host where "host = \<lparr>float_x87 = \<lparr>x87_control = 0x037F, x87_flags = 0, x87_c1 = False, x87_stack = []\<rparr>,
    float_double_text = (\<lambda>_. ''1e+1''), float_single_text = (\<lambda>_. ''-2'')\<rparr>"
  have "from_chars_double ''1e+1'' = Inr (0x4024000000000000, [])" "from_chars_float ''-2'' = Inr (0xC0000000, [])"
  proof -
    have scan: "scan_decimal ''1e+1'' = Some (1, 1, [])" "scan_decimal ''2'' = Some (2, 0, [])" by code_simp+
    have "round_binary 53 (- 1074) 10 1 = nat (- 49 - - 1074) * 2 ^ (53 - 1) + 10 * 2 ^ 49"
      "round_binary 24 (- 149) 2 1 = nat (- 22 - - 149) * 2 ^ (24 - 1) + 2 ^ 23"
      unfolding round_binary_nearest[where negative = False]
      by (rule round_magnitude_exact; simp add: in_format_def power_int_def power_one_over)+
    then have "decimal_bits 53 (- 1074) 1 1 = 0x4024000000000000" "decimal_bits 24 (- 149) 2 0 = 0x40000000"
      by (simp_all add: decimal_bits_def)
    then show "from_chars_double ''1e+1'' = Inr (0x4024000000000000, [])" "from_chars_float ''-2'' = Inr (0xC0000000, [])"
      using from_chars_decimal[OF scan(1), of 53 "- 1074" DOUBLE_INF DOUBLE_NAN "2 ^ 63" False]
        from_chars_decimal[OF scan(2), of 24 "- 149" FLOAT_INF FLOAT_NAN "2 ^ 31" True]
      by (simp_all add: from_chars_double_def from_chars_float_def sign_text_def DOUBLE_INF_def FLOAT_INF_def)
  qed
  moreover have "format_float host 0x4024000000000000 = ''1.0e+1''" "format_float_single host 0xC0000000 = ''-2.0f''"
    by (simp_all add: host_def format_float_def format_float_single_def format_float_text_def isfinite_double_def isfinite_single_def DOUBLE_INF_def FLOAT_INF_def)
  moreover have "\<not> isnan_double 0x4024000000000000" "\<not> isnan_single 0xC0000000"
    by (simp_all add: isnan_double_def isnan_single_def DOUBLE_INF_def FLOAT_INF_def)
  ultimately show ?thesis
    using shown_values_reseed[of host "0x4024000000000000" "0xC0000000" "float_x87 host"] by (simp add: host_def x87_ready_def)
qed

end
