(* ===== verification/Quick.thy ===== *)
theory Quick
  imports Navigation TraceJson FloatShow
begin

text \<open>
  The non-interactive output of src/src/bme_core.cpp: \<open>run_quick\<close> with \<open>print_deltas\<close>. What it prints is a
  list of lines, with every delta line kept as a value next to its text; the error lines are values
  with one constructor per source of error. The shortest decimal text of a double (fmt) and the state of
  the host's x87 unit are in the host record (\<open>FloatHost\<close>).
\<close>

section \<open>print\_deltas\<close>

datatype delta =
    GPRDelta nat u64 u64
  | RIPDelta u64 u64
  | RFLAGSDelta u64 u64
  | XMMDelta nat "u64 \<times> u64" "u64 \<times> u64"
  | MXCSRDelta u32 u32
  | STDelta nat "u8 list \<times> u16" "u8 list \<times> u16"
  | ControlWordDelta u16 u16
  | StatusWordDelta u16 u16
  | TagWordDelta u8 u8

definition changed_slots :: "'a list \<Rightarrow> 'a list \<Rightarrow> nat \<Rightarrow> nat list" where
  "changed_slots before after n = filter (\<lambda>i. before ! i \<noteq> after ! i) [0..<n]"

definition register_deltas :: "TrackMask \<Rightarrow> Registers \<Rightarrow> Registers \<Rightarrow> delta list" where
  "register_deltas track before after =
     (if track_gpr track
      then map (\<lambda>i. GPRDelta i (gpr before ! i) (gpr after ! i)) (changed_slots (gpr before) (gpr after) GPR_COUNT) else [])
     @ (if track_rip track \<and> rip before \<noteq> rip after then [RIPDelta (rip before) (rip after)] else [])
     @ (if track_rflags track \<and> rflags before \<noteq> rflags after then [RFLAGSDelta (rflags before) (rflags after)] else [])
     @ (if track_xmm track
        then map (\<lambda>i. XMMDelta i (xmm before ! i) (xmm after ! i)) (changed_slots (xmm before) (xmm after) (length (xmm before)))
          @ (if mxcsr before \<noteq> mxcsr after then [MXCSRDelta (mxcsr before) (mxcsr after)] else [])
        else [])
     @ (if track_x87 track
        then map (\<lambda>i. STDelta i (st before ! i, fpu_control_word before) (st after ! i, fpu_control_word after))
              (changed_slots (st before) (st after) (length (st before)))
          @ (if fpu_control_word before \<noteq> fpu_control_word after
             then [ControlWordDelta (fpu_control_word before) (fpu_control_word after)] else [])
          @ (if fpu_status_word before \<noteq> fpu_status_word after
             then [StatusWordDelta (fpu_status_word before) (fpu_status_word after)] else [])
          @ (if fpu_tag_word_abridged before \<noteq> fpu_tag_word_abridged after
             then [TagWordDelta (fpu_tag_word_abridged before) (fpu_tag_word_abridged after)] else [])
        else [])"

definition delta_row :: "string \<Rightarrow> string \<Rightarrow> string \<Rightarrow> string \<Rightarrow> string" where
  "delta_row label before_text after_text extra =
     ''      '' @ pad_right 6 label @ '' '' @ before_text @ '' -> '' @ after_text @ extra"

definition flag_changes :: "u64 \<Rightarrow> u64 \<Rightarrow> string" where
  "flag_changes before after =
     (let change = (\<lambda>(name, flag). if (before XOR after) AND flag \<noteq> 0
            then '' '' @ (if after AND flag \<noteq> 0 then ''+'' else ''-'') @ name else []);
          changed = concat (map change STATUS_FLAGS) @ change (''RF'', RFLAGS_RESUME_FLAG)
      in if changed = [] then [] else '' ['' @ drop 1 changed @ '']'')"

definition xmm_text :: "u64 \<times> u64 \<Rightarrow> string" where
  "xmm_text value = hex_padded 16 (unat (snd value)) @ '':'' @ hex_padded 16 (unat (fst value))"

definition decoded_extra :: "string list \<Rightarrow> string" where
  "decoded_extra groups = ''  ('' @ join_text '' | '' groups @ '')''"

fun delta_text :: "FloatHost \<Rightarrow> delta \<Rightarrow> string" where
  "delta_text floats (GPRDelta i b a) = delta_row (REG_NAMES ! i) (format_hex64_string b) (format_hex64_string a) []"
| "delta_text floats (RIPDelta b a) = delta_row ''RIP'' (format_hex64_string b) (format_hex64_string a) []"
| "delta_text floats (RFLAGSDelta b a) =
     delta_row ''RFLAGS'' (format_hex64_string b) (format_hex64_string a) (flag_changes b a)"
| "delta_text floats (XMMDelta i b a) = delta_row (''XMM'' @ decimal i) (xmm_text b) (xmm_text a) []"
| "delta_text floats (MXCSRDelta b a) =
     delta_row ''MXCSR'' (''0x'' @ hex_padded 8 (unat b)) (''0x'' @ hex_padded 8 (unat a)) (decoded_extra (decode_mxcsr a))"
| "delta_text floats (STDelta i (b, b_control) (a, a_control)) =
     delta_row (''ST'' @ decimal i) (''0x'' @ hex_bytes [] (rev b)) (''0x'' @ hex_bytes [] (rev a))
       (''  ('' @ format_float floats (st_double floats b b_control) @ '' -> '' @ format_float floats (st_double floats a a_control) @ '')'')"
| "delta_text floats (ControlWordDelta b a) =
     delta_row ''x87CW'' (''0x'' @ hex_padded 4 (unat b)) (''0x'' @ hex_padded 4 (unat a)) (decoded_extra (decode_x87_control_word a))"
| "delta_text floats (StatusWordDelta b a) =
     delta_row ''x87SW'' (''0x'' @ hex_padded 4 (unat b)) (''0x'' @ hex_padded 4 (unat a)) (decoded_extra (decode_x87_status_word a))"
| "delta_text floats (TagWordDelta b a) =
     delta_row ''x87TW'' (''0x'' @ hex_padded 2 (unat b)) (''0x'' @ hex_padded 2 (unat a)) []"

section \<open>History rows\<close>

text \<open>A block of the output: the kind of its row, its first line, and the deltas below.\<close>

type_synonym quick_block = "HistoryRowKind \<times> string \<times> delta list"

definition quick_row_text :: "Trace \<Rightarrow> HistoryRow \<Rightarrow> string" where
  "quick_row_text trace row =
     (let body = pad_right 4 (hex_upper (unat (row_offset row))) @ '' ''
            @ pad_right 24 (hex_bytes '' '' (row_bytes trace row)) @ '' '' @ row_text row;
          reason = (case trace_stop_reason trace of None \<Rightarrow> [] | Some r \<Rightarrow> stop_reason_text r)
      in if row_kind row = Reached then ''+'' @ body
         else if row_kind row = RowFaulted then ''!'' @ body @ ''  ('' @ reason @ '', partial state)''
         else '' '' @ body @ ''  ('' @ (if is_stop_row trace row then reason else ''not reached'') @ '')'')"

text \<open>\<open>trace.execution_events[*row.execution_event_index]\<close>; \<open>None\<close> where the source would be undefined.\<close>

definition row_registers :: "Trace \<Rightarrow> HistoryRow \<Rightarrow> Registers option" where
  "row_registers trace row =
     Option.bind (row_event row) (\<lambda>i. map_option ev_registers (vector_at (trace_execution_events trace) i))"

fun quick_blocks :: "TrackMask \<Rightarrow> Trace \<Rightarrow> Registers \<Rightarrow> HistoryRow list \<Rightarrow> quick_block list option" where
  "quick_blocks track trace previous [] = Some []"
| "quick_blocks track trace previous (row # rows) =
     (let block = (\<lambda>deltas. (row_kind row, quick_row_text trace row, deltas))
      in if row_kind row = Reached
         then Option.bind (row_registers trace row) (\<lambda>registers.
                map_option (Cons (block (register_deltas track previous registers))) (quick_blocks track trace registers rows))
         else if row_kind row = RowFaulted
         then Option.bind (row_registers trace row) (\<lambda>registers.
                map_option (Cons (block (register_deltas track previous registers))) (quick_blocks track trace previous rows))
         else map_option (Cons (block [])) (quick_blocks track trace previous rows))"

section \<open>run\_quick\<close>

datatype quick_error =
    NeedsInput
  | QuickByteText code_error
  | QuickFile input_error
  | QuickSeed seed_message
  | QuickJson json_error
  | QuickEngine "engine_message option"

datatype quick_output =
    QuickFailed "quick_error list"
  | QuickDocument json
  | QuickText "string list"

record QuickHost =
  quick_decoders :: Decoders
  quick_engine :: EngineHost
  quick_run_platform :: "PlatformRunRequest \<Rightarrow> PlatformRunResult"
  quick_open_file :: "string \<Rightarrow> InputFile option"
  quick_versions :: Versions
  quick_os :: platform
  quick_stdout :: JsonSink
  quick_floats :: FloatHost

definition quick_input :: "QuickHost \<Rightarrow> CLI \<Rightarrow> (quick_error, u8 list) result" where
  "quick_input host cli =
     (case (cli_bytes cli, cli_input_file cli) of
        (Some bytes, _) \<Rightarrow> (case parse_code_text bytes of Inl e \<Rightarrow> Inl (QuickByteText e) | Inr code \<Rightarrow> Inr code)
      | (None, Some path) \<Rightarrow>
          (case read_binary_input (quick_open_file host) path of Inl e \<Rightarrow> Inl (QuickFile e) | Inr code \<Rightarrow> Inr code)
      | (None, None) \<Rightarrow> Inl NeedsInput)"

definition quick_trace :: "QuickHost \<Rightarrow> CLI \<Rightarrow> u8 list \<Rightarrow> Registers \<Rightarrow> Trace" where
  "quick_trace host cli decoded seed =
     run_engine (quick_engine host) (quick_run_platform host) decoded seed (cli_max_steps cli) (cli_backend cli)
       (cli_syntax cli) True None"

definition block_lines :: "FloatHost \<Rightarrow> quick_block \<Rightarrow> string list" where
  "block_lines floats block = (case block of (kind, line, deltas) \<Rightarrow> line # map (delta_text floats) deltas)"

definition quick_text :: "QuickHost \<Rightarrow> CLI \<Rightarrow> Trace \<Rightarrow> string list option" where
  "quick_text host cli trace =
     Option.bind (trace_cpu_fingerprint trace) (\<lambda>fingerprint.
     Option.bind (build_history (quick_decoders host) trace (cli_backend cli) (cli_syntax cli)) (\<lambda>history.
     map_option (\<lambda>blocks.
         [''CPU '' @ format_cpu_summary (\<lambda>v. hex_upper (unat v)) (\<lambda>v. hex_padded 16 (unat v)) fingerprint, ''Seed'']
         @ map (delta_text (quick_floats host)) (register_deltas (cli_track cli) default_registers (trace_seed trace))
         @ concat (map (block_lines (quick_floats host)) blocks)
         @ [case trace_message trace of None \<Rightarrow> [] | Some m \<Rightarrow> message_text m])
       (quick_blocks (cli_track cli) trace (trace_seed trace) history)))"

text \<open>The exit status and what was written; \<open>None\<close> where the source would not return normally.\<close>

definition run_quick :: "QuickHost \<Rightarrow> CLI \<Rightarrow> (nat \<times> quick_output) option" where
  "run_quick host cli =
     (case quick_input host cli of
        Inl e \<Rightarrow> Some (1, QuickFailed [e])
      | Inr decoded \<Rightarrow>
          (let (seed, seed_errors) = compose_seed (cli_seed_gpr cli) (cli_seed_flags cli) (cli_seed_xmm cli)
                 (cli_seed_st cli) (cli_seed_env cli) []
           in if seed_errors \<noteq> [] then Some (1, QuickFailed (map QuickSeed seed_errors))
              else let trace = quick_trace host cli decoded seed
                   in if cli_format cli = JsonFormat
                      then map_option (\<lambda>r. case r of
                               Inl e \<Rightarrow> (1, QuickFailed [QuickJson e])
                             | Inr document \<Rightarrow> (if trace_outcome trace = Error then 1 else 0, QuickDocument document))
                             (write_trace_json (quick_versions host) (quick_os host) (quick_decoders host) (quick_stdout host)
                               trace (cli_pretty_json cli))
                      else if trace_outcome trace = Error
                      then Some (1, QuickFailed [QuickEngine (trace_message trace)])
                      else map_option (\<lambda>lines. (0, QuickText lines)) (quick_text host cli trace)))"

section \<open>Deltas carry the whole change\<close>

fun apply_delta :: "Registers \<Rightarrow> delta \<Rightarrow> Registers" where
  "apply_delta r (GPRDelta i b a) = r\<lparr>gpr := (gpr r)[i := a]\<rparr>"
| "apply_delta r (RIPDelta b a) = r\<lparr>rip := a\<rparr>"
| "apply_delta r (RFLAGSDelta b a) = r\<lparr>rflags := a\<rparr>"
| "apply_delta r (XMMDelta i b a) = r\<lparr>xmm := (xmm r)[i := a]\<rparr>"
| "apply_delta r (MXCSRDelta b a) = r\<lparr>mxcsr := a\<rparr>"
| "apply_delta r (STDelta i b a) = r\<lparr>st := (st r)[i := fst a]\<rparr>"
| "apply_delta r (ControlWordDelta b a) = r\<lparr>fpu_control_word := a\<rparr>"
| "apply_delta r (StatusWordDelta b a) = r\<lparr>fpu_status_word := a\<rparr>"
| "apply_delta r (TagWordDelta b a) = r\<lparr>fpu_tag_word_abridged := a\<rparr>"

definition apply_deltas :: "Registers \<Rightarrow> delta list \<Rightarrow> Registers" where
  "apply_deltas r deltas = foldl apply_delta r deltas"

lemma apply_deltas_append [simp]: "apply_deltas r (xs @ ys) = apply_deltas (apply_deltas r xs) ys"
  "apply_deltas r [] = r" "apply_deltas r [d] = apply_delta r d"
  by (simp_all add: apply_deltas_def)

lemma foldl_changed_slots:
  assumes "length before = n" "length after = n"
  shows "foldl (\<lambda>xs i. xs[i := after ! i]) before (changed_slots before after n) = after"
proof -
  have upd: "length (foldl (\<lambda>xs i. xs[i := after ! i]) xs idxs) = length xs"
    "j < length xs \<Longrightarrow> foldl (\<lambda>xs i. xs[i := after ! i]) xs idxs ! j = (if j \<in> set idxs then after ! j else xs ! j)" for xs idxs j
    by (induction idxs arbitrary: xs) (auto simp: nth_list_update)
  show ?thesis using assms by (intro nth_equalityI) (auto simp: upd changed_slots_def)
qed

lemma apply_gpr_deltas: "apply_deltas r (map (\<lambda>i. GPRDelta i (f i) (g i)) idxs) = r\<lparr>gpr := foldl (\<lambda>xs i. xs[i := g i]) (gpr r) idxs\<rparr>"
  and apply_xmm_deltas: "apply_deltas r (map (\<lambda>i. XMMDelta i (f' i) (g' i)) idxs) = r\<lparr>xmm := foldl (\<lambda>xs i. xs[i := g' i]) (xmm r) idxs\<rparr>"
  and apply_st_deltas: "apply_deltas r (map (\<lambda>i. STDelta i (f'' i) (g'' i, c)) idxs) = r\<lparr>st := foldl (\<lambda>xs i. xs[i := g'' i]) (st r) idxs\<rparr>"
  by (induction idxs arbitrary: r) (simp_all add: apply_deltas_def)

text \<open>The registers as far as they are tracked: the groups of the mask from one file, the others from another.\<close>

definition tracked :: "TrackMask \<Rightarrow> Registers \<Rightarrow> Registers \<Rightarrow> Registers" where
  "tracked track base r = base\<lparr>
     gpr := (if track_gpr track then gpr r else gpr base), rip := (if track_rip track then rip r else rip base),
     rflags := (if track_rflags track then rflags r else rflags base),
     xmm := (if track_xmm track then xmm r else xmm base), mxcsr := (if track_xmm track then mxcsr r else mxcsr base),
     st := (if track_x87 track then st r else st base),
     fpu_control_word := (if track_x87 track then fpu_control_word r else fpu_control_word base),
     fpu_status_word := (if track_x87 track then fpu_status_word r else fpu_status_word base),
     fpu_tag_word_abridged := (if track_x87 track then fpu_tag_word_abridged r else fpu_tag_word_abridged base)\<rparr>"

lemma tracked_all [simp]: "tracked track_all base r = r"
  by (simp add: tracked_def track_all_def)

lemma tracked_self [simp]: "tracked track r r = r"
  by (simp add: tracked_def)

text \<open>The deltas of one group, applied to registers that agree with the earlier ones on it.\<close>

lemma apply_gpr_group:
  assumes "wf_registers before" "wf_registers after" "c \<Longrightarrow> gpr r = gpr before"
  shows "apply_deltas r (if c then map (\<lambda>i. GPRDelta i (gpr before ! i) (gpr after ! i)) (changed_slots (gpr before) (gpr after) GPR_COUNT) else [])
    = r\<lparr>gpr := if c then gpr after else gpr r\<rparr>"
  using assms foldl_changed_slots[of "gpr before" GPR_COUNT "gpr after"]
  by (simp add: apply_gpr_deltas wf_registers_def GPR_COUNT_def)

lemma apply_flat_groups:
  "(c \<Longrightarrow> rip r = b) \<Longrightarrow> apply_deltas r (if c \<and> b \<noteq> a then [RIPDelta b a] else []) = r\<lparr>rip := if c then a else rip r\<rparr>"
  "(c \<Longrightarrow> rflags r = b) \<Longrightarrow> apply_deltas r (if c \<and> b \<noteq> a then [RFLAGSDelta b a] else []) = r\<lparr>rflags := if c then a else rflags r\<rparr>"
  by auto

lemma apply_xmm_group:
  assumes "wf_registers before" "wf_registers after" "c \<Longrightarrow> xmm r = xmm before \<and> mxcsr r = mxcsr before"
  shows "apply_deltas r (if c
      then map (\<lambda>i. XMMDelta i (xmm before ! i) (xmm after ! i)) (changed_slots (xmm before) (xmm after) (length (xmm before)))
        @ (if mxcsr before \<noteq> mxcsr after then [MXCSRDelta (mxcsr before) (mxcsr after)] else [])
      else [])
    = r\<lparr>xmm := if c then xmm after else xmm r, mxcsr := if c then mxcsr after else mxcsr r\<rparr>"
proof (cases c)
  case True
  have "foldl (\<lambda>xs i. xs[i := xmm after ! i]) (xmm before) (changed_slots (xmm before) (xmm after) (length (xmm before))) = xmm after"
    using assms(1,2) by (simp add: foldl_changed_slots wf_registers_def)
  then show ?thesis using True assms(3) by (simp add: apply_xmm_deltas)
qed simp

lemma apply_x87_group:
  assumes "wf_registers before" "wf_registers after"
    and "c \<Longrightarrow> st r = st before \<and> fpu_control_word r = fpu_control_word before \<and> fpu_status_word r = fpu_status_word before
      \<and> fpu_tag_word_abridged r = fpu_tag_word_abridged before"
  shows "apply_deltas r (if c
      then map (\<lambda>i. STDelta i (st before ! i, fpu_control_word before) (st after ! i, fpu_control_word after))
            (changed_slots (st before) (st after) (length (st before)))
        @ (if fpu_control_word before \<noteq> fpu_control_word after
           then [ControlWordDelta (fpu_control_word before) (fpu_control_word after)] else [])
        @ (if fpu_status_word before \<noteq> fpu_status_word after
           then [StatusWordDelta (fpu_status_word before) (fpu_status_word after)] else [])
        @ (if fpu_tag_word_abridged before \<noteq> fpu_tag_word_abridged after
           then [TagWordDelta (fpu_tag_word_abridged before) (fpu_tag_word_abridged after)] else [])
      else [])
    = (if c then r\<lparr>st := st after, fpu_control_word := fpu_control_word after, fpu_status_word := fpu_status_word after,
        fpu_tag_word_abridged := fpu_tag_word_abridged after\<rparr> else r)"
proof (cases c)
  case True
  have st: "foldl (\<lambda>xs i. xs[i := st after ! i]) (st before) (changed_slots (st before) (st after) (length (st before))) = st after"
    using assms(1,2) by (simp add: foldl_changed_slots wf_registers_def)
  let ?r = "r\<lparr>st := st after\<rparr>"
  have "apply_deltas ?r (if fpu_control_word before \<noteq> a then [ControlWordDelta (fpu_control_word before) a] else [])
      = ?r\<lparr>fpu_control_word := a\<rparr>" for a using True assms(3) by simp
  moreover have "apply_deltas (?r\<lparr>fpu_control_word := a\<rparr>) (if fpu_status_word before \<noteq> b then [StatusWordDelta (fpu_status_word before) b] else [])
      = ?r\<lparr>fpu_control_word := a, fpu_status_word := b\<rparr>" for a b using True assms(3) by simp
  moreover have "apply_deltas (?r\<lparr>fpu_control_word := a, fpu_status_word := b\<rparr>)
        (if fpu_tag_word_abridged before \<noteq> t then [TagWordDelta (fpu_tag_word_abridged before) t] else [])
      = ?r\<lparr>fpu_control_word := a, fpu_status_word := b, fpu_tag_word_abridged := t\<rparr>" for a b t using True assms(3) by simp
  ultimately show ?thesis using True assms(3) st by (simp only: if_True apply_deltas_append apply_st_deltas)
qed simp

lemma apply_register_deltas:
  assumes "wf_registers before" "wf_registers after"
  shows "apply_deltas (tracked track base before) (register_deltas track before after) = tracked track base after"
  unfolding register_deltas_def apply_deltas_append
  by (subst apply_gpr_group[OF assms], simp add: tracked_def, subst apply_flat_groups(1), simp add: tracked_def,
    subst apply_flat_groups(2), simp add: tracked_def, subst apply_xmm_group[OF assms], simp add: tracked_def,
    subst apply_x87_group[OF assms], simp add: tracked_def) (simp add: tracked_def)

text \<open>Replaying the blocks: the registers shown at each event row, in order.\<close>

fun replay :: "Registers \<Rightarrow> quick_block list \<Rightarrow> Registers list" where
  "replay r [] = []"
| "replay r ((kind, line, deltas) # blocks) =
     (if kind = Reached then apply_deltas r deltas # replay (apply_deltas r deltas) blocks
      else if kind = RowFaulted then apply_deltas r deltas # replay r blocks
      else replay r blocks)"

lemma row_registers_event:
  "row_event row = Some i \<Longrightarrow> i < length (trace_execution_events trace)
   \<Longrightarrow> row_registers trace row = Some (ev_registers (trace_execution_events trace ! i))"
  by (simp add: row_registers_def vector_at_def)

lemma quick_blocks_replay:
  assumes "\<And>row. row \<in> set rows \<Longrightarrow> executed_row row \<Longrightarrow> \<exists>i<length (trace_execution_events trace). row_event row = Some i"
    and "wf_registers previous" "\<forall>e\<in>set (trace_execution_events trace). wf_registers (ev_registers e)"
  shows "\<exists>blocks. quick_blocks track trace previous rows = Some blocks
    \<and> replay (tracked track base previous) blocks
        = map (\<lambda>row. tracked track base (ev_registers (trace_execution_events trace ! the (row_event row)))) (filter executed_row rows)"
  using assms(1,2)
proof (induction rows arbitrary: previous)
  case (Cons row rows)
  let ?shown = "map (\<lambda>row. tracked track base (ev_registers (trace_execution_events trace ! the (row_event row)))) (filter executed_row rows)"
  have IH: "\<exists>blocks. quick_blocks track trace p rows = Some blocks \<and> replay (tracked track base p) blocks = ?shown"
    if "wf_registers p" for p
    using Cons.IH[OF _ that] Cons.prems(1) by (metis list.set_intros(2))
  show ?case
  proof (cases "executed_row row")
    case False
    then have "row_kind row \<noteq> Reached" "row_kind row \<noteq> RowFaulted" by (simp_all add: executed_row_def)
    then show ?thesis using IH[OF Cons.prems(2)] False by (auto simp: Let_def)
  next
    case True
    obtain i where i: "i < length (trace_execution_events trace)" "row_event row = Some i"
      using Cons.prems(1)[of row] True by auto
    let ?r = "ev_registers (trace_execution_events trace ! i)"
    have wf: "wf_registers ?r" using assms(3) i(1) by simp
    let ?next = "if row_kind row = Reached then ?r else previous"
    have "wf_registers ?next" using wf Cons.prems(2) by simp
    from IH[OF this] obtain blocks where b: "quick_blocks track trace ?next rows = Some blocks" "replay (tracked track base ?next) blocks = ?shown"
      by blast
    have kind: "row_kind row = Reached \<or> row_kind row = RowFaulted" using True by (simp add: executed_row_def)
    show ?thesis
      using b i kind apply_register_deltas[OF Cons.prems(2) wf] row_registers_event[OF i(2,1)] True by (auto simp: Let_def)
  qed
qed simp

lemma executed_rows_inside:
  assumes "build_history decoders trace backend syn = Some rows" "plain_trace trace"
  shows "map (\<lambda>row. trace_execution_events trace ! the (row_event row)) (filter executed_row rows) = inside_events trace"
proof -
  let ?events = "trace_execution_events trace"
  let ?present = "present 0 (map (\<lambda>e. if inside_input trace e then Some e else None) ?events)"
  have "filter executed_row rows = filter (\<lambda>row. row_event row \<noteq> None) rows"
    using executed_row_event[OF assms] by (auto intro: filter_cong)
  then have "map (\<lambda>row. ?events ! the (row_event row)) (filter executed_row rows)
      = map (\<lambda>x. ?events ! fst x) (map (\<lambda>row. (the (row_event row), row_rip row, row_kind row)) (filter (\<lambda>row. row_event row \<noteq> None) rows))"
    by (simp add: comp_def)
  also have "\<dots> = map (\<lambda>(i, e). ?events ! i) ?present"
    using assms(2) unfolding plain_trace_def
    by (subst build_history_event_rows[OF assms(1)]) (auto simp: comp_def split_beta)
  also have "\<dots> = map snd ?present" by (rule map_cong) (auto simp: present_nth)
  finally show ?thesis by (simp add: inside_events_def present_filter)
qed

section \<open>The output is defined\<close>

lemma quick_blocks_some:
  assumes "\<And>row. row \<in> set rows \<Longrightarrow> executed_row row \<Longrightarrow> \<exists>i<length (trace_execution_events trace). row_event row = Some i"
  shows "\<exists>blocks. quick_blocks track trace previous rows = Some blocks"
  using assms
proof (induction rows arbitrary: previous)
  case (Cons row rows)
  have more: "\<exists>blocks. quick_blocks track trace p rows = Some blocks" for p using Cons by simp
  show ?case
  proof (cases "executed_row row")
    case True
    then obtain i where "i < length (trace_execution_events trace)" "row_event row = Some i" using Cons.prems[of row] by auto
    then obtain r where "row_registers trace row = Some r" using row_registers_event by blast
    then show ?thesis using more[of r] more[of previous] by (auto simp: Let_def)
  next
    case False
    then show ?thesis using more[of previous] by (auto simp: Let_def executed_row_def)
  qed
qed simp

lemma quick_text_defined:
  assumes "length (trace_code trace) < 2 ^ 63" "trace_cpu_fingerprint trace = Some fp"
  shows "\<exists>lines. quick_text host cli trace = Some lines"
proof -
  obtain rows where rows: "build_history (quick_decoders host) trace (cli_backend cli) (cli_syntax cli) = Some rows"
    using build_history_total[OF length_code[OF assms(1)]] by blast
  have "\<exists>i<length (trace_execution_events trace). row_event row = Some i" if "row \<in> set rows" "executed_row row" for row
  proof (cases "plain_trace trace")
    case True
    then show ?thesis using executed_row_event[OF rows True that(1)] event_row[OF rows True that(1)] that(2) by auto
  next
    case False
    then have "rows = []"
      using rows build_history_wrapped[OF _ length_code[OF assms(1)], of "quick_decoders host" "cli_backend cli" "cli_syntax cli"]
      by (auto simp: plain_trace_def build_history_def not_less)
    then show ?thesis using that(1) by simp
  qed
  from quick_blocks_some[OF this] show ?thesis using rows assms(2) by (fastforce simp: quick_text_def)
qed

lemma fingerprint_run_engine [simp]:
  "trace_cpu_fingerprint (run_engine host run code seed max_steps backend syn pointers stop_offset) = host_cpu_fingerprint host"
  by (simp add: run_engine_def describe_stop_def default_trace_def Let_def split: option.split Outcome.split)

lemma quick_input_fits:
  assumes "quick_input host cli = Inr code" "cli_text_fits cli"
  shows "length code < 2 ^ 63"
proof -
  have "length code < 2 ^ 63" if "read_binary_input f p = Inr code" for f p
    using read_binary_input_length[OF that] by (simp add: MAX_RAW_FILE_BYTES_def MAX_STEPS_LIMIT_def)
  then show ?thesis
    using assms decoded_fits(2) by (auto simp: quick_input_def cli_text_fits_def split: option.splits sum.splits)
qed

section \<open>Exit status\<close>

text \<open>
  The exit status of \<open>--quick\<close> with text output. For an accepted command line on a host with a CPU
  fingerprint, \<open>run_quick\<close> returns 0 exactly if the input decodes to bytes and the run does not end in an
  error, and then prints the report; otherwise it returns 1 with a single error, which is never one of
  the seeds.
\<close>

lemma quick_exit_status:
  assumes "cli_ok cli" "cli_text_fits cli" "cli_format cli = TextFormat" "host_cpu_fingerprint (quick_engine host) = Some fp"
  defines "seed \<equiv> seed_registers (cli_seed_gpr cli) (cli_seed_flags cli) (cli_seed_xmm cli) (cli_seed_st cli) (cli_seed_env cli)"
  shows "if \<exists>code. quick_input host cli = Inr code \<and> trace_outcome (quick_trace host cli code seed) \<noteq> Error
    then \<exists>lines. run_quick host cli = Some (0, QuickText lines)
    else \<exists>e. run_quick host cli = Some (1, QuickFailed [e]) \<and> e \<notin> range QuickSeed"
proof -
  have "seed_messages (cli_seed_gpr cli) (cli_seed_xmm cli) (cli_seed_st cli) (cli_seed_env cli) = []"
    using assms(1) by (simp add: cli_ok_def seed_messages_ok)
  then have seeds: "compose_seed (cli_seed_gpr cli) (cli_seed_flags cli) (cli_seed_xmm cli) (cli_seed_st cli) (cli_seed_env cli) [] = (seed, [])"
    by (simp add: compose_seed_eq seed_def)
  show ?thesis
  proof (cases "quick_input host cli")
    case (Inl e)
    then have "e \<notin> range QuickSeed" by (auto simp: quick_input_def split: option.splits sum.splits)
    then show ?thesis using Inl by (simp add: run_quick_def)
  next
    case (Inr code)
    have "\<exists>lines. quick_text host cli (quick_trace host cli code seed) = Some lines"
      using quick_input_fits[OF Inr assms(2)] assms(4) by (intro quick_text_defined) (simp_all add: quick_trace_def)
    then show ?thesis using Inr assms(3) by (auto simp: run_quick_def seeds Let_def)
  qed
qed

section \<open>Properties\<close>

text \<open>
  C12: the text output carries the tracked part of the execution. Whatever \<open>--track\<close> selects, the report has the
  deltas of the seed followed by the rows with their deltas; applied to the zeroed registers, the former give the seed
  in the tracked groups, and applying the latter in order gives, at each executed row, the tracked groups of the
  registers of the next event inside the input. Groups that are not tracked stay as they were.
\<close>

theorem quick_deltas_replay:
  assumes "build_history (quick_decoders host) trace (cli_backend cli) (cli_syntax cli) = Some rows" "plain_trace trace"
    and "trace_cpu_fingerprint trace = Some fingerprint"
    and "wf_registers (trace_seed trace)" "\<forall>e\<in>set (trace_execution_events trace). wf_registers (ev_registers e)"
  shows "let seed_deltas = register_deltas (cli_track cli) default_registers (trace_seed trace);
       replayed_seed = apply_deltas default_registers seed_deltas
     in replayed_seed = tracked (cli_track cli) default_registers (trace_seed trace)
       \<and> (\<exists>header blocks message. quick_blocks (cli_track cli) trace (trace_seed trace) rows = Some blocks
            \<and> quick_text host cli trace = Some (header @ map (delta_text (quick_floats host)) seed_deltas
                @ concat (map (block_lines (quick_floats host)) blocks) @ [message])
            \<and> replay replayed_seed blocks = map (tracked (cli_track cli) default_registers \<circ> ev_registers) (inside_events trace))"
proof -
  let ?track = "cli_track cli" and ?events = "trace_execution_events trace"
  let ?deltas = "register_deltas (cli_track cli) default_registers (trace_seed trace)"
  have "\<exists>i<length ?events. row_event row = Some i" if "row \<in> set rows" "executed_row row" for row
    using executed_row_event[OF assms(1,2) that(1)] event_row[OF assms(1,2) that(1)] that(2) by auto
  from quick_blocks_replay[OF this assms(4,5), of rows ?track default_registers] obtain blocks where
    blocks: "quick_blocks ?track trace (trace_seed trace) rows = Some blocks"
    and replay: "replay (tracked ?track default_registers (trace_seed trace)) blocks
      = map (tracked ?track default_registers \<circ> ev_registers) (map (\<lambda>row. ?events ! the (row_event row)) (filter executed_row rows))"
    by (auto simp: comp_def)
  have "wf_registers default_registers" by (simp add: wf_registers_def default_registers_def)
  from apply_register_deltas[OF this assms(4), of ?track default_registers]
  have seed: "apply_deltas default_registers ?deltas = tracked ?track default_registers (trace_seed trace)" by simp
  show ?thesis
    unfolding Let_def seed using assms(1,3) blocks replay executed_rows_inside[OF assms(1,2)]
    by (auto simp: quick_text_def intro!: exI[of _ "[_, _]"])
qed

section \<open>Example\<close>

definition example_quick_host :: QuickHost where
  "example_quick_host =
     \<lparr>quick_decoders = example_decoders,
      quick_engine = \<lparr>host_cpu_fingerprint = Some default_fingerprint, host_page_size = 0x1000, host_granularity = 0x1000\<rparr>,
      quick_run_platform = (\<lambda>_. default_result), quick_open_file = (\<lambda>_. None),
      quick_versions = \<lparr>BME_GIT_TAG = [], BME_GIT_HASH = [], BME_GIT_URL = [], BME_GLAZE_VERSION = [], BME_GLAZE_REVISION = [],
        BME_ZYDIS_VERSION = [], BME_ZYDIS_REVISION = [], BME_BDDISASM_VERSION = [], BME_BDDISASM_REVISION = [],
        BME_CAPSTONE_VERSION = [], BME_CAPSTONE_REVISION = [], BME_XED_VERSION = [], BME_XED_REVISION = []\<rparr>,
      quick_os = LinuxPlatform,
      quick_stdout = \<lparr>sink_write = (\<lambda>_ _. WriteOk), sink_buffer_good = True, sink_flush = WriteOk, sink_good = True\<rparr>,
      quick_floats = \<lparr>float_x87 = \<lparr>x87_control = 0x037F, x87_flags = 0, x87_c1 = False, x87_stack = []\<rparr>, float_double_text = (\<lambda>_. ''0''), float_single_text = (\<lambda>_. ''0'')\<rparr>\<rparr>"

theorem quick_deltas_replay_witness:
  "\<exists>rows blocks. quick_blocks track_all (example_trace\<lparr>trace_cpu_fingerprint := Some default_fingerprint\<rparr>) (trace_seed example_trace) rows = Some blocks
     \<and> replay (trace_seed example_trace) blocks = [default_registers, default_registers]"
proof -
  let ?trace = "example_trace\<lparr>trace_cpu_fingerprint := Some default_fingerprint\<rparr>" and ?cli = "default_cli\<lparr>cli_track := track_all\<rparr>"
  obtain rows where rows: "build_history (quick_decoders example_quick_host) ?trace (cli_backend ?cli) (cli_syntax ?cli) = Some rows"
    using build_history_total[of ?trace] by (force simp: example_trace_def)
  have "plain_trace ?trace" "wf_registers (trace_seed ?trace)" "\<forall>e\<in>set (trace_execution_events ?trace). wf_registers (ev_registers e)"
    using example_plain example_trace_json(2,3) by (simp_all add: plain_trace_def)
  moreover have "map ev_registers (inside_events ?trace) = [default_registers, default_registers]"
    using example_inside by (simp add: inside_events_def inside_input_def example_trace_def)
  ultimately show ?thesis
    using quick_deltas_replay[OF rows, of default_fingerprint] by (intro exI[of _ rows]) (auto simp: Let_def comp_def)
qed

end
