(* ===== verification/Panels.thy ===== *)
theory Panels
  imports Tui FloatShow "HOL-Library.Multiset"
begin

text \<open>
  What \<open>run_tui\<close> of src/src/bme_core.cpp draws: the three register panes, the flags, the History entries and
  the surrounding layout, as rows of cells. A drawing also fills the vectors of clickable regions; a cell
  that is reflected into such a vector names the position of its entry. Where FTXUI places a cell on
  the screen is not modelled: the mouse handlers take as argument which regions contain the pointer.
\<close>

section \<open>Cells\<close>

datatype style = Plain | Bold | Dim | Highlight | SetFlag | Underlined | Warning

datatype seed_field =
    GPRField nat gpr_slice
  | XMMField nat
  | MXCSRField
  | STField nat
  | ControlWordField

text \<open>
  \<open>ClickTarget\<close> and \<open>CopyTarget\<close> are cells reflected into the box of the given entry of the pane's own hit vector
  and of \<open>copy_hits\<close>.
\<close>

datatype cell =
    EmptyCell
  | TextCell style string
  | SeedCell seed_field
  | ClickTarget nat cell
  | CopyTarget nat cell
  | RowCell "cell list"

record CopyHit =
  hit_text :: string
  hit_normalized :: "string option"

record 'h Panel =
  panel_rows :: "cell list list"
  panel_hits :: "'h list"
  panel_copies :: "CopyHit list"

definition copy_cell :: "cell \<Rightarrow> string \<Rightarrow> string option \<Rightarrow> 'h Panel \<Rightarrow> cell \<times> 'h Panel" where
  "copy_cell cell text normalized panel =
     (CopyTarget (length (panel_copies panel)) cell,
      panel\<lparr>panel_copies := panel_copies panel @ [\<lparr>hit_text = text, hit_normalized = normalized\<rparr>]\<rparr>)"

definition click_cell :: "cell \<Rightarrow> 'h \<Rightarrow> 'h Panel \<Rightarrow> cell \<times> 'h Panel" where
  "click_cell cell hit panel =
     (ClickTarget (length (panel_hits panel)) cell, panel\<lparr>panel_hits := panel_hits panel @ [hit]\<rparr>)"

definition add_row :: "cell list \<Rightarrow> 'h Panel \<Rightarrow> 'h Panel" where
  "add_row row panel = panel\<lparr>panel_rows := panel_rows panel @ [row]\<rparr>"

definition start_panel :: "string list \<Rightarrow> 'h Panel" where
  "start_panel header = \<lparr>panel_rows = [map (TextCell Dim) header], panel_hits = [], panel_copies = []\<rparr>"

definition has_trace :: "UI \<Rightarrow> bool" where
  "has_trace ui \<longleftrightarrow> ui_history_rows ui \<noteq> []"

definition current_registers :: "UI \<Rightarrow> Registers" where
  "current_registers ui = history_state_at ui (nat (ui_cursor ui))"

definition previous_registers :: "UI \<Rightarrow> Registers" where
  "previous_registers ui =
     (let position = nat (ui_cursor ui) in history_state_at ui (if position = 0 then 0 else position - 1))"

definition value_style :: "bool \<Rightarrow> style" where
  "value_style changed = (if changed then Highlight else Dim)"

section \<open>General-purpose registers\<close>

definition REGISTER_DISPLAY_ORDER :: "Reg list" where
  "REGISTER_DISPLAY_ORDER = [RIP, RAX, RBX, RCX, RDX, RSI, RDI, RBP, RSP, R8, R9, R10, R11, R12, R13, R14, R15, RFLAGS]"

definition flat_reg :: "Reg \<Rightarrow> bool" where
  "flat_reg reg \<longleftrightarrow> reg = RIP \<or> reg = RSP \<or> reg = RFLAGS"

definition shown_address :: "TuiHost \<Rightarrow> UI \<Rightarrow> u64 \<Rightarrow> bool \<Rightarrow> string" where
  "shown_address host ui value normalized =
     address_text (format_address_value (host_granularity (tui_engine host)) (host_page_size (tui_engine host))
       (ui_trace ui) value normalized)"

text \<open>The second copy text of an address cell: its normalised form, unless that is the same text.\<close>

definition normalized_copy :: "TuiHost \<Rightarrow> UI \<Rightarrow> u64 \<Rightarrow> string \<Rightarrow> string option" where
  "normalized_copy host ui value copy_text =
     (let text = shown_address host ui value True in if text = copy_text then None else Some text)"

definition flat_row :: "TuiHost \<Rightarrow> UI \<Rightarrow> Reg \<Rightarrow> (nat \<times> nat) Panel \<Rightarrow> (nat \<times> nat) Panel" where
  "flat_row host ui reg panel =
     (let value = reg_get (current_registers ui) reg;
          name = TextCell Bold (''  '' @ REG_NAMES ! reg_index reg);
          copy_text = (if has_trace ui then format_hex64_string value else ''-'');
          text = (if has_trace ui
                  then (if reg = RFLAGS then copy_text else shown_address host ui value (ui_normalized_addresses ui))
                  else ''-'');
          val = TextCell (value_style (has_trace ui \<and> value \<noteq> reg_get (previous_registers ui) reg)) text;
          normalized = (if has_trace ui \<and> reg \<noteq> RFLAGS then normalized_copy host ui value copy_text else None);
          (cell, panel) = (if has_trace ui then copy_cell val copy_text normalized panel else (val, panel))
      in add_row [EmptyCell, name, cell] panel)"

text \<open>The lambda \<open>emit\<close>: one node of the tree of a register.\<close>

definition emit ::
  "TuiHost \<Rightarrow> UI \<Rightarrow> nat \<Rightarrow> nat \<Rightarrow> string \<Rightarrow> u64 \<Rightarrow> u64 \<Rightarrow> nat \<Rightarrow> gpr_slice \<Rightarrow> (nat \<times> nat) Panel \<Rightarrow> (nat \<times> nat) Panel" where
  "emit host ui i level sub_name value prev_value hex_digits slc panel =
     (let marker = (if level < 3 then (if ui_gpr_depth ui ! i > level then ''v '' else ''> '') else ''  '');
          name = TextCell Bold (replicate (level * 2) (CHR '' '') @ marker @ sub_name);
          (name, panel) = (if level < 3 then click_cell name (i, level) panel else (name, panel));
          copy_text = (if has_trace ui then ''0x'' @ hex_padded hex_digits (unat value) else ''-'');
          text = (if has_trace ui
                  then (if level = 0 then shown_address host ui value (ui_normalized_addresses ui) else copy_text)
                  else ''-'');
          val = TextCell (value_style (has_trace ui \<and> value \<noteq> prev_value)) text;
          normalized = (if has_trace ui \<and> level = 0 then normalized_copy host ui value copy_text else None);
          (cell, panel) = (if has_trace ui then copy_cell val copy_text normalized panel else (val, panel))
      in add_row [SeedCell (GPRField i slc), name, cell] panel)"

definition tree_rows :: "TuiHost \<Rightarrow> UI \<Rightarrow> Reg \<Rightarrow> (nat \<times> nat) Panel \<Rightarrow> (nat \<times> nat) Panel" where
  "tree_rows host ui reg panel =
     (let i = reg_index reg;
          depth = ui_gpr_depth ui ! i;
          value = reg_get (current_registers ui) reg;
          prev = reg_get (previous_registers ui) reg;
          panel = emit host ui i 0 (REG_NAMES ! i) value prev 16 SliceFull panel;
          panel = (if depth \<ge> 1
                   then emit host ui i 1 (GPR_NAMES_32 ! i) (value AND 0xFFFFFFFF) (prev AND 0xFFFFFFFF) 8 SliceDword panel
                   else panel);
          panel = (if depth \<ge> 2
                   then emit host ui i 2 (GPR_NAMES_16 ! i) (value AND 0xFFFF) (prev AND 0xFFFF) 4 SliceWord panel
                   else panel);
          panel = (if depth \<ge> 3 \<and> i < 4
                   then emit host ui i 3 (GPR_NAMES_8H ! i) (drop_bit 8 value AND 0xFF) (drop_bit 8 prev AND 0xFF) 2
                          SliceByteHigh panel
                   else panel)
      in if depth \<ge> 3
         then emit host ui i 3 (GPR_NAMES_8L ! i) (value AND 0xFF) (prev AND 0xFF) 2 SliceByteLow panel
         else panel)"

definition register_row :: "TuiHost \<Rightarrow> UI \<Rightarrow> Reg \<Rightarrow> (nat \<times> nat) Panel \<Rightarrow> (nat \<times> nat) Panel" where
  "register_row host ui reg panel =
     (if flat_reg reg then flat_row host ui reg panel else tree_rows host ui reg panel)"

definition GPR_HITS_RESERVED :: nat where "GPR_HITS_RESERVED = (GPR_COUNT - 1) * 3"
definition GPR_COPIES_RESERVED :: nat where "GPR_COPIES_RESERVED = GPR_COUNT * 5"

definition render_registers :: "TuiHost \<Rightarrow> UI \<Rightarrow> (nat \<times> nat) Panel" where
  "render_registers host ui =
     fold (register_row host ui) REGISTER_DISPLAY_ORDER (start_panel [''Seed'', ''Register'', ''Value''])"

section \<open>Flags\<close>

definition flag_token :: "u64 \<Rightarrow> string \<times> u64 \<Rightarrow> u64 Panel \<Rightarrow> cell list \<times> u64 Panel" where
  "flag_token flags flag panel =
     (let (cell, panel) =
            click_cell (TextCell (if flags AND snd flag \<noteq> 0 then SetFlag else Dim) (fst flag)) (snd flag) panel
      in ([cell, TextCell Plain ''  ''], panel))"

definition shown_flags :: "UI \<Rightarrow> u64" where
  "shown_flags ui = (if has_trace ui then reg_get (current_registers ui) RFLAGS else ui_seed_flags ui)"

text \<open>The resume flag is shown behind the seven, on the row of a fault only.\<close>

definition shows_resume_flag :: "UI \<Rightarrow> bool" where
  "shows_resume_flag ui \<longleftrightarrow>
     (let rows = history_rows_at ui (ui_history_tab ui); position = nat (ui_cursor ui)
      in position > 0 \<and> position \<le> length rows \<and> row_kind (rows ! (position - 1)) = RowFaulted
         \<and> shown_flags ui AND RFLAGS_RESUME_FLAG \<noteq> 0)"

definition render_flags :: "UI \<Rightarrow> u64 Panel" where
  "render_flags ui =
     (let (tokens, panel) =
            fold (\<lambda>flag (tokens, panel). let (token, panel) = flag_token (shown_flags ui) flag panel in (tokens @ token, panel))
              STATUS_FLAGS ([], \<lparr>panel_rows = [], panel_hits = [], panel_copies = []\<rparr>)
      in add_row (tokens @ (if shows_resume_flag ui then [TextCell Plain ''|  '', TextCell Highlight ''RF''] else [])) panel)"

section \<open>SSE\<close>

definition lane_single :: "u64 \<Rightarrow> u32 \<times> u32" where
  "lane_single lane = (ucast (drop_bit 32 lane), ucast lane)"

text \<open>The lanes of a row, each its own copy target, with a comma between two of them.\<close>

fun lane_cells :: "style \<Rightarrow> string list \<Rightarrow> 'h Panel \<Rightarrow> cell list \<times> 'h Panel" where
  "lane_cells sty [] panel = ([], panel)"
| "lane_cells sty (t # ts) panel =
     (let (cell, panel) = copy_cell (TextCell sty t) t None panel;
          (cells, panel) = lane_cells sty ts panel
      in (cell # (if ts = [] then [] else [TextCell sty '', '']) @ cells, panel))"

definition lane_row :: "style \<Rightarrow> string \<Rightarrow> string list \<Rightarrow> 'h Panel \<Rightarrow> 'h Panel" where
  "lane_row sty label texts panel =
     (let (cells, panel) = lane_cells sty texts panel in add_row [EmptyCell, TextCell sty label, RowCell cells] panel)"

definition double_lanes :: "FloatHost \<Rightarrow> u64 \<times> u64 \<Rightarrow> string list" where
  "double_lanes floats value = [format_float floats (snd value), format_float floats (fst value)]"

definition single_lanes :: "FloatHost \<Rightarrow> u64 \<times> u64 \<Rightarrow> string list" where
  "single_lanes floats value =
     map (format_float_single floats)
       [fst (lane_single (snd value)), snd (lane_single (snd value)), fst (lane_single (fst value)), snd (lane_single (fst value))]"

definition xmm_row :: "FloatHost \<Rightarrow> UI \<Rightarrow> nat \<Rightarrow> nat Panel \<Rightarrow> nat Panel" where
  "xmm_row floats ui i panel =
     (let value = xmm (current_registers ui) ! i;
          sty = value_style (has_trace ui \<and> value \<noteq> xmm (previous_registers ui) ! i);
          hi = hex_padded 16 (unat (snd value));
          lo = hex_padded 16 (unat (fst value));
          val = TextCell sty (if has_trace ui then hi @ '':'' @ lo else ''-'');
          copy_text = (if has_trace ui then hi @ lo else []);
          marker = (if ui_xmm_expand ui ! i then ''v '' else ''> '');
          (name, panel) = click_cell (TextCell Bold (marker @ ''XMM'' @ decimal i)) i panel;
          (cell, panel) = (if has_trace ui then copy_cell val copy_text None panel else (val, panel));
          panel = add_row [SeedCell (XMMField i), name, cell] panel
      in if has_trace ui
         then let panel = lane_row sty ''    f64x2'' (double_lanes floats value) panel
              in if ui_xmm_expand ui ! i then lane_row sty ''    f32x4'' (single_lanes floats value) panel else panel
         else panel)"

definition mxcsr_row :: "UI \<Rightarrow> nat Panel \<Rightarrow> nat Panel" where
  "mxcsr_row ui panel =
     (let value = mxcsr (current_registers ui);
          text = (if has_trace ui then ''0x'' @ hex_padded 8 (unat value) else ''-'');
          val = TextCell (value_style (has_trace ui \<and> value \<noteq> mxcsr (previous_registers ui))) text;
          (cell, panel) = (if has_trace ui then copy_cell val text None panel else (val, panel))
      in add_row [SeedCell MXCSRField, TextCell Bold ''MXCSR'', cell] panel)"

text \<open>\<open>decode_block\<close>: the lines below a table.\<close>

definition decode_block :: "string \<Rightarrow> string list \<Rightarrow> cell list list" where
  "decode_block prefix groups =
     map (\<lambda>i. [TextCell Dim (if i = 0 then prefix @ groups ! i else ''  '' @ groups ! i)]) [0..<length groups]"

definition add_block :: "cell list list \<Rightarrow> 'h Panel \<Rightarrow> 'h Panel" where
  "add_block rows panel = panel\<lparr>panel_rows := panel_rows panel @ rows\<rparr>"

definition render_xmm :: "FloatHost \<Rightarrow> UI \<Rightarrow> nat Panel" where
  "render_xmm floats ui =
     (let panel = fold (xmm_row floats ui) [0..<16] (start_panel [''Seed'', ''Register'', ''Value (hi : lo)'']);
          panel = mxcsr_row ui panel
      in if has_trace ui then add_block (decode_block [] (decode_mxcsr (mxcsr (current_registers ui)))) panel else panel)"

section \<open>x87\<close>

definition x87_top :: "Registers \<Rightarrow> nat" where
  "x87_top registers = unat (drop_bit 11 (fpu_status_word registers) AND 7)"

definition x87_physical :: "Registers \<Rightarrow> nat \<Rightarrow> nat" where
  "x87_physical registers i = (x87_top registers + i) mod 8"

definition st_occupied :: "UI \<Rightarrow> Registers \<Rightarrow> nat \<Rightarrow> bool" where
  "st_occupied ui registers i \<longleftrightarrow>
     has_trace ui \<and> drop_bit (x87_physical registers i) (fpu_tag_word_abridged registers) AND 1 \<noteq> 0"

definition st_style :: "UI \<Rightarrow> nat \<Rightarrow> style" where
  "st_style ui i =
     (let current = current_registers ui; previous = previous_registers ui
      in value_style (has_trace ui
           \<and> (st current ! i \<noteq> st previous ! i \<or> st_occupied ui current i \<noteq> st_occupied ui previous i)))"

definition slot_row :: "FloatHost \<Rightarrow> UI \<Rightarrow> nat \<Rightarrow> nat Panel \<Rightarrow> nat Panel" where
  "slot_row floats ui i panel =
     (let current = current_registers ui;
          bytes = st current ! i;
          occupied = st_occupied ui current i;
          tag = (if has_trace ui then x87_tag_name occupied bytes else ''-'');
          raw = (if has_trace ui then ''0x'' @ hex_bytes [] (rev bytes) else ''-'');
          value = (if occupied then format_float floats (st_double floats bytes (fpu_control_word current)) else ''-'');
          sty = st_style ui i;
          marker = (if ui_st_expand ui ! i then ''v '' else ''> '');
          (name, panel) = click_cell (TextCell Bold (marker @ ''ST'' @ decimal i)) i panel;
          (value_cell, panel) =
            (if occupied then copy_cell (TextCell sty value) value None panel else (TextCell sty value, panel));
          physical = TextCell Dim (if has_trace ui then ''x87r'' @ decimal (x87_physical current i) else ''-'');
          (raw_cell, panel) =
            (if has_trace ui then copy_cell (TextCell sty raw) raw None panel else (TextCell sty raw, panel))
      in add_row [SeedCell (STField i), name, physical, TextCell sty tag, raw_cell, value_cell] panel)"

definition narrow_row :: "FloatHost \<Rightarrow> UI \<Rightarrow> nat \<Rightarrow> nat Panel \<Rightarrow> nat Panel" where
  "narrow_row floats ui i panel =
     (let current = current_registers ui;
          sty = st_style ui i;
          narrowed = st_single floats (st current ! i) (fpu_control_word current);
          narrowed_value = format_float_single floats narrowed;
          (cell, panel) = copy_cell (TextCell sty narrowed_value) narrowed_value None panel
      in add_row [EmptyCell, TextCell sty ''  f32'', EmptyCell, EmptyCell,
           TextCell sty (''0x'' @ hex_padded 8 (unat narrowed)), cell] panel)"

definition st_row :: "FloatHost \<Rightarrow> UI \<Rightarrow> nat \<Rightarrow> nat Panel \<Rightarrow> nat Panel" where
  "st_row floats ui i panel =
     (let panel = slot_row floats ui i panel
      in if st_occupied ui (current_registers ui) i \<and> ui_st_expand ui ! i then narrow_row floats ui i panel else panel)"

definition control_word_row :: "UI \<Rightarrow> nat Panel \<Rightarrow> nat Panel" where
  "control_word_row ui panel =
     (let value = fpu_control_word (current_registers ui);
          text = (if has_trace ui then ''0x'' @ hex_padded 4 (unat value) else ''-'');
          val = TextCell (value_style (has_trace ui \<and> value \<noteq> fpu_control_word (previous_registers ui))) text;
          (cell, panel) = (if has_trace ui then copy_cell val text None panel else (val, panel))
      in add_row [SeedCell ControlWordField, TextCell Bold ''Control word'', EmptyCell, EmptyCell, cell, EmptyCell] panel)"

definition x87_blocks :: "Registers \<Rightarrow> cell list list" where
  "x87_blocks current =
     decode_block (''CW 0x'' @ hex_padded 4 (unat (fpu_control_word current)) @ ''  '')
       (decode_x87_control_word (fpu_control_word current))
     @ decode_block (''SW 0x'' @ hex_padded 4 (unat (fpu_status_word current)) @ ''  '')
         (decode_x87_status_word (fpu_status_word current))
     @ [[TextCell Dim (''TW 0x'' @ hex_padded 2 (unat (fpu_tag_word_abridged current)))]]"

definition render_x87 :: "FloatHost \<Rightarrow> UI \<Rightarrow> nat Panel" where
  "render_x87 floats ui =
     (let panel = fold (st_row floats ui) [0..<8]
            (start_panel [''Seed'', ''ST'', ''x87r'', ''Tag'', ''Raw (80-bit)'', ''Value'']);
          panel = control_word_row ui panel
      in if has_trace ui then add_block (x87_blocks (current_registers ui)) panel else panel)"

section \<open>What a panel promises\<close>

text \<open>The entries that the cells of a panel refer to, in the order of the rows.\<close>

fun copy_targets :: "cell \<Rightarrow> nat list" where
  "copy_targets (CopyTarget k cell) = k # copy_targets cell"
| "copy_targets (ClickTarget k cell) = copy_targets cell"
| "copy_targets (RowCell cells) = concat (map copy_targets cells)"
| "copy_targets _ = []"

fun click_targets :: "cell \<Rightarrow> nat list" where
  "click_targets (CopyTarget k cell) = click_targets cell"
| "click_targets (ClickTarget k cell) = k # click_targets cell"
| "click_targets (RowCell cells) = concat (map click_targets cells)"
| "click_targets _ = []"

definition row_copies :: "cell list \<Rightarrow> nat list" where
  "row_copies row = concat (map copy_targets row)"

definition row_clicks :: "cell list \<Rightarrow> nat list" where
  "row_clicks row = concat (map click_targets row)"

text \<open>
  Every entry of the two vectors belongs to exactly one cell, and a cell refers to no other entry: the
  references that \<open>ftxui::reflect\<close> keeps are one for each element.
\<close>

definition targets_ok :: "'h Panel \<Rightarrow> bool" where
  "targets_ok panel \<longleftrightarrow>
     mset (concat (map row_copies (panel_rows panel))) = mset [0..<length (panel_copies panel)]
     \<and> concat (map row_clicks (panel_rows panel)) = [0..<length (panel_hits panel)]"

fun row_seed :: "cell list \<Rightarrow> seed_field list" where
  "row_seed (SeedCell field # row) = [field]"
| "row_seed row = []"

text \<open>The seed fields that are drawn, from top to bottom.\<close>

definition drawn_seeds :: "'h Panel \<Rightarrow> seed_field list" where
  "drawn_seeds panel = concat (map row_seed (panel_rows panel))"

text \<open>The seed fields next to a copyable value, each with the text that a click on the first such value copies.\<close>

definition row_text_of :: "CopyHit list \<Rightarrow> cell list \<Rightarrow> (seed_field \<times> string) list" where
  "row_text_of copies row =
     (case row_copies row of [] \<Rightarrow> [] | k # _ \<Rightarrow> map (\<lambda>field. (field, hit_text (copies ! k))) (row_seed row))"

definition field_texts :: "'h Panel \<Rightarrow> (seed_field \<times> string) list" where
  "field_texts panel = concat (map (row_text_of (panel_copies panel)) (panel_rows panel))"

lemma length_concat_le: "(\<And>x. x \<in> set xs \<Longrightarrow> length (f x) \<le> n) \<Longrightarrow> length (concat (map f xs)) \<le> length xs * n"
  by (induction xs) (auto intro: add_mono)

text \<open>
  The interface between a pane and its rows: a step draws one register, and says what it adds to the hit
  vectors, to the seed column and to the texts beside it.
\<close>

locale pane =
  fixes step :: "'a \<Rightarrow> 'h Panel \<Rightarrow> 'h Panel"
    and hits :: "'a \<Rightarrow> 'h list" and copies :: "'a \<Rightarrow> CopyHit list"
    and seeds :: "'a \<Rightarrow> seed_field list" and texts :: "'a \<Rightarrow> (seed_field \<times> string) list"
  assumes step_hits: "panel_hits (step x panel) = panel_hits panel @ hits x"
    and step_copies: "panel_copies (step x panel) = panel_copies panel @ copies x"
    and step_seeds: "drawn_seeds (step x panel) = drawn_seeds panel @ seeds x"
    and step_targets: "targets_ok panel \<Longrightarrow> targets_ok (step x panel)"
    and step_texts: "targets_ok panel \<Longrightarrow> field_texts (step x panel) = field_texts panel @ texts x"
begin

lemma fold_hits: "panel_hits (fold step xs panel) = panel_hits panel @ concat (map hits xs)"
  by (induction xs arbitrary: panel) (simp_all add: step_hits)

lemma fold_copies: "panel_copies (fold step xs panel) = panel_copies panel @ concat (map copies xs)"
  by (induction xs arbitrary: panel) (simp_all add: step_copies)

lemma fold_seeds: "drawn_seeds (fold step xs panel) = drawn_seeds panel @ concat (map seeds xs)"
  by (induction xs arbitrary: panel) (simp_all add: step_seeds)

lemma fold_targets: "targets_ok panel \<Longrightarrow> targets_ok (fold step xs panel)"
  by (induction xs arbitrary: panel) (simp_all add: step_targets)

lemma fold_texts: "targets_ok panel \<Longrightarrow> field_texts (fold step xs panel) = field_texts panel @ concat (map texts xs)"
  by (induction xs arbitrary: panel) (simp_all add: step_targets step_texts)

text \<open>A vector with room for the largest register of the pane, times their number, is never reallocated.\<close>

lemma fold_capacity:
  assumes "\<And>x. x \<in> set xs \<Longrightarrow> length (hits x) \<le> h" "\<And>x. x \<in> set xs \<Longrightarrow> length (copies x) \<le> c"
  shows "length (panel_hits (fold step xs panel)) \<le> length (panel_hits panel) + length xs * h"
    "length (panel_copies (fold step xs panel)) \<le> length (panel_copies panel) + length xs * c"
  using length_concat_le[of xs hits h] length_concat_le[of xs copies c] assms by (simp_all add: fold_hits fold_copies)

end

text \<open>One row with its own entries at the ends of the two vectors.\<close>

definition extend :: "cell list \<Rightarrow> 'h list \<Rightarrow> CopyHit list \<Rightarrow> 'h Panel \<Rightarrow> 'h Panel" where
  "extend row hits copies panel =
     panel\<lparr>panel_hits := panel_hits panel @ hits, panel_copies := panel_copies panel @ copies,
       panel_rows := panel_rows panel @ [row]\<rparr>"

definition row_fits :: "'h Panel \<Rightarrow> cell list \<Rightarrow> nat \<Rightarrow> nat \<Rightarrow> bool" where
  "row_fits panel row h c \<longleftrightarrow>
     mset (row_copies row) = mset [length (panel_copies panel)..<length (panel_copies panel) + c]
     \<and> row_clicks row = [length (panel_hits panel)..<length (panel_hits panel) + h]"

lemma extend_fields [simp]:
  "panel_hits (extend row hits copies panel) = panel_hits panel @ hits"
  "panel_copies (extend row hits copies panel) = panel_copies panel @ copies"
  "panel_rows (extend row hits copies panel) = panel_rows panel @ [row]"
  "drawn_seeds (extend row hits copies panel) = drawn_seeds panel @ row_seed row"
  by (simp_all add: extend_def drawn_seeds_def)

lemma extend_targets:
  assumes "targets_ok panel" "row_fits panel row (length hits) (length copies)"
  shows "targets_ok (extend row hits copies panel)"
proof -
  have upt: "[0..<n] @ [n..<n + k] = [0..<n + k]" for n k :: nat by (metis le0 upt_add_eq_append)
  have "mset (concat (map row_copies (panel_rows panel))) + mset (row_copies row)
      = mset [0..<length (panel_copies panel) + length copies]"
    using assms unfolding targets_ok_def row_fits_def by (metis mset_append upt)
  then show ?thesis
    using assms upt[of "length (panel_hits panel)" "length hits"] by (simp add: targets_ok_def row_fits_def)
qed

lemma row_text_append:
  "set (row_copies row) \<subseteq> {..<length copies} \<Longrightarrow> row_text_of (copies @ cs) row = row_text_of copies row"
  by (cases "row_copies row") (auto simp: row_text_of_def nth_append)

lemma targets_ok_in_range:
  assumes "targets_ok panel" "row \<in> set (panel_rows panel)"
  shows "set (row_copies row) \<subseteq> {..<length (panel_copies panel)}"
proof -
  have "set (concat (map row_copies (panel_rows panel))) = {..<length (panel_copies panel)}"
    using assms(1) unfolding targets_ok_def by (metis atLeast_upt mset_eq_setD)
  then show ?thesis using assms(2) by auto
qed

lemma extend_texts:
  assumes "targets_ok panel"
  shows "field_texts (extend row hits copies panel) = field_texts panel @ row_text_of (panel_copies panel @ copies) row"
proof -
  have "map (row_text_of (panel_copies panel @ copies)) (panel_rows panel) = map (row_text_of (panel_copies panel)) (panel_rows panel)"
    using targets_ok_in_range[OF assms] by (simp add: row_text_append)
  then show ?thesis by (simp add: field_texts_def del: map_eq_conv)
qed

lemma add_block_fields [simp]:
  "panel_hits (add_block rows panel) = panel_hits panel" "panel_copies (add_block rows panel) = panel_copies panel"
  by (simp_all add: add_block_def)

section \<open>The general-purpose pane\<close>

text \<open>The nodes of a register that are drawn: level, value, previous value, digits and slice.\<close>

definition register_nodes :: "UI \<Rightarrow> Reg \<Rightarrow> (nat \<times> string \<times> u64 \<times> u64 \<times> nat \<times> gpr_slice) list" where
  "register_nodes ui reg =
     (let i = reg_index reg; depth = ui_gpr_depth ui ! i; v = reg_get (current_registers ui) reg; p = reg_get (previous_registers ui) reg
      in [(0, REG_NAMES ! i, v, p, 16, SliceFull)]
         @ (if depth \<ge> 1 then [(1, GPR_NAMES_32 ! i, v AND 0xFFFFFFFF, p AND 0xFFFFFFFF, 8, SliceDword)] else [])
         @ (if depth \<ge> 2 then [(2, GPR_NAMES_16 ! i, v AND 0xFFFF, p AND 0xFFFF, 4, SliceWord)] else [])
         @ (if depth \<ge> 3 \<and> i < 4 then [(3, GPR_NAMES_8H ! i, drop_bit 8 v AND 0xFF, drop_bit 8 p AND 0xFF, 2, SliceByteHigh)] else [])
         @ (if depth \<ge> 3 then [(3, GPR_NAMES_8L ! i, v AND 0xFF, p AND 0xFF, 2, SliceByteLow)] else []))"

definition node_hits :: "nat \<Rightarrow> nat \<times> string \<times> u64 \<times> u64 \<times> nat \<times> gpr_slice \<Rightarrow> (nat \<times> nat) list" where
  "node_hits i node = (case node of (level, _) \<Rightarrow> if level < 3 then [(i, level)] else [])"

definition node_copies :: "TuiHost \<Rightarrow> UI \<Rightarrow> nat \<times> string \<times> u64 \<times> u64 \<times> nat \<times> gpr_slice \<Rightarrow> CopyHit list" where
  "node_copies host ui node =
     (case node of (level, name, v, p, digits, slc) \<Rightarrow>
        if has_trace ui
        then let text = ''0x'' @ hex_padded digits (unat v)
             in [\<lparr>hit_text = text, hit_normalized = (if level = 0 then normalized_copy host ui v text else None)\<rparr>]
        else [])"

definition node_texts :: "UI \<Rightarrow> nat \<Rightarrow> nat \<times> string \<times> u64 \<times> u64 \<times> nat \<times> gpr_slice \<Rightarrow> (seed_field \<times> string) list" where
  "node_texts ui i node =
     (case node of (level, name, v, p, digits, slc) \<Rightarrow>
        if has_trace ui then [(GPRField i slc, ''0x'' @ hex_padded digits (unat v))] else [])"

definition emit_node :: "TuiHost \<Rightarrow> UI \<Rightarrow> nat \<Rightarrow> nat \<times> string \<times> u64 \<times> u64 \<times> nat \<times> gpr_slice \<Rightarrow> (nat \<times> nat) Panel \<Rightarrow> (nat \<times> nat) Panel" where
  "emit_node host ui i node panel = (case node of (level, name, v, p, digits, slc) \<Rightarrow> emit host ui i level name v p digits slc panel)"

lemma tree_rows_nodes: "tree_rows host ui reg panel = fold (emit_node host ui (reg_index reg)) (register_nodes ui reg) panel"
  by (simp add: tree_rows_def register_nodes_def emit_node_def Let_def)

lemma emit_extend:
  obtains row where "emit_node host ui i node panel = extend row (node_hits i node) (node_copies host ui node) panel"
    "row_fits panel row (length (node_hits i node)) (length (node_copies host ui node))"
    "row_seed row = [GPRField i (snd (snd (snd (snd (snd node)))))]"
    "row_text_of (panel_copies panel @ node_copies host ui node) row = node_texts ui i node"
proof -
  obtain level name v p digits slc where node: "node = (level, name, v, p, digits, slc)" by (metis prod_cases6)
  let ?panel = "emit_node host ui i node panel"
  have ext: "?panel = extend (last (panel_rows ?panel)) (node_hits i node) (node_copies host ui node) panel"
    by (simp add: node emit_node_def emit_def extend_def node_hits_def node_copies_def copy_cell_def click_cell_def add_row_def Let_def)
  show thesis
    by (rule that[OF ext])
      (simp_all add: node emit_node_def emit_def node_hits_def node_copies_def node_texts_def copy_cell_def click_cell_def
        add_row_def Let_def row_fits_def row_copies_def row_clicks_def row_text_of_def)
qed

definition node_seed :: "nat \<Rightarrow> nat \<times> string \<times> u64 \<times> u64 \<times> nat \<times> gpr_slice \<Rightarrow> seed_field list" where
  "node_seed i node = [GPRField i (snd (snd (snd (snd (snd node)))))]"

text \<open>A node is a step of the pane, and so is a register, which draws its nodes one after the other.\<close>

interpretation node: pane "emit_node host ui i" "node_hits i" "node_copies host ui" "node_seed i" "node_texts ui i"
  for host ui i
proof
  fix node panel
  obtain row where row: "emit_node host ui i node panel = extend row (node_hits i node) (node_copies host ui node) panel"
    "row_fits panel row (length (node_hits i node)) (length (node_copies host ui node))"
    "row_seed row = node_seed i node"
    "row_text_of (panel_copies panel @ node_copies host ui node) row = node_texts ui i node"
    by (rule emit_extend) (simp add: node_seed_def)
  show "panel_hits (emit_node host ui i node panel) = panel_hits panel @ node_hits i node"
    "panel_copies (emit_node host ui i node panel) = panel_copies panel @ node_copies host ui node"
    "drawn_seeds (emit_node host ui i node panel) = drawn_seeds panel @ node_seed i node"
    by (simp_all add: row(1,3))
  show "targets_ok panel \<Longrightarrow> targets_ok (emit_node host ui i node panel)"
    unfolding row(1) by (rule extend_targets[OF _ row(2)])
  show "targets_ok panel \<Longrightarrow> field_texts (emit_node host ui i node panel) = field_texts panel @ node_texts ui i node"
    unfolding row(1) by (simp add: extend_texts row(4))
qed

definition flat_copies :: "TuiHost \<Rightarrow> UI \<Rightarrow> Reg \<Rightarrow> CopyHit list" where
  "flat_copies host ui reg =
     (if has_trace ui
      then let value = reg_get (current_registers ui) reg; text = format_hex64_string value
           in [\<lparr>hit_text = text, hit_normalized = (if reg = RFLAGS then None else normalized_copy host ui value text)\<rparr>]
      else [])"

lemma flat_extend:
  obtains row where "flat_row host ui reg panel = extend row [] (flat_copies host ui reg) panel"
    "row_fits panel row 0 (length (flat_copies host ui reg))" "row_seed row = []"
proof -
  let ?panel = "flat_row host ui reg panel"
  have ext: "?panel = extend (last (panel_rows ?panel)) [] (flat_copies host ui reg) panel"
    by (simp add: flat_row_def extend_def flat_copies_def copy_cell_def add_row_def Let_def)
  show thesis
    by (rule that[OF ext])
      (simp_all add: flat_row_def flat_copies_def copy_cell_def add_row_def Let_def row_fits_def row_copies_def row_clicks_def)
qed

definition register_hits :: "UI \<Rightarrow> Reg \<Rightarrow> (nat \<times> nat) list" where
  "register_hits ui reg = (if flat_reg reg then [] else concat (map (node_hits (reg_index reg)) (register_nodes ui reg)))"

definition register_copies :: "TuiHost \<Rightarrow> UI \<Rightarrow> Reg \<Rightarrow> CopyHit list" where
  "register_copies host ui reg =
     (if flat_reg reg then flat_copies host ui reg else concat (map (node_copies host ui) (register_nodes ui reg)))"

definition register_seeds :: "UI \<Rightarrow> Reg \<Rightarrow> seed_field list" where
  "register_seeds ui reg = (if flat_reg reg then [] else concat (map (node_seed (reg_index reg)) (register_nodes ui reg)))"

definition register_texts :: "UI \<Rightarrow> Reg \<Rightarrow> (seed_field \<times> string) list" where
  "register_texts ui reg = (if flat_reg reg then [] else concat (map (node_texts ui (reg_index reg)) (register_nodes ui reg)))"

lemma row_text_no_seed: "row_seed row = [] \<Longrightarrow> row_text_of copies row = []"
  by (simp add: row_text_of_def split: list.splits)

interpretation register: pane "register_row host ui" "register_hits ui" "register_copies host ui" "register_seeds ui" "register_texts ui"
  for host ui
proof
  fix reg panel
  obtain row where row: "flat_row host ui reg panel = extend row [] (flat_copies host ui reg) panel"
    "row_fits panel row 0 (length (flat_copies host ui reg))" "row_seed row = []" by (rule flat_extend)
  note steps = register_row_def tree_rows_nodes row(1)
  show "panel_hits (register_row host ui reg panel) = panel_hits panel @ register_hits ui reg"
    "panel_copies (register_row host ui reg panel) = panel_copies panel @ register_copies host ui reg"
    "drawn_seeds (register_row host ui reg panel) = drawn_seeds panel @ register_seeds ui reg"
    by (simp_all add: steps row(3) node.fold_hits node.fold_copies node.fold_seeds register_hits_def register_copies_def register_seeds_def)
  show "targets_ok panel \<Longrightarrow> targets_ok (register_row host ui reg panel)"
    using extend_targets[of panel row "[]" "flat_copies host ui reg"] row(2) by (simp add: steps node.fold_targets)
  show "targets_ok panel \<Longrightarrow> field_texts (register_row host ui reg panel) = field_texts panel @ register_texts ui reg"
    by (simp add: steps node.fold_texts extend_texts row_text_no_seed[OF row(3)] register_texts_def)
qed

section \<open>The SSE and x87 panes\<close>

text \<open>Everything a drawing step adds, so that steps of several rows compose.\<close>

definition grows ::
  "'h Panel \<Rightarrow> 'h Panel \<Rightarrow> 'h list \<Rightarrow> CopyHit list \<Rightarrow> seed_field list \<Rightarrow> (seed_field \<times> string) list \<Rightarrow> bool" where
  "grows panel panel' hits copies seeds texts \<longleftrightarrow>
     panel_hits panel' = panel_hits panel @ hits \<and> panel_copies panel' = panel_copies panel @ copies
     \<and> drawn_seeds panel' = drawn_seeds panel @ seeds
     \<and> (targets_ok panel \<longrightarrow> targets_ok panel' \<and> field_texts panel' = field_texts panel @ texts)"

lemma grows_trans:
  "grows p p' h c s t \<Longrightarrow> grows p' p'' h' c' s' t' \<Longrightarrow> grows p p'' (h @ h') (c @ c') (s @ s') (t @ t')"
  by (auto simp: grows_def)

lemma grows_extend:
  "row_fits panel row (length hits) (length copies)
     \<Longrightarrow> grows panel (extend row hits copies panel) hits copies (row_seed row) (row_text_of (panel_copies panel @ copies) row)"
  by (simp add: grows_def extend_targets extend_texts)

lemma pane_grows: "(\<And>x panel. grows panel (step x panel) (hits x) (copies x) (seeds x) (texts x)) \<Longrightarrow> pane step hits copies seeds texts"
  by unfold_locales (auto simp: grows_def)

context pane begin

lemma fold_grows:
  "grows panel (fold step xs panel) (concat (map hits xs)) (concat (map copies xs)) (concat (map seeds xs)) (concat (map texts xs))"
  by (simp add: grows_def fold_hits fold_copies fold_seeds fold_targets fold_texts)

end

definition plain_copy :: "string \<Rightarrow> CopyHit" where
  "plain_copy text = \<lparr>hit_text = text, hit_normalized = None\<rparr>"

lemma lane_cells_eq:
  obtains cells where
    "lane_cells sty ts panel = (cells, panel\<lparr>panel_copies := panel_copies panel @ map plain_copy ts\<rparr>)"
    "row_copies cells = [length (panel_copies panel)..<length (panel_copies panel) + length ts]" "row_clicks cells = []"
proof -
  have "\<exists>cells. lane_cells sty ts panel = (cells, panel\<lparr>panel_copies := panel_copies panel @ map plain_copy ts\<rparr>)
    \<and> row_copies cells = [length (panel_copies panel)..<length (panel_copies panel) + length ts] \<and> row_clicks cells = []"
  proof (induction ts arbitrary: panel)
    case (Cons t ts)
    let ?p = "panel\<lparr>panel_copies := panel_copies panel @ [plain_copy t]\<rparr>"
    obtain cells where c: "lane_cells sty ts ?p = (cells, ?p\<lparr>panel_copies := panel_copies ?p @ map plain_copy ts\<rparr>)"
      "row_copies cells = [length (panel_copies ?p)..<length (panel_copies ?p) + length ts]" "row_clicks cells = []"
      using Cons by blast
    have "row_copies (TextCell sty u # cs) = row_copies cs" "row_clicks (TextCell sty u # cs) = row_clicks cs" for u cs
      by (simp_all add: row_copies_def row_clicks_def)
    moreover have "row_copies (CopyTarget k (TextCell sty u) # cs) = k # row_copies cs"
      "row_clicks (CopyTarget k (TextCell sty u) # cs) = row_clicks cs" for k u cs
      by (simp_all add: row_copies_def row_clicks_def)
    ultimately show ?case using c by (simp add: copy_cell_def upt_conv_Cons Suc_le_eq flip: plain_copy_def)
  qed (simp add: row_copies_def row_clicks_def)
  then show thesis using that by blast
qed

lemma lane_row_grows: "grows panel (lane_row sty label ts panel) [] (map plain_copy ts) [] []"
proof -
  obtain cells where c: "lane_cells sty ts panel = (cells, panel\<lparr>panel_copies := panel_copies panel @ map plain_copy ts\<rparr>)"
    "row_copies cells = [length (panel_copies panel)..<length (panel_copies panel) + length ts]" "row_clicks cells = []"
    by (rule lane_cells_eq)
  let ?row = "[EmptyCell, TextCell sty label, RowCell cells]"
  have "lane_row sty label ts panel = extend ?row [] (map plain_copy ts) panel"
    by (simp add: lane_row_def c(1) add_row_def extend_def)
  moreover have "row_fits panel ?row 0 (length (map plain_copy ts))"
    using c(2,3) by (simp add: row_fits_def row_copies_def row_clicks_def)
  ultimately show ?thesis
    using grows_extend[of panel ?row "[]" "map plain_copy ts"] by (simp add: row_text_no_seed)
qed

definition xmm_raw_text :: "u64 \<times> u64 \<Rightarrow> string" where
  "xmm_raw_text value = hex_padded 16 (unat (snd value)) @ hex_padded 16 (unat (fst value))"

definition xmm_copies :: "FloatHost \<Rightarrow> UI \<Rightarrow> nat \<Rightarrow> CopyHit list" where
  "xmm_copies floats ui i =
     (let value = xmm (current_registers ui) ! i
      in if has_trace ui
         then plain_copy (xmm_raw_text value) # map plain_copy (double_lanes floats value)
           @ (if ui_xmm_expand ui ! i then map plain_copy (single_lanes floats value) else [])
         else [])"

definition xmm_texts :: "UI \<Rightarrow> nat \<Rightarrow> (seed_field \<times> string) list" where
  "xmm_texts ui i = (if has_trace ui then [(XMMField i, xmm_raw_text (xmm (current_registers ui) ! i))] else [])"

definition xmm_first_row :: "UI \<Rightarrow> nat \<Rightarrow> nat Panel \<Rightarrow> cell list" where
  "xmm_first_row ui i panel =
     (let value = xmm (current_registers ui) ! i; sty = value_style (has_trace ui \<and> value \<noteq> xmm (previous_registers ui) ! i)
      in [SeedCell (XMMField i),
          ClickTarget (length (panel_hits panel)) (TextCell Bold ((if ui_xmm_expand ui ! i then ''v '' else ''> '') @ ''XMM'' @ decimal i)),
          (if has_trace ui
           then CopyTarget (length (panel_copies panel))
             (TextCell sty (hex_padded 16 (unat (snd value)) @ '':'' @ hex_padded 16 (unat (fst value))))
           else TextCell sty ''-'')])"

lemma xmm_row_eq:
  "xmm_row floats ui i panel =
     (let value = xmm (current_registers ui) ! i; sty = value_style (has_trace ui \<and> value \<noteq> xmm (previous_registers ui) ! i);
          panel = extend (xmm_first_row ui i panel) [i] (if has_trace ui then [plain_copy (xmm_raw_text value)] else []) panel
      in if has_trace ui
         then let panel = lane_row sty ''    f64x2'' (double_lanes floats value) panel
              in if ui_xmm_expand ui ! i then lane_row sty ''    f32x4'' (single_lanes floats value) panel else panel
         else panel)"
  by (simp add: xmm_row_def xmm_first_row_def extend_def copy_cell_def click_cell_def add_row_def plain_copy_def xmm_raw_text_def Let_def)

lemma xmm_first_row_grows:
  "grows panel (extend (xmm_first_row ui i panel) [i] (if has_trace ui then [plain_copy t] else []) panel) [i]
     (if has_trace ui then [plain_copy t] else []) [XMMField i] (if has_trace ui then [(XMMField i, t)] else [])"
proof -
  let ?c = "if has_trace ui then [plain_copy t] else []" and ?row = "xmm_first_row ui i panel"
  have "row_fits panel ?row (length [i]) (length ?c)"
    by (simp add: row_fits_def xmm_first_row_def row_copies_def row_clicks_def Let_def)
  moreover have "row_seed ?row = [XMMField i]" "row_text_of (panel_copies panel @ ?c) ?row = (if has_trace ui then [(XMMField i, t)] else [])"
    by (simp_all add: xmm_first_row_def row_text_of_def row_copies_def plain_copy_def Let_def)
  ultimately show ?thesis using grows_extend[of panel ?row "[i]" ?c] by simp
qed

interpretation sse: pane "xmm_row floats ui" "\<lambda>i. [i]" "xmm_copies floats ui" "\<lambda>i. [XMMField i]" "xmm_texts ui" for floats ui
proof (rule pane_grows)
  fix i panel
  let ?v = "xmm (current_registers ui) ! i"
  note first = xmm_first_row_grows[of panel ui i "xmm_raw_text ?v"]
  show "grows panel (xmm_row floats ui i panel) [i] (xmm_copies floats ui i) [XMMField i] (xmm_texts ui i)"
  proof (cases "has_trace ui")
    case True
    note lanes = grows_trans[OF first lane_row_grows]
    show ?thesis
      using lanes[of _ _ "double_lanes floats ?v"] grows_trans[OF lanes lane_row_grows, of _ _ "single_lanes floats ?v" _ _ "double_lanes floats ?v"] True
      by (simp add: xmm_row_eq xmm_copies_def xmm_texts_def Let_def)
  next
    case False
    then show ?thesis using first by (simp add: xmm_row_eq xmm_copies_def xmm_texts_def)
  qed
qed

definition st_raw_text :: "u8 list \<Rightarrow> string" where
  "st_raw_text bytes = ''0x'' @ hex_bytes [] (rev bytes)"

definition st_value_text :: "FloatHost \<Rightarrow> UI \<Rightarrow> nat \<Rightarrow> string" where
  "st_value_text floats ui i =
     format_float floats (st_double floats (st (current_registers ui) ! i) (fpu_control_word (current_registers ui)))"

definition st_narrow_text :: "FloatHost \<Rightarrow> UI \<Rightarrow> nat \<Rightarrow> string" where
  "st_narrow_text floats ui i =
     format_float_single floats (st_single floats (st (current_registers ui) ! i) (fpu_control_word (current_registers ui)))"

definition slot_copies :: "FloatHost \<Rightarrow> UI \<Rightarrow> nat \<Rightarrow> CopyHit list" where
  "slot_copies floats ui i =
     (if st_occupied ui (current_registers ui) i then [plain_copy (st_value_text floats ui i)] else [])
     @ (if has_trace ui then [plain_copy (st_raw_text (st (current_registers ui) ! i))] else [])"

definition st_copies :: "FloatHost \<Rightarrow> UI \<Rightarrow> nat \<Rightarrow> CopyHit list" where
  "st_copies floats ui i =
     slot_copies floats ui i
     @ (if st_occupied ui (current_registers ui) i \<and> ui_st_expand ui ! i then [plain_copy (st_narrow_text floats ui i)] else [])"

definition st_texts :: "UI \<Rightarrow> nat \<Rightarrow> (seed_field \<times> string) list" where
  "st_texts ui i = (if has_trace ui then [(STField i, st_raw_text (st (current_registers ui) ! i))] else [])"

lemma slot_row_grows: "grows panel (slot_row floats ui i panel) [i] (slot_copies floats ui i) [STField i] (st_texts ui i)"
proof -
  let ?panel = "slot_row floats ui i panel"
  let ?row = "last (panel_rows ?panel)"
  note defs = slot_row_def slot_copies_def st_texts_def st_value_text_def st_raw_text_def copy_cell_def click_cell_def add_row_def plain_copy_def Let_def
  have occ: "st_occupied ui (current_registers ui) i \<Longrightarrow> has_trace ui" by (simp add: st_occupied_def)
  have ext: "?panel = extend ?row [i] (slot_copies floats ui i) panel" using occ by (auto simp: defs extend_def)
  have row: "row_fits panel ?row (length [i]) (length (slot_copies floats ui i))" "row_seed ?row = [STField i]"
    "row_text_of (panel_copies panel @ slot_copies floats ui i) ?row = st_texts ui i"
    using occ by (auto simp: defs row_fits_def row_copies_def row_clicks_def row_text_of_def nth_append simp del: mset_upt)
  show ?thesis using grows_extend[OF row(1)] unfolding ext[symmetric] row(2,3) .
qed

lemma narrow_row_grows: "grows panel (narrow_row floats ui i panel) [] [plain_copy (st_narrow_text floats ui i)] [] []"
proof -
  let ?panel = "narrow_row floats ui i panel"
  let ?row = "last (panel_rows ?panel)" and ?c = "[plain_copy (st_narrow_text floats ui i)]"
  note defs = narrow_row_def st_narrow_text_def copy_cell_def add_row_def plain_copy_def Let_def
  have ext: "?panel = extend ?row [] ?c panel" by (simp add: defs extend_def)
  have row: "row_fits panel ?row (length []) (length ?c)" "row_seed ?row = []" "row_text_of (panel_copies panel @ ?c) ?row = []"
    by (simp_all add: defs row_fits_def row_copies_def row_clicks_def row_text_of_def)
  show ?thesis using grows_extend[of panel ?row "[]" ?c] row unfolding ext[symmetric] by simp
qed

interpretation x87: pane "st_row floats ui" "\<lambda>i. [i]" "st_copies floats ui" "\<lambda>i. [STField i]" "st_texts ui" for floats ui
proof (rule pane_grows)
  fix i panel
  show "grows panel (st_row floats ui i panel) [i] (st_copies floats ui i) [STField i] (st_texts ui i)"
    using slot_row_grows[of panel floats ui i] grows_trans[OF slot_row_grows narrow_row_grows, of panel floats ui i]
    by (simp add: st_row_def st_copies_def Let_def)
qed

section \<open>The finished panes\<close>

lemma start_panel_ok [simp]:
  "targets_ok (start_panel header)" "panel_hits (start_panel header) = []" "panel_copies (start_panel header) = []"
  "drawn_seeds (start_panel header) = []" "field_texts (start_panel header) = []"
proof -
  have "row_copies (map (TextCell Dim) header) = []" "row_clicks (map (TextCell Dim) header) = []"
    "row_seed (map (TextCell Dim) header) = []"
    by (induction header) (simp_all add: row_copies_def row_clicks_def)
  then show "targets_ok (start_panel header)" "panel_hits (start_panel header) = []" "panel_copies (start_panel header) = []"
    "drawn_seeds (start_panel header) = []" "field_texts (start_panel header) = []"
    by (simp_all add: start_panel_def targets_ok_def drawn_seeds_def field_texts_def row_text_of_def)
qed

text \<open>The lines below a table add nothing but rows.\<close>

lemma add_block_grows:
  assumes "\<And>row. row \<in> set rows \<Longrightarrow> row_copies row = [] \<and> row_clicks row = [] \<and> row_seed row = []"
  shows "grows panel (add_block rows panel) [] [] [] []"
proof -
  have "concat (map row_copies rows) = []" "concat (map row_clicks rows) = []" "concat (map row_seed rows) = []"
    "concat (map (row_text_of (panel_copies panel)) rows) = []"
    using assms by (auto simp: row_text_of_def)
  then show ?thesis by (simp add: grows_def add_block_def targets_ok_def drawn_seeds_def field_texts_def)
qed

lemma decode_block_rows: "row \<in> set (decode_block prefix groups) \<Longrightarrow> row_copies row = [] \<and> row_clicks row = [] \<and> row_seed row = []"
  by (auto simp: decode_block_def row_copies_def row_clicks_def)

lemma x87_block_rows: "row \<in> set (x87_blocks current) \<Longrightarrow> row_copies row = [] \<and> row_clicks row = [] \<and> row_seed row = []"
  by (auto simp: x87_blocks_def row_copies_def row_clicks_def dest: decode_block_rows)

lemma decode_block_grows: "grows panel (add_block (decode_block prefix groups) panel) [] [] [] []"
  by (rule add_block_grows) (rule decode_block_rows)

lemma x87_blocks_grows: "grows panel (add_block (x87_blocks current) panel) [] [] [] []"
  by (rule add_block_grows) (rule x87_block_rows)

definition mxcsr_text :: "UI \<Rightarrow> string" where
  "mxcsr_text ui = ''0x'' @ hex_padded 8 (unat (mxcsr (current_registers ui)))"

definition control_word_text :: "UI \<Rightarrow> string" where
  "control_word_text ui = ''0x'' @ hex_padded 4 (unat (fpu_control_word (current_registers ui)))"

lemma mxcsr_row_grows:
  "grows panel (mxcsr_row ui panel) [] (if has_trace ui then [plain_copy (mxcsr_text ui)] else []) [MXCSRField]
     (if has_trace ui then [(MXCSRField, mxcsr_text ui)] else [])"
proof -
  let ?row = "last (panel_rows (mxcsr_row ui panel))" and ?c = "if has_trace ui then [plain_copy (mxcsr_text ui)] else []"
  note defs = mxcsr_row_def mxcsr_text_def copy_cell_def add_row_def plain_copy_def Let_def
  have "mxcsr_row ui panel = extend ?row [] ?c panel" by (simp add: defs extend_def)
  moreover have "row_fits panel ?row (length []) (length ?c)" "row_seed ?row = [MXCSRField]"
    "row_text_of (panel_copies panel @ ?c) ?row = (if has_trace ui then [(MXCSRField, mxcsr_text ui)] else [])"
    by (simp_all add: defs row_fits_def row_copies_def row_clicks_def row_text_of_def)
  ultimately show ?thesis using grows_extend[of panel ?row "[]" ?c] by metis
qed

lemma control_word_row_grows:
  "grows panel (control_word_row ui panel) [] (if has_trace ui then [plain_copy (control_word_text ui)] else []) [ControlWordField]
     (if has_trace ui then [(ControlWordField, control_word_text ui)] else [])"
proof -
  let ?row = "last (panel_rows (control_word_row ui panel))" and ?c = "if has_trace ui then [plain_copy (control_word_text ui)] else []"
  note defs = control_word_row_def control_word_text_def copy_cell_def add_row_def plain_copy_def Let_def
  have "control_word_row ui panel = extend ?row [] ?c panel" by (simp add: defs extend_def)
  moreover have "row_fits panel ?row (length []) (length ?c)" "row_seed ?row = [ControlWordField]"
    "row_text_of (panel_copies panel @ ?c) ?row = (if has_trace ui then [(ControlWordField, control_word_text ui)] else [])"
    by (simp_all add: defs row_fits_def row_copies_def row_clicks_def row_text_of_def)
  ultimately show ?thesis using grows_extend[of panel ?row "[]" ?c] by metis
qed

lemma grows_start:
  "grows (start_panel header) panel hits copies seeds texts
     \<Longrightarrow> panel_hits panel = hits \<and> panel_copies panel = copies \<and> drawn_seeds panel = seeds \<and> field_texts panel = texts \<and> targets_ok panel"
  by (simp add: grows_def)

definition optional_text :: "UI \<Rightarrow> 'a \<Rightarrow> 'a list" where
  "optional_text ui x = (if has_trace ui then [x] else [])"

lemma render_registers_parts:
  "panel_hits (render_registers host ui) = concat (map (register_hits ui) REGISTER_DISPLAY_ORDER)"
  "panel_copies (render_registers host ui) = concat (map (register_copies host ui) REGISTER_DISPLAY_ORDER)"
  "drawn_seeds (render_registers host ui) = concat (map (register_seeds ui) REGISTER_DISPLAY_ORDER)"
  "field_texts (render_registers host ui) = concat (map (register_texts ui) REGISTER_DISPLAY_ORDER)"
  "targets_ok (render_registers host ui)"
  using grows_start[OF register.fold_grows] unfolding render_registers_def by blast+

lemma render_xmm_parts:
  "panel_hits (render_xmm floats ui) = [0..<16]"
  "panel_copies (render_xmm floats ui) = concat (map (xmm_copies floats ui) [0..<16]) @ optional_text ui (plain_copy (mxcsr_text ui))"
  "drawn_seeds (render_xmm floats ui) = map XMMField [0..<16] @ [MXCSRField]"
  "field_texts (render_xmm floats ui) = concat (map (xmm_texts ui) [0..<16]) @ optional_text ui (MXCSRField, mxcsr_text ui)"
  "targets_ok (render_xmm floats ui)"
proof -
  let ?start = "start_panel [''Seed'', ''Register'', ''Value (hi : lo)'']"
  note table = grows_trans[OF sse.fold_grows[where panel = ?start and floats = floats and ui = ui and xs = "[0..<16]"] mxcsr_row_grows[where ui = ui]]
  note block = grows_trans[OF table decode_block_grows]
  have "grows ?start (render_xmm floats ui) [0..<16]
      (concat (map (xmm_copies floats ui) [0..<16]) @ optional_text ui (plain_copy (mxcsr_text ui)))
      (map XMMField [0..<16] @ [MXCSRField]) (concat (map (xmm_texts ui) [0..<16]) @ optional_text ui (MXCSRField, mxcsr_text ui))"
    using table block by (cases "has_trace ui") (simp_all add: render_xmm_def Let_def optional_text_def concat_map_singleton del: upt_rec_numeral)
  from grows_start[OF this] show "panel_hits (render_xmm floats ui) = [0..<16]"
    "panel_copies (render_xmm floats ui) = concat (map (xmm_copies floats ui) [0..<16]) @ optional_text ui (plain_copy (mxcsr_text ui))"
    "drawn_seeds (render_xmm floats ui) = map XMMField [0..<16] @ [MXCSRField]"
    "field_texts (render_xmm floats ui) = concat (map (xmm_texts ui) [0..<16]) @ optional_text ui (MXCSRField, mxcsr_text ui)"
    "targets_ok (render_xmm floats ui)" by blast+
qed

lemma render_x87_parts:
  "panel_hits (render_x87 floats ui) = [0..<8]"
  "panel_copies (render_x87 floats ui) = concat (map (st_copies floats ui) [0..<8]) @ optional_text ui (plain_copy (control_word_text ui))"
  "drawn_seeds (render_x87 floats ui) = map STField [0..<8] @ [ControlWordField]"
  "field_texts (render_x87 floats ui) = concat (map (st_texts ui) [0..<8]) @ optional_text ui (ControlWordField, control_word_text ui)"
  "targets_ok (render_x87 floats ui)"
proof -
  let ?start = "start_panel [''Seed'', ''ST'', ''x87r'', ''Tag'', ''Raw (80-bit)'', ''Value'']"
  note table = grows_trans[OF x87.fold_grows[where panel = ?start and floats = floats and ui = ui and xs = "[0..<8]"] control_word_row_grows[where ui = ui]]
  note block = grows_trans[OF table x87_blocks_grows]
  have "grows ?start (render_x87 floats ui) [0..<8]
      (concat (map (st_copies floats ui) [0..<8]) @ optional_text ui (plain_copy (control_word_text ui)))
      (map STField [0..<8] @ [ControlWordField]) (concat (map (st_texts ui) [0..<8]) @ optional_text ui (ControlWordField, control_word_text ui))"
    using table block by (cases "has_trace ui") (simp_all add: render_x87_def Let_def optional_text_def concat_map_singleton del: upt_rec_numeral)
  from grows_start[OF this] show "panel_hits (render_x87 floats ui) = [0..<8]"
    "panel_copies (render_x87 floats ui) = concat (map (st_copies floats ui) [0..<8]) @ optional_text ui (plain_copy (control_word_text ui))"
    "drawn_seeds (render_x87 floats ui) = map STField [0..<8] @ [ControlWordField]"
    "field_texts (render_x87 floats ui) = concat (map (st_texts ui) [0..<8]) @ optional_text ui (ControlWordField, control_word_text ui)"
    "targets_ok (render_x87 floats ui)" by blast+
qed

end
