(* ===== verification/Mouse.thy ===== *)
theory Mouse
  imports Panels TraceJson
begin

text \<open>
  The mouse and the drawn panes: the handlers that \<open>run_tui\<close> of src/src/bme_core.cpp puts around the panes and
  the layout, which look up the region below the pointer among the regions of the last drawing, and
  the texts of the layout and of the two modals. The facts tie the drawing to the state machine of
  \<open>Tui\<close>: the references into the hit vectors stay valid, a press is an event of the machine or nothing, the
  seed fields that can take the focus are the ones that are drawn, and the copied values seed the
  registers they were copied from.
\<close>

section \<open>The seed containers\<close>

text \<open>
  The children of the three containers that can take the focus, in order: \<open>ftxui::Maybe\<close> hides the fields of
  the slices that are not expanded. The focus sink at the end of each container is not focusable.
\<close>

definition gpr_seed_components :: "UI \<Rightarrow> nat \<Rightarrow> seed_field list" where
  "gpr_seed_components ui i =
     (if i = reg_index RSP then []
      else [GPRField i SliceFull]
        @ (if ui_gpr_depth ui ! i \<ge> 1 then [GPRField i SliceDword] else [])
        @ (if ui_gpr_depth ui ! i \<ge> 2 then [GPRField i SliceWord] else [])
        @ (if i < 4 \<and> ui_gpr_depth ui ! i \<ge> 3 then [GPRField i SliceByteHigh] else [])
        @ (if ui_gpr_depth ui ! i \<ge> 3 then [GPRField i SliceByteLow] else []))"

definition seed_container :: "UI \<Rightarrow> seed_field list" where
  "seed_container ui = concat (map (gpr_seed_components ui) [0..<GPR_COUNT])"

definition xmm_seed_container :: "seed_field list" where
  "xmm_seed_container = map XMMField [0..<16] @ [MXCSRField]"

definition st_seed_container :: "seed_field list" where
  "st_seed_container = map STField [0..<8] @ [ControlWordField]"

section \<open>Mouse handlers\<close>

datatype mouse_button = LeftButton | MiddleButton | RightButton | WheelUp | WheelDown | NoButton

datatype mouse_motion = Pressed | Released | Moved

record Mouse =
  mouse_button :: mouse_button
  mouse_motion :: mouse_motion
  mouse_control :: bool

definition left_press :: "Mouse \<Rightarrow> bool" where
  "left_press mouse \<longleftrightarrow> mouse_button mouse = LeftButton \<and> mouse_motion mouse = Pressed"

text \<open>
  The loop over a hit vector: the first entry whose box contains the pointer. \<open>inside\<close> says so for every
  position of the vector.
\<close>

definition first_hit :: "(nat \<Rightarrow> bool) \<Rightarrow> 'h list \<Rightarrow> 'h option" where
  "first_hit inside hits = map_option ((!) hits) (find inside [0..<length hits])"

definition panel_event :: "Mouse \<Rightarrow> (nat \<Rightarrow> bool) \<Rightarrow> 'h list \<Rightarrow> ('h \<Rightarrow> UI \<Rightarrow> UI) \<Rightarrow> UI \<Rightarrow> bool \<times> UI" where
  "panel_event mouse inside hits clicked ui =
     (if \<not> left_press mouse then (False, ui)
      else case first_hit inside hits of
             Some hit \<Rightarrow> (True, clicked hit ui)
           | None \<Rightarrow> (False, ui))"

definition flags_view_event :: "Mouse \<Rightarrow> (nat \<Rightarrow> bool) \<Rightarrow> u64 list \<Rightarrow> UI \<Rightarrow> bool \<times> UI" where
  "flags_view_event mouse inside flag_hits ui = panel_event mouse inside flag_hits flag_clicked ui"

definition register_view_gpr_event :: "Mouse \<Rightarrow> (nat \<Rightarrow> bool) \<Rightarrow> (nat \<times> nat) list \<Rightarrow> UI \<Rightarrow> bool \<times> UI" where
  "register_view_gpr_event mouse inside gpr_hits ui = panel_event mouse inside gpr_hits (\<lambda>(reg, level). gpr_clicked reg level) ui"

definition register_view_xmm_event :: "Mouse \<Rightarrow> (nat \<Rightarrow> bool) \<Rightarrow> nat list \<Rightarrow> UI \<Rightarrow> bool \<times> UI" where
  "register_view_xmm_event mouse inside xmm_hits ui = panel_event mouse inside xmm_hits xmm_clicked ui"

definition register_view_x87_event :: "Mouse \<Rightarrow> (nat \<Rightarrow> bool) \<Rightarrow> nat list \<Rightarrow> UI \<Rightarrow> bool \<times> UI" where
  "register_view_x87_event mouse inside st_hits ui = panel_event mouse inside st_hits st_clicked ui"

text \<open>The wheel in the two large panes; \<open>inside\<close> is whether the pane's own box contains the pointer.\<close>

definition history_view_event :: "Mouse \<Rightarrow> bool \<Rightarrow> UI \<Rightarrow> bool \<times> UI" where
  "history_view_event mouse inside ui =
     (if \<not> inside then (False, ui)
      else if mouse_button mouse = WheelUp then (True, history_wheel True ui)
      else if mouse_button mouse = WheelDown then (True, history_wheel False ui)
      else (False, ui))"

text \<open>
  The focus of the three tabs: a container's active child is its focus sink, which draws nothing and cannot
  be reached with the keys, or one of its seed fields (\<open>real\<close> focus). \<open>TakeFocus\<close> on the sink makes it the active
  child.
\<close>

record Focus =
  gpr_sink_active :: bool
  xmm_sink_active :: bool
  st_sink_active :: bool

definition register_has_real_focus :: "UI \<Rightarrow> Focus \<Rightarrow> bool" where
  "register_has_real_focus ui focus =
     (if ui_register_tab ui = 0 then \<not> gpr_sink_active focus
      else if ui_register_tab ui = 1 then \<not> xmm_sink_active focus
      else \<not> st_sink_active focus)"

definition defocus_current_register_tab :: "UI \<Rightarrow> Focus \<Rightarrow> Focus" where
  "defocus_current_register_tab ui focus =
     (if ui_register_tab ui = 0 then focus\<lparr>gpr_sink_active := True\<rparr>
      else if ui_register_tab ui = 1 then focus\<lparr>xmm_sink_active := True\<rparr>
      else focus\<lparr>st_sink_active := True\<rparr>)"

text \<open>The scroller: the drawing follows the cursor of a focused seed field, or starts at the tab's own offset.\<close>

datatype scroller_frame = FollowCursor | ScrollOffset int

definition scroller_render :: "UI \<Rightarrow> Focus \<Rightarrow> scroller_frame" where
  "scroller_render ui focus =
     (if register_has_real_focus ui focus then FollowCursor else ScrollOffset (ui_register_scroll ui ! ui_register_tab ui))"

text \<open>
  \<open>ScrollViewport\<close>: \<open>SetBox\<close> gives the child a box that starts \<open>dy\<close> lines above the own one, and \<open>Render\<close> clips the child to
  the own box, so that line \<open>k\<close> of the content is drawn on line \<open>child_y_min + k\<close> of the screen if that lies in the box.
\<close>

definition viewport_children_box :: "int \<Rightarrow> int \<Rightarrow> int \<Rightarrow> int \<Rightarrow> int \<times> int" where
  "viewport_children_box y_min y_max min_y offset =
     (let external_dimy = y_max - y_min; internal_dimy = max min_y external_dimy; dy = viewport_offset y_min y_max min_y offset
      in (y_min - dy, y_min + internal_dimy - dy))"

definition viewport_line :: "int \<Rightarrow> int \<Rightarrow> int \<Rightarrow> int \<Rightarrow> int \<Rightarrow> int option" where
  "viewport_line y_min y_max min_y offset k =
     (let line = fst (viewport_children_box y_min y_max min_y offset) + k
      in if y_min \<le> line \<and> line \<le> y_max then Some line else None)"

definition registers_view_event :: "Mouse \<Rightarrow> bool \<Rightarrow> Focus \<Rightarrow> UI \<Rightarrow> bool \<times> Focus \<times> UI" where
  "registers_view_event mouse inside focus ui =
     (if \<not> inside then (False, focus, ui)
      else if left_press mouse then (False, defocus_current_register_tab ui focus, ui)
      else if mouse_button mouse = WheelUp then (True, focus, register_wheel (register_has_real_focus ui focus) True ui)
      else if mouse_button mouse = WheelDown then (True, focus, register_wheel (register_has_real_focus ui focus) False ui)
      else (False, focus, ui))"

text \<open>Escape, as far as the focus is concerned; a modal keeps it from the layout.\<close>

definition escape_focus :: "UI \<Rightarrow> Focus \<Rightarrow> Focus" where
  "escape_focus ui focus =
     (if ui_show_about ui \<or> ui_show_settings ui then focus else defocus_current_register_tab ui focus)"

text \<open>A right press in the box of a cycling button steps back; other events go on to the button.\<close>

definition rightclick_back :: "Mouse \<Rightarrow> bool \<Rightarrow> (UI \<Rightarrow> UI option) \<Rightarrow> UI \<Rightarrow> (bool \<times> UI) option" where
  "rightclick_back mouse inside on_back ui =
     (if mouse_button mouse = RightButton \<and> mouse_motion mouse = Pressed \<and> inside
      then map_option (Pair True) (on_back ui)
      else Some (False, ui))"

definition syntax_button_event :: "TuiHost \<Rightarrow> Mouse \<Rightarrow> bool \<Rightarrow> UI \<Rightarrow> (bool \<times> UI) option" where
  "syntax_button_event host mouse inside ui = rightclick_back mouse inside (toggle_syntax (tui_decoders host)) ui"

definition backend_button_event :: "TuiHost \<Rightarrow> Mouse \<Rightarrow> bool \<Rightarrow> UI \<Rightarrow> (bool \<times> UI) option" where
  "backend_button_event host mouse inside ui = rightclick_back mouse inside (cycle_backend (tui_decoders host) (-1)) ui"

text \<open>
  The mouse part of the layout's handler: the code, stack and data address labels first, the first two
  only when they show an address, then the value cells of the visible pane.
\<close>

record LayoutBoxes =
  in_code :: bool
  in_stack :: bool
  in_data :: bool
  in_copy :: "nat \<Rightarrow> bool"

definition layout_mouse_input :: "Mouse \<Rightarrow> LayoutBoxes \<Rightarrow> CopyHit list \<Rightarrow> UI \<Rightarrow> layout_input option" where
  "layout_mouse_input mouse boxes copy_hits ui =
     (if \<not> left_press mouse then None
      else if ui_code_addr ui \<noteq> ''-'' \<and> in_code boxes then Some (CodeAddressClick (mouse_control mouse))
      else if ui_stack_addr ui \<noteq> ''-'' \<and> in_stack boxes then Some (StackAddressClick (mouse_control mouse))
      else if in_data boxes then Some (DataAddressClick (mouse_control mouse))
      else map_option (\<lambda>hit. ValueClick (hit_text hit) (hit_normalized hit) (mouse_control mouse))
             (first_hit (in_copy boxes) copy_hits))"

definition layout_mouse :: "TuiHost \<Rightarrow> Mouse \<Rightarrow> LayoutBoxes \<Rightarrow> CopyHit list \<Rightarrow> UI \<Rightarrow> (bool \<times> UI) option" where
  "layout_mouse host mouse boxes copy_hits ui =
     (if ui_show_about ui \<or> ui_show_settings ui then Some (False, ui)
      else case layout_mouse_input mouse boxes copy_hits ui of
             Some input \<Rightarrow> layout_event host input ui
           | None \<Rightarrow> Some (False, ui))"

text \<open>Escape closes a modal; every other event goes on to its button.\<close>

definition about_modal_event :: "bool \<Rightarrow> UI \<Rightarrow> bool \<times> UI" where
  "about_modal_event escape ui = (if escape then (True, ui\<lparr>ui_show_about := False\<rparr>) else (False, ui))"

definition settings_modal_event :: "bool \<Rightarrow> UI \<Rightarrow> bool \<times> UI" where
  "settings_modal_event escape ui = (if escape then (True, ui\<lparr>ui_show_settings := False\<rparr>) else (False, ui))"

section \<open>The byte field\<close>

text \<open>The transform of the field, from the three flags of \<open>ftxui::InputState\<close>.\<close>

record InputStyle =
  input_dim :: bool
  input_inverted :: bool
  input_bold :: bool
  input_underlined :: bool

definition code_input_style :: "bool \<Rightarrow> bool \<Rightarrow> bool \<Rightarrow> InputStyle" where
  "code_input_style is_placeholder focused hovered =
     \<lparr>input_dim = is_placeholder, input_inverted = True, input_bold = focused, input_underlined = (\<not> focused \<and> hovered)\<rparr>"

section \<open>History entries\<close>

datatype entry_color = NoColor | LightCoral | Yellow

record EntryStyle =
  entry_color :: entry_color
  entry_dim :: bool
  entry_bold :: bool
  entry_inverted :: bool

text \<open>The transform of the History menus: \<open>index\<close>, \<open>active\<close> and \<open>focused\<close> are those of \<open>ftxui::EntryState\<close>.\<close>

definition history_entry :: "UI \<Rightarrow> nat \<Rightarrow> nat \<Rightarrow> bool \<Rightarrow> bool \<Rightarrow> string \<Rightarrow> string \<times> EntryStyle" where
  "history_entry ui tab index active focused label =
     (let rows = history_rows_at ui tab;
          row = (if index > 0 \<and> index - 1 < length rows then Some (rows ! (index - 1)) else None);
          kind = map_option row_kind row;
          is_stop = (case row of None \<Rightarrow> False | Some r \<Rightarrow> is_stop_row (ui_trace ui) r);
          faulted = (kind = Some RowFaulted)
      in ((if active then ''> '' else ''  '') @ label,
          \<lparr>entry_color = (if faulted then LightCoral else if is_stop then Yellow else NoColor),
           entry_dim = ((kind = Some NotReached \<or> kind = Some Data) \<and> \<not> is_stop),
           entry_bold = (faulted \<or> is_stop \<or> active),
           entry_inverted = focused\<rparr>))"

section \<open>Layout and modals\<close>

text \<open>
  The texts of the layout around the panes: the row of addresses (an address that is shown is bold and
  underlined), the notice above the flags, the title of the History pane, the warning and the status.
\<close>

record LayoutTexts =
  address_row :: "cell list"
  static_notice :: "string option"
  history_title :: string
  instrumentation_warning :: "string option"
  status_line :: ui_status

definition history_tab_labels :: "string list" where
  "history_tab_labels = ''Main'' # map backend_label BACKENDS"

definition address_style :: "string \<Rightarrow> style" where
  "address_style label = (if label \<noteq> ''-'' then Underlined else Bold)"

definition code_size_text :: "Trace \<Rightarrow> string" where
  "code_size_text trace = (if trace_code trace = [] then [] else '' ('' @ decimal (length (trace_code trace)) @ '' B)'')"

definition render_layout :: "TuiHost \<Rightarrow> UI \<Rightarrow> LayoutTexts" where
  "render_layout host ui =
     (let code_addr = address_label (reg_get (trace_seed (ui_trace ui)) RIP);
          stack_addr = address_label (reg_get (trace_seed (ui_trace ui)) RSP)
      in \<lparr>address_row =
             [TextCell Dim '' Code @ '', TextCell (address_style code_addr) code_addr, TextCell Dim (code_size_text (ui_trace ui)),
              TextCell Dim ''RSP @ '', TextCell (address_style stack_addr) stack_addr,
              TextCell Dim ('' (Stack '' @ decimal (unat SCRATCH_STACK_BYTES div 1024) @ '' KiB)''),
              TextCell Dim ''Data @ '', TextCell Underlined (format_hex64_string (host_data_base host)),
              TextCell Dim ('' ('' @ decimal (unat SCRATCH_DATA_BYTES div 1024) @ '' KiB)'')],
           static_notice =
             (if history_selection_is_static ui then Some '' Static row - no execution state. Showing prior state. '' else None),
           history_title = '' History ('' @ history_tab_labels ! ui_history_tab ui @ '') '',
           instrumentation_warning =
             (if ui_show_instrumentation_warning ui then Some ('' WARNING: '' @ INSTRUMENTATION_REFUSAL) else None),
           status_line = ui_status ui\<rparr>)"

text \<open>The About modal: labels and values; the copyright line has no label. Both are what the build puts in.\<close>

definition about_fields :: "Versions \<Rightarrow> string \<Rightarrow> string \<Rightarrow> CPUFingerprint \<Rightarrow> (string \<times> string) list" where
  "about_fields versions copyright platform_name fingerprint =
     [(''Version'', BME_GIT_TAG versions @ '' ('' @ BME_GIT_HASH versions @ '')''),
      (''Repository'', BME_GIT_URL versions),
      ([], copyright),
      (''CPU'', format_cpu_summary (\<lambda>v. hex_upper (unat v)) (\<lambda>v. hex_padded 16 (unat v)) fingerprint),
      (''Platform'', platform_name),
      (''Decoders'', ''Zydis (MIT), bddisasm (Apache-2.0), Capstone (BSD-3-Clause), XED (Apache-2.0)''),
      (''Built with'', ''FTXUI, fmt, argparse (All MIT)''),
      (''Licenses'', ''THIRD_PARTY_LICENSES.md'')]"

text \<open>The Settings modal: the two cycling buttons and the step-cap field, then the check boxes.\<close>

definition settings_fields :: "UI \<Rightarrow> (string \<times> string) list \<times> (string \<times> bool) list" where
  "settings_fields ui =
     ([(''Syntax'', ui_syntax_label ui), (''Backend'', ui_backend_label ui), (''Max steps'', ui_max_steps_text ui)],
      [(''Seed RDI/RSI to scratch data'', ui_seed_data_pointers ui), (''Show normalized addresses'', ui_normalized_addresses ui)])"

section \<open>Facts about the drawn regions\<close>

lemma first_hit_in: "first_hit inside hits = Some hit \<Longrightarrow> hit \<in> set hits"
  by (auto simp: first_hit_def find_Some_iff)

lemma register_nodes_levels: "node \<in> set (register_nodes ui reg) \<Longrightarrow> fst node \<le> 3"
  by (auto simp: register_nodes_def Let_def split: if_splits)

lemma tree_reg_index: "\<not> flat_reg reg \<Longrightarrow> reg_index reg < 16 \<and> reg_index reg \<noteq> reg_index RSP"
  by (cases reg) (simp_all add: flat_reg_def)

lemma register_hits_range:
  assumes "(i, level) \<in> set (panel_hits (render_registers host ui))"
  shows "i < 16 \<and> i \<noteq> reg_index RSP \<and> level < 3"
proof -
  obtain reg where reg: "\<not> flat_reg reg" "(i, level) \<in> set (concat (map (node_hits (reg_index reg)) (register_nodes ui reg)))"
    using assms by (auto simp: render_registers_parts register_hits_def split: if_splits)
  then have "i = reg_index reg" "level < 3" by (auto simp: node_hits_def split: prod.splits if_splits)
  then show ?thesis using tree_reg_index[OF reg(1)] by simp
qed

lemma length_register_nodes: "length (register_nodes ui reg) \<le> 5"
  by (simp add: register_nodes_def Let_def)

lemma length_register_hits: "length (register_hits ui reg) \<le> (if flat_reg reg then 0 else 3)"
  by (simp add: register_hits_def register_nodes_def node_hits_def Let_def)

lemma length_register_copies: "length (register_copies host ui reg) \<le> (if flat_reg reg then 1 else if reg_index reg < 4 then 5 else 4)"
  by (simp add: register_copies_def register_nodes_def node_copies_def flat_copies_def Let_def)

lemma render_flags_hits: "panel_hits (render_flags ui) = map snd STATUS_FLAGS \<and> targets_ok (render_flags ui)"
  by (cases "shows_resume_flag ui")
    (simp_all add: render_flags_def flag_token_def click_cell_def add_row_def STATUS_FLAGS_def targets_ok_def row_copies_def
      row_clicks_def Let_def)

lemma length_xmm_copies: "length (xmm_copies floats ui i) \<le> 7"
  by (simp add: xmm_copies_def double_lanes_def single_lanes_def Let_def)

lemma length_st_copies: "length (st_copies floats ui i) \<le> 3"
  by (simp add: st_copies_def slot_copies_def)

lemma length_concat_sum:
  assumes "\<And>x. length (f x) \<le> g x"
  shows "length (concat (map f xs)) \<le> sum_list (map g xs)"
  using sum_list_mono[of xs "\<lambda>x. length (f x)" g] assms by (simp add: length_concat comp_def)

lemma length_register_pane:
  "length (panel_hits (render_registers host ui)) \<le> 45" "length (panel_copies (render_registers host ui)) \<le> 67"
proof -
  have "sum_list (map (\<lambda>reg. if flat_reg reg then 0 else 3) REGISTER_DISPLAY_ORDER) = (45 :: nat)"
    "sum_list (map (\<lambda>reg. if flat_reg reg then 1 else if reg_index reg < 4 then 5 else 4) REGISTER_DISPLAY_ORDER) = (67 :: nat)"
    by (simp_all add: REGISTER_DISPLAY_ORDER_def flat_reg_def)
  then show "length (panel_hits (render_registers host ui)) \<le> 45" "length (panel_copies (render_registers host ui)) \<le> 67"
    using length_concat_sum[where f = "register_hits ui" and xs = REGISTER_DISPLAY_ORDER, OF length_register_hits]
      length_concat_sum[where f = "register_copies host ui" and xs = REGISTER_DISPLAY_ORDER, OF length_register_copies]
    unfolding render_registers_parts by simp_all
qed

text \<open>
  A press on a region of some earlier drawing changes the state by one event of the machine, or not at all.
\<close>

lemma panel_event_cases:
  assumes "panel_event mouse inside hits clicked ui = (consumed, ui')"
  obtains "ui' = ui" | hit where "hit \<in> set hits" "ui' = clicked hit ui"
  using assms by (auto simp: panel_event_def dest: first_hit_in split: if_splits option.splits)

lemma session_event:
  assumes "session decoders cli ui" "possible_event ui event" "tui_decoders host = decoders" "handle_event host event ui = Some ui'"
  shows "session decoders cli ui'"
  using session.event[OF assms] .

lemma session_panel_event:
  assumes "session decoders cli ui" "panel_event mouse inside hits clicked ui = (consumed, ui')" "tui_decoders host = decoders"
    and "\<And>hit. hit \<in> set hits \<Longrightarrow> possible_event ui (event hit) \<and> handle_event host (event hit) ui = Some (clicked hit ui)"
  shows "session decoders cli ui'"
  using assms(2)
proof (cases rule: panel_event_cases)
  case 1
  then show ?thesis using assms(1) by simp
next
  case (2 hit)
  then show ?thesis using session_event[OF assms(1) _ assms(3)] assms(4) by blast
qed

lemma layout_mouse_session:
  assumes "session decoders cli ui" "tui_decoders host = decoders"
  obtains consumed ui' where "layout_mouse host mouse boxes copy_hits ui = Some (consumed, ui')" "session decoders cli ui'"
proof (cases "ui_show_about ui \<or> ui_show_settings ui \<or> layout_mouse_input mouse boxes copy_hits ui = None")
  case True
  then have "layout_mouse host mouse boxes copy_hits ui = Some (False, ui)" by (auto simp: layout_mouse_def)
  then show thesis using that assms(1) by blast
next
  case False
  then obtain input where i: "layout_mouse_input mouse boxes copy_hits ui = Some input" by blast
  then have "input \<noteq> KeyF5 \<and> input \<noteq> KeyF7 \<and> input \<noteq> KeyF8"
    by (auto simp: layout_mouse_input_def split: if_splits)
  then have "layout_event host input ui \<noteq> None" by (cases input) (auto simp: Let_def)
  then obtain consumed ui' where e: "layout_event host input ui = Some (consumed, ui')" by fastforce
  then have "session decoders cli ui'"
    using session_event[OF assms(1) _ assms(2), of "LayoutEvent input"] by (simp add: possible_event_def handle_event_def)
  then show thesis using that False i e by (auto simp: layout_mouse_def)
qed

text \<open>In the Settings modal the two buttons step back within the session.\<close>

lemma rightclick_session:
  assumes "session decoders cli ui" "tui_decoders host = decoders" "ui_show_settings ui" "handle_event host event ui = on_back ui"
    "possible_event ui event" "rightclick_back mouse inside on_back ui = Some (consumed, ui')"
  shows "session decoders cli ui'"
  using assms session_event[OF assms(1,5,2)] by (auto simp: rightclick_back_def split: if_splits)

lemma button_session:
  assumes "session decoders cli ui" "tui_decoders host = decoders" "ui_show_settings ui"
    "syntax_button_event host mouse inside ui = Some (consumed, ui') \<or> backend_button_event host mouse inside ui = Some (consumed, ui')"
  shows "session decoders cli ui'"
  using assms(4)
    rightclick_session[OF assms(1-3), of SyntaxPressed "toggle_syntax (tui_decoders host)"]
    rightclick_session[OF assms(1-3), of "BackendPressed False" "cycle_backend (tui_decoders host) (-1)"]
    assms(3) by (auto simp: syntax_button_event_def backend_button_event_def handle_event_def possible_event_def)

lemma modal_session:
  fixes host :: TuiHost
  assumes "session decoders cli ui" "tui_decoders host = decoders"
  shows "ui_show_about ui \<Longrightarrow> session decoders cli (snd (about_modal_event escape ui))"
    "ui_show_settings ui \<Longrightarrow> session decoders cli (snd (settings_modal_event escape ui))"
  using assms(1) session_event[OF assms(1) _ assms(2), of AboutClosed] session_event[OF assms(1) _ assms(2), of SettingsClosed]
  by (simp_all add: about_modal_event_def settings_modal_event_def possible_event_def handle_event_def)

text \<open>
  Giving up the focus hands the wheel back: after a press in the pane or Escape the tab scrolls from its own
  offset, and the focus of the other two tabs is kept.
\<close>

lemma defocus_scrolls: "scroller_render ui (defocus_current_register_tab ui focus) = ScrollOffset (ui_register_scroll ui ! ui_register_tab ui)"
  by (simp add: scroller_render_def register_has_real_focus_def defocus_current_register_tab_def)

lemma defocus_keeps_other_tabs:
  "ui_register_tab other \<noteq> ui_register_tab ui \<Longrightarrow> ui_register_tab other < 3 \<Longrightarrow> ui_register_tab ui < 3 \<Longrightarrow>
   register_has_real_focus other (defocus_current_register_tab ui focus) = register_has_real_focus other focus"
  by (auto simp: register_has_real_focus_def defocus_current_register_tab_def)

text \<open>
  Scrolling the registers: the offset that was written back is not changed by drawing again, its line is the
  first of the viewport, every line of the content can be reached, and a wheel step back is never lost, even
  after the wheel was turned beyond the end.
\<close>

lemma viewport_offset_stable: "viewport_offset y_min y_max min_y (viewport_offset y_min y_max min_y offset) = viewport_offset y_min y_max min_y offset"
  by (simp add: viewport_offset_def Let_def)

lemma viewport_top_aligned: "y_min \<le> y_max \<Longrightarrow> viewport_line y_min y_max min_y offset (viewport_offset y_min y_max min_y offset) = Some y_min"
  by (simp add: viewport_line_def viewport_children_box_def Let_def)

lemma viewport_reaches_line:
  "y_min \<le> y_max \<Longrightarrow> 0 \<le> k \<Longrightarrow> k < min_y \<Longrightarrow> \<exists>line. viewport_line y_min y_max min_y k k = Some line"
  by (auto simp: viewport_line_def viewport_children_box_def viewport_offset_def Let_def)

lemma wheel_back_moves:
  assumes "ui_register_tab ui < length (ui_register_scroll ui)" "offset = viewport_offset y_min y_max min_y drifted" "0 < offset"
    "ui_register_scroll ui ! ui_register_tab ui = offset"
  shows "viewport_offset y_min y_max min_y (ui_register_scroll (register_wheel False True ui) ! ui_register_tab ui) = offset - 1"
  using assms by (auto simp: register_wheel_def viewport_offset_def Let_def)

section \<open>Properties\<close>

text \<open>
  C37: the references that \<open>ftxui::reflect\<close> keeps into the hit vectors stay valid: whatever the state, a drawing of
  a pane pushes no more entries than were reserved, so no vector is reallocated while it is filled,
  and every entry is the region of exactly one cell.
\<close>

theorem drawn_regions_stay_valid:
  "length (panel_hits (render_registers host ui)) \<le> GPR_HITS_RESERVED
    \<and> length (panel_copies (render_registers host ui)) \<le> GPR_COPIES_RESERVED
    \<and> length (panel_hits (render_flags ui)) \<le> length STATUS_FLAGS
    \<and> length (panel_hits (render_xmm floats ui)) \<le> 16 \<and> length (panel_copies (render_xmm floats ui)) \<le> 16 * 7 + 1
    \<and> length (panel_hits (render_x87 floats ui)) \<le> 8 \<and> length (panel_copies (render_x87 floats ui)) \<le> 8 * 3 + 1
    \<and> targets_ok (render_registers host ui) \<and> targets_ok (render_flags ui)
    \<and> targets_ok (render_xmm floats ui) \<and> targets_ok (render_x87 floats ui)"
proof -
  have "length (concat (map (xmm_copies floats ui) [0..<16])) \<le> length [0..<16 :: nat] * 7"
    "length (concat (map (st_copies floats ui) [0..<8])) \<le> length [0..<8 :: nat] * 3"
    by (rule length_concat_le; simp add: length_xmm_copies length_st_copies)+
  then have "length (panel_copies (render_xmm floats ui)) \<le> 16 * 7 + 1" "length (panel_copies (render_x87 floats ui)) \<le> 8 * 3 + 1"
    unfolding render_xmm_parts render_x87_parts by (simp_all add: optional_text_def del: upt_rec_numeral)
  then show ?thesis
    using length_register_pane[of host ui] render_flags_hits[of ui]
    by (simp add: GPR_HITS_RESERVED_def GPR_COPIES_RESERVED_def GPR_COUNT_def render_registers_parts(5) render_xmm_parts(1,5)
        render_x87_parts(1,5) del: upt_rec_numeral)
qed

text \<open>
  C38: the seed fields that can take the focus are exactly the ones that are drawn, in the same order, in all
  three panes and however the registers are expanded.
\<close>

theorem seed_focus_follows_drawing:
  "drawn_seeds (render_registers host ui) = seed_container ui
    \<and> drawn_seeds (render_xmm floats ui) = xmm_seed_container
    \<and> drawn_seeds (render_x87 floats ui) = st_seed_container"
proof -
  have "register_seeds ui reg = (if flat_reg reg then [] else gpr_seed_components ui (reg_index reg))" for reg
    using tree_reg_index[of reg]
    by (simp add: register_seeds_def register_nodes_def node_seed_def gpr_seed_components_def Let_def)
  then have "drawn_seeds (render_registers host ui) = seed_container ui"
    by (simp add: render_registers_parts seed_container_def REGISTER_DISPLAY_ORDER_def GPR_COUNT_def flat_reg_def upt_16
        gpr_seed_components_def[of ui 7])
  then show ?thesis by (simp only: render_xmm_parts render_x87_parts xmm_seed_container_def st_seed_container_def)
qed

text \<open>
  C19: mouse and drawing refine the state machine of the interface: in a session without a modal, a mouse event
  over the regions of any earlier drawing of the panes, over the panes or over the layout leads to a
  state of the session again, so the invariant of the interface holds after it.
\<close>

theorem mouse_stays_in_session:
  assumes "session decoders cli ui" "tui_decoders host = decoders" "\<not> ui_show_about ui" "\<not> ui_show_settings ui"
  shows "session decoders cli (snd (register_view_gpr_event mouse inside (panel_hits (render_registers host drawn)) ui))
    \<and> session decoders cli (snd (register_view_xmm_event mouse inside (panel_hits (render_xmm floats drawn)) ui))
    \<and> session decoders cli (snd (register_view_x87_event mouse inside (panel_hits (render_x87 floats drawn)) ui))
    \<and> session decoders cli (snd (flags_view_event mouse inside (panel_hits (render_flags drawn)) ui))
    \<and> session decoders cli (snd (history_view_event mouse in_pane ui))
    \<and> session decoders cli (snd (snd (registers_view_event mouse in_pane focus ui)))
    \<and> (\<exists>consumed ui'. layout_mouse host mouse boxes copy_hits ui = Some (consumed, ui') \<and> session decoders cli ui')"
proof -
  note press = session_panel_event[OF assms(1) surjective_pairing assms(2)]
  have "session decoders cli (snd (register_view_gpr_event mouse inside (panel_hits (render_registers host drawn)) ui))"
    unfolding register_view_gpr_event_def
    by (rule press[where event = "\<lambda>(reg, level). GPRClicked reg level"])
      (use assms(3,4) register_hits_range in \<open>auto simp: possible_event_def handle_event_def\<close>)
  moreover have "session decoders cli (snd (register_view_xmm_event mouse inside (panel_hits (render_xmm floats drawn)) ui))"
    unfolding register_view_xmm_event_def
    by (rule press[where event = XMMClicked]) (use assms(3,4) in \<open>auto simp: possible_event_def handle_event_def render_xmm_parts(1)\<close>)
  moreover have "session decoders cli (snd (register_view_x87_event mouse inside (panel_hits (render_x87 floats drawn)) ui))"
    unfolding register_view_x87_event_def
    by (rule press[where event = STClicked]) (use assms(3,4) in \<open>auto simp: possible_event_def handle_event_def render_x87_parts(1)\<close>)
  moreover have "session decoders cli (snd (flags_view_event mouse inside (panel_hits (render_flags drawn)) ui))"
    unfolding flags_view_event_def
    by (rule press[where event = FlagClicked]) (use assms(3,4) render_flags_hits in \<open>auto simp: possible_event_def handle_event_def\<close>)
  moreover have "session decoders cli (history_wheel up ui)" "session decoders cli (register_wheel has_real_focus up ui)" for up has_real_focus
    using session_event[OF assms(1) _ assms(2), of "HistoryWheel up"] session_event[OF assms(1) _ assms(2), of "RegisterWheel _ up"]
      assms(3,4) by (simp_all add: possible_event_def handle_event_def)
  moreover from this have "session decoders cli (snd (history_view_event mouse in_pane ui))"
    "session decoders cli (snd (snd (registers_view_event mouse in_pane focus ui)))"
    using assms(1) by (simp_all add: history_view_event_def registers_view_event_def)
  moreover obtain consumed ui' where "layout_mouse host mouse boxes copy_hits ui = Some (consumed, ui')" "session decoders cli ui'"
    by (rule layout_mouse_session[OF assms(1,2)])
  ultimately show ?thesis by blast
qed

theorem mouse_stays_in_session_witness:
  "session example_decoders default_cli
     (snd (register_view_gpr_event \<lparr>mouse_button = LeftButton, mouse_motion = Pressed, mouse_control = False\<rparr> (\<lambda>i. i = 0)
       (panel_hits (render_registers example_tui_host (tui_state example_tui_host default_cli))) (tui_state example_tui_host default_cli)))"
proof -
  let ?ui = "tui_state example_tui_host default_cli"
  have run: "run_tui example_tui_host default_cli = Some ?ui"
    by (simp add: run_tui_def default_cli_def Let_def)
  have "session example_decoders default_cli ?ui"
    by (rule session.start[OF _ run]) (simp add: example_tui_host_def)
  moreover have "tui_decoders example_tui_host = example_decoders" "\<not> ui_show_about ?ui" "\<not> ui_show_settings ?ui"
    by (simp_all add: example_tui_host_def tui_state_def tui_input_def default_cli_def default_ui_def Let_def)
  ultimately show ?thesis using mouse_stays_in_session by blast
qed

end
