(* ===== verification/Reseed.thy ===== *)
theory Reseed
  imports Mouse
begin

text \<open>
  The register panes and the seed fields: the raw texts that the panes of src/src/bme_core.cpp copy, read by
  the parsers of the seed fields.
\<close>

section \<open>Padded digits\<close>

lemma hex_nat_zero: "hex_nat k 0 = replicate k (CHR ''0'')"
proof (induction k)
  case (Suc k)
  have "hexchar 0 = CHR ''0''" by code_simp
  then show ?case using Suc by (simp add: replicate_append_same)
qed simp

lemma hex_padded_nat: "0 < k \<Longrightarrow> n < 16 ^ k \<Longrightarrow> hex_padded k n = hex_nat k n"
proof (induction k arbitrary: n)
  case (Suc k)
  show ?case
  proof (cases "n < 16")
    case True
    then show ?thesis by (simp add: hex_padded_def hex_upper.simps[of n] hex_nat_zero)
  next
    case False
    then have "0 < n div 16" by simp
    moreover have lt: "n div 16 < 16 ^ k" using Suc(3) by (simp add: less_mult_imp_div_less mult.commute)
    ultimately have "0 < k" by (cases k) auto
    then have "hex_padded k (n div 16) = hex_nat k (n div 16)" using Suc.IH lt by simp
    then show ?thesis using False by (simp add: hex_padded_def hex_upper.simps[of n])
  qed
qed simp

lemma hex_padded_word: "0 < k \<Longrightarrow> LENGTH('a) \<le> 4 * k \<Longrightarrow> hex_padded k (unat w) = hex_nat k (unat (w :: 'a::len word))"
proof (rule hex_padded_nat)
  assume "LENGTH('a) \<le> 4 * k"
  then have "(2 :: nat) ^ LENGTH('a) \<le> 2 ^ (k * 4)" by (intro power_increasing) auto
  then show "unat w < 16 ^ k" using unat_lt_2p[of w] by (simp only: pow2_times_4)
qed

lemma parse_seed_hex: "0 < k \<Longrightarrow> n < 16 ^ k \<Longrightarrow> n < 2 ^ 64 \<Longrightarrow> parse_seed (''0x'' @ hex_nat k n) = Inr (word_of_nat n)"
  by (simp add: parse_seed_def from_chars_all_hex_nat)

section \<open>Copied texts as seeds\<close>

text \<open>The text that a click on the raw value beside a seed field copies, and seeds that hold just these texts.\<close>

definition pane_text :: "'h Panel \<Rightarrow> seed_field \<Rightarrow> string" where
  "pane_text panel field = (case map_of (field_texts panel) field of Some text \<Rightarrow> text | None \<Rightarrow> [])"

definition pane_gpr_seeds :: "'h Panel \<Rightarrow> GPRSeed list" where
  "pane_gpr_seeds panel = map (\<lambda>i. empty_gpr_seed\<lparr>full := pane_text panel (GPRField i SliceFull)\<rparr>) [0..<16]"

definition pane_xmm_seeds :: "'h Panel \<Rightarrow> string list" where
  "pane_xmm_seeds panel = map (\<lambda>i. pane_text panel (XMMField i)) [0..<16]"

definition pane_st_seeds :: "'h Panel \<Rightarrow> string list" where
  "pane_st_seeds panel = map (\<lambda>i. pane_text panel (STField i)) [0..<8]"

lemma map_of_concat_slot:
  assumes "x \<in> set xs" "map_of (f x) k = Some v" "\<And>y. y \<in> set xs \<Longrightarrow> y \<noteq> x \<Longrightarrow> k \<notin> fst ` set (f y)"
  shows "map_of (concat (map f xs)) k = Some v"
  using assms
proof (induction xs)
  case (Cons y ys)
  show ?case
  proof (cases "x \<in> set ys")
    case True
    then have "map_of (concat (map f ys)) k = Some v" using Cons by simp
    moreover have "map_of (f y) k = None \<or> map_of (f y) k = Some v"
      using Cons.prems(2) Cons.prems(3)[of y] by (cases "y = x") (auto simp: map_of_eq_None_iff)
    ultimately show ?thesis by (auto simp: map_add_def split: option.splits)
  next
    case False
    then have "y = x" using Cons.prems(1) by simp
    then show ?thesis using Cons.prems(2) by (simp add: map_add_def)
  qed
qed simp

lemma ALL_REGS_index: "ALL_REGS ! reg_index reg = reg"
  by (cases reg) (simp_all add: ALL_REGS_def)

lemma reg_index_inj: "reg_index a = reg_index b \<Longrightarrow> a = b"
  by (metis ALL_REGS_index)

lemma tree_reg_cases:
  assumes "i < 16" "i \<noteq> reg_index RSP"
  obtains reg where "reg \<in> set REGISTER_DISPLAY_ORDER" "\<not> flat_reg reg" "reg_index reg = i" "reg_get r reg = gpr r ! i"
proof -
  have "\<forall>i\<in>set [0..<16]. reg_index (ALL_REGS ! i) = i \<and> ALL_REGS ! i \<in> set REGISTER_DISPLAY_ORDER
      \<and> (i \<noteq> reg_index RSP \<longrightarrow> \<not> flat_reg (ALL_REGS ! i))"
    by code_simp
  then have reg: "reg_index (ALL_REGS ! i) = i" "ALL_REGS ! i \<in> set REGISTER_DISPLAY_ORDER" "\<not> flat_reg (ALL_REGS ! i)"
    using assms by auto
  then have "reg_get r (ALL_REGS ! i) = gpr r ! i"
    by (cases "ALL_REGS ! i") (simp_all add: reg_get_def flat_reg_def)
  then show thesis using that reg by blast
qed

lemma pane_text_gpr:
  assumes "has_trace ui" "i < 16" "i \<noteq> reg_index RSP"
  shows "pane_text (render_registers host ui) (GPRField i SliceFull) = format_hex64_string (gpr (current_registers ui) ! i)"
proof -
  obtain reg where reg: "reg \<in> set REGISTER_DISPLAY_ORDER" "\<not> flat_reg reg" "reg_index reg = i"
    "reg_get (current_registers ui) reg = gpr (current_registers ui) ! i" using tree_reg_cases[OF assms(2,3)] by blast
  have "map_of (concat (map (register_texts ui) REGISTER_DISPLAY_ORDER)) (GPRField i SliceFull)
      = Some (format_hex64_string (gpr (current_registers ui) ! i))"
  proof (rule map_of_concat_slot[OF reg(1)])
    show "map_of (register_texts ui reg) (GPRField i SliceFull) = Some (format_hex64_string (gpr (current_registers ui) ! i))"
      using reg assms(1) by (simp add: register_texts_def register_nodes_def node_texts_def format_hex64_string_def Let_def)
    fix other assume "other \<noteq> reg"
    then have "reg_index other \<noteq> i" using reg(3) reg_index_inj by blast
    then show "GPRField i SliceFull \<notin> fst ` set (register_texts ui other)"
      by (auto simp: register_texts_def node_texts_def split: if_splits prod.splits)
  qed
  then show ?thesis by (simp add: pane_text_def render_registers_parts)
qed

lemma pane_text_no_rsp: "pane_text (render_registers host ui) (GPRField (reg_index RSP) SliceFull) = []"
proof -
  have "GPRField (reg_index RSP) SliceFull \<notin> fst ` set (register_texts ui reg)" for reg
    using tree_reg_index[of reg] by (auto simp: register_texts_def node_texts_def split: if_splits prod.splits)
  then have "map_of (concat (map (register_texts ui) REGISTER_DISPLAY_ORDER)) (GPRField (reg_index RSP) SliceFull) = None"
    by (auto simp: map_of_eq_None_iff)
  then show ?thesis by (simp add: pane_text_def render_registers_parts)
qed

lemma pane_text_xmm:
  assumes "has_trace ui" "i < 16"
  shows "pane_text (render_xmm floats ui) (XMMField i) = xmm_raw_text (xmm (current_registers ui) ! i)"
    "pane_text (render_xmm floats ui) MXCSRField = mxcsr_text ui"
proof -
  have "map_of (concat (map (xmm_texts ui) [0..<16])) (XMMField i) = Some (xmm_raw_text (xmm (current_registers ui) ! i))"
    by (rule map_of_concat_slot[of i]) (use assms in \<open>auto simp: xmm_texts_def\<close>)
  moreover have "map_of (concat (map (xmm_texts ui) [0..<16])) MXCSRField = None"
    by (auto simp: map_of_eq_None_iff xmm_texts_def split: if_splits)
  ultimately show "pane_text (render_xmm floats ui) (XMMField i) = xmm_raw_text (xmm (current_registers ui) ! i)"
    "pane_text (render_xmm floats ui) MXCSRField = mxcsr_text ui"
    using assms(1) by (simp_all add: pane_text_def render_xmm_parts optional_text_def map_add_def del: upt_rec_numeral)
qed

lemma pane_text_st:
  assumes "has_trace ui" "i < 8"
  shows "pane_text (render_x87 floats ui) (STField i) = st_raw_text (st (current_registers ui) ! i)"
    "pane_text (render_x87 floats ui) ControlWordField = control_word_text ui"
proof -
  have "map_of (concat (map (st_texts ui) [0..<8])) (STField i) = Some (st_raw_text (st (current_registers ui) ! i))"
    by (rule map_of_concat_slot[of i]) (use assms in \<open>auto simp: st_texts_def\<close>)
  moreover have "map_of (concat (map (st_texts ui) [0..<8])) ControlWordField = None"
    by (auto simp: map_of_eq_None_iff st_texts_def split: if_splits)
  ultimately show "pane_text (render_x87 floats ui) (STField i) = st_raw_text (st (current_registers ui) ! i)"
    "pane_text (render_x87 floats ui) ControlWordField = control_word_text ui"
    using assms(1) by (simp_all add: pane_text_def render_x87_parts optional_text_def map_add_def del: upt_rec_numeral)
qed

section \<open>Reading the copied texts\<close>

lemma format_hex64_string_hex: "format_hex64_string v = format_hex 16 v"
  by (simp add: format_hex64_string_def format_hex_nat hex_padded_word)

lemma hex_not_x: "is_digit_in 16 c \<Longrightarrow> c \<noteq> CHR ''x'' \<and> c \<noteq> CHR ''X''"
proof -
  have "\<not> is_digit_in 16 (CHR ''x'')" "\<not> is_digit_in 16 (CHR ''X'')" by code_simp+
  then show "is_digit_in 16 c \<Longrightarrow> c \<noteq> CHR ''x'' \<and> c \<noteq> CHR ''X''" by blast
qed

lemma hex_prefix_length_digits: "\<forall>c\<in>set s. is_digit_in 16 c \<Longrightarrow> hex_prefix_length s = 0"
  using hex_not_x by (auto simp: hex_prefix_length_def)

text \<open>The XMM text has no \<open>0x\<close>.\<close>

lemma compose_xmm_seed_raw: "compose_xmm_seed (xmm_raw_text v) = Inr v"
proof -
  obtain lo hi where v: "v = (lo, hi)" by fastforce
  let ?raw = "hex_nat 16 (unat hi) @ hex_nat 16 (unat lo)"
  have digits: "\<forall>c\<in>set ?raw. is_digit_in 16 c" by (auto dest: hex_nat_digits)
  have "compose_xmm_seed ?raw = Inr v"
    using hex_text_not_decimal(2)[OF digits] hex_prefix_length_digits[OF digits]
    by (simp add: v compose_xmm_seed_def from_chars_all_u64 Let_def)
  then show ?thesis by (simp add: v xmm_raw_text_def hex_padded_word)
qed

lemma st_raw_text_format: "st_raw_text b = format_st b"
proof -
  have "join_text [] ts = concat ts" for ts by (induction "[] :: string" ts rule: join_text.induct) simp_all
  then have "hex_bytes [] bs = format_bytes bs" for bs by (simp add: hex_bytes_def format_bytes_nat hex_padded_word)
  then show ?thesis by (simp add: st_raw_text_def format_st_rev)
qed

lemma ucast_unat: "ucast w = word_of_nat (unat w)"
  by simp

lemma parse_mxcsr_seed_text:
  assumes "unat m \<le> 0xFFFF"
  shows "parse_mxcsr_seed (''0x'' @ hex_padded 8 (unat m)) = Inr m"
proof -
  have v: "parse_seed (''0x'' @ hex_nat 8 (unat m)) = Inr (word_of_nat (unat m))"
    using unat_lt_2p[of m] by (intro parse_seed_hex) simp_all
  have u: "unat (word_of_nat (unat m) :: u64) = unat m" using assms by (intro unat_word_of_nat) simp
  then have "\<not> (word_of_nat (unat m) :: u64) > MXCSR_DEFINED_MASK"
    using assms by (simp add: word_less_nat_alt MXCSR_DEFINED_MASK_def)
  moreover have "(ucast (word_of_nat (unat m) :: u64) :: u32) = m"
    using u word_of_nat_unat[of m] ucast_unat[of "word_of_nat (unat m) :: u64"] by metis
  ultimately show ?thesis using v by (simp add: parse_mxcsr_seed_def hex_padded_word del: append_Cons append_Nil)
qed

lemma parse_control_word_text: "parse_fpu_control_word_seed (''0x'' @ hex_padded 4 (unat c)) = Inr c"
proof -
  have lt: "unat c < 2 ^ 16" using unat_lt_2p[of c] by simp
  then have v: "parse_seed (''0x'' @ hex_nat 4 (unat c)) = Inr (word_of_nat (unat c))" by (intro parse_seed_hex) simp_all
  have u: "unat (word_of_nat (unat c) :: u64) = unat c" using lt by (intro unat_word_of_nat) simp
  then have "\<not> (word_of_nat (unat c) :: u64) > 0xFFFF" using lt by (simp add: word_less_nat_alt)
  moreover have "(ucast (word_of_nat (unat c) :: u64) :: u16) = c"
    using u word_of_nat_unat[of c] ucast_unat[of "word_of_nat (unat c) :: u64"] by metis
  ultimately show ?thesis using v by (simp add: parse_fpu_control_word_seed_def hex_padded_word del: append_Cons append_Nil)
qed

lemma compose_full_seed:
  assumes "text = [] \<and> v = 0 \<or> parse_seed text = Inr v"
  shows "compose_gpr_seed (empty_gpr_seed\<lparr>full := text\<rparr>) label errs = (v, errs)"
  using assms by (auto simp: compose_gpr_seed_def empty_gpr_seed_def overlay_def)

lemma gpr_seed_value_full:
  assumes "text = [] \<and> v = 0 \<or> parse_seed text = Inr v"
  shows "gpr_seed_value (empty_gpr_seed\<lparr>full := text\<rparr>) = v" "snd (compose_gpr_seed (empty_gpr_seed\<lparr>full := text\<rparr>) label []) = []"
  using compose_full_seed[OF assms, of label "[]"] compose_gpr_seed_eq[of "empty_gpr_seed\<lparr>full := text\<rparr>" label "[]"] by simp_all

text \<open>Each seed that the panes give reads back as the value that is shown.\<close>

lemma format_st_not_Nil [simp]: "format_st b \<noteq> []"
  by (simp add: format_st_def)

lemma reseed_gpr:
  assumes "has_trace ui" "length (gpr (current_registers ui)) = 16" "i < 16"
  shows "gpr_seed_value (pane_gpr_seeds (render_registers host ui) ! i) = (gpr (current_registers ui))[reg_index RSP := 0] ! i"
    "gpr_messages (pane_gpr_seeds (render_registers host ui)) i = []"
proof -
  let ?t = "pane_text (render_registers host ui) (GPRField i SliceFull)" and ?v = "(gpr (current_registers ui))[reg_index RSP := 0] ! i"
  have "?t = [] \<and> ?v = 0 \<or> parse_seed ?t = Inr ?v"
    using pane_text_no_rsp[of host ui] pane_text_gpr[OF assms(1,3)] assms(2,3)
    by (cases "i = reg_index RSP") (simp_all add: format_hex64_string_hex parse_seed_format_hex)
  from gpr_seed_value_full[OF this] assms(3)
  show "gpr_seed_value (pane_gpr_seeds (render_registers host ui) ! i) = ?v" "gpr_messages (pane_gpr_seeds (render_registers host ui)) i = []"
    by (simp_all add: pane_gpr_seeds_def gpr_messages_def del: upt_rec_numeral)
qed

lemma reseed_xmm:
  assumes "has_trace ui" "i < 16"
  shows "compose_xmm_seed (pane_xmm_seeds (render_xmm floats ui) ! i) = Inr (xmm (current_registers ui) ! i)"
  using assms pane_text_xmm(1)[OF assms] by (simp add: pane_xmm_seeds_def compose_xmm_seed_raw del: upt_rec_numeral)

lemma reseed_st:
  assumes "has_trace ui" "i < 8" "length (st (current_registers ui) ! i) = 10"
  shows "compose_st_seed (pane_st_seeds (render_x87 floats ui) ! i) = Inr (st (current_registers ui) ! i)"
    "pane_st_seeds (render_x87 floats ui) ! i \<noteq> []"
  using assms pane_text_st(1)[OF assms(1,2)]
  by (simp_all add: pane_st_seeds_def st_raw_text_format compose_st_seed_format_st del: upt_rec_numeral)

lemma reseed_environment:
  assumes "has_trace ui" "unat (mxcsr (current_registers ui)) \<le> 0xFFFF"
  shows "parse_mxcsr_seed (pane_text (render_xmm floats ui) MXCSRField) = Inr (mxcsr (current_registers ui))"
    "parse_fpu_control_word_seed (pane_text (render_x87 floats ui) ControlWordField) = Inr (fpu_control_word (current_registers ui))"
    "pane_text (render_xmm floats ui) MXCSRField \<noteq> []" "pane_text (render_x87 floats ui) ControlWordField \<noteq> []"
  using pane_text_xmm(2)[OF assms(1), of 0] pane_text_st(2)[OF assms(1), of 0] parse_mxcsr_seed_text[OF assms(2)] parse_control_word_text
  by (simp_all add: mxcsr_text_def control_word_text_def)

lemma reseed_tag:
  assumes "has_trace ui" "\<And>i. i < 8 \<Longrightarrow> length (st (current_registers ui) ! i) = 10"
  shows "seed_tag_byte (pane_st_seeds (render_x87 floats ui)) = 0xFF"
proof (rule bit_word_eqI)
  fix n assume "n < LENGTH(8)"
  then show "bit (seed_tag_byte (pane_st_seeds (render_x87 floats ui))) n \<longleftrightarrow> bit (0xFF :: u8) n"
    using reseed_st[OF assms(1) _ assms(2), of n] bit_mask_iff[of 8 n, where 'a = u8]
    by (simp add: bit_seed_tag_byte st_seeded_def mask_eq_exp_minus_1)
qed

section \<open>Properties\<close>

text \<open>
  C18: the values that the panes show can be typed back in: when the raw texts that the panes copy for the
  row at the cursor are entered as seeds, every field is accepted and the composed registers are those
  shown, in the general-purpose registers but RSP, all lanes, all x87 slots, MXCSR (which a seed can set up to
  0xFFFF) and the control word, however the panes are expanded. What has no field of this kind is not rebuilt: RSP, RIP and
  the status word are zero, RFLAGS is what the flag seeds say, and all x87 slots count as occupied.
\<close>

theorem shown_registers_reseed:
  assumes "has_trace ui" "wf_registers (current_registers ui)" "unat (mxcsr (current_registers ui)) \<le> 0xFFFF"
  shows "compose_seed (pane_gpr_seeds (render_registers host ui)) flags (pane_xmm_seeds (render_xmm floats ui))
      (pane_st_seeds (render_x87 floats ui))
      \<lparr>seed_mxcsr = pane_text (render_xmm floats ui) MXCSRField,
       seed_fpu_control_word = pane_text (render_x87 floats ui) ControlWordField\<rparr> []
    = ((current_registers ui)\<lparr>gpr := (gpr (current_registers ui))[reg_index RSP := 0], rip := 0, rflags := flags,
        fpu_status_word := 0, fpu_tag_word_abridged := 0xFF\<rparr>, [])"
proof -
  let ?r = "current_registers ui"
  let ?gprs = "pane_gpr_seeds (render_registers host ui)" and ?xmms = "pane_xmm_seeds (render_xmm floats ui)"
  let ?sts = "pane_st_seeds (render_x87 floats ui)"
  have len: "length (gpr ?r) = 16" "length (xmm ?r) = 16" "length (st ?r) = 8" "\<And>i. i < 8 \<Longrightarrow> length (st ?r ! i) = 10"
    using assms(2) by (auto simp: wf_registers_def)
  note seeds = reseed_gpr[OF assms(1) len(1)] reseed_xmm[OF assms(1)] reseed_st[OF assms(1) _ len(4)]
  note env = reseed_environment[OF assms(1,3)]
  have lists: "map (\<lambda>i. gpr_seed_value (?gprs ! i)) [0..<16] = (gpr ?r)[reg_index RSP := 0]"
    "map (\<lambda>i. xmm_seed_value (?xmms ! i)) [0..<16] = xmm ?r" "map (\<lambda>i. st_seed_value (?sts ! i)) [0..<8] = st ?r"
    using seeds len by (auto intro!: nth_equalityI simp: xmm_seed_value_def st_seed_value_def simp del: upt_rec_numeral)
  have "concat (map (gpr_messages ?gprs) [0..<16]) = []" "concat (map (xmm_messages ?xmms) [0..<16]) = []"
    "concat (map (st_messages ?sts) [0..<8]) = []"
    using seeds by (auto simp: xmm_messages_def st_messages_def simp del: upt_rec_numeral)
  moreover have "seed_tag_byte ?sts = 0xFF" by (rule reseed_tag[OF assms(1)]) (rule len(4))
  ultimately show ?thesis
    unfolding compose_seed_eq seed_registers_def seed_messages_def lists
    using env by (cases ?r) (simp add: mxcsr_seed_value_def control_word_seed_value_def environment_messages_def)
qed

definition example_traced_ui :: UI where
  "example_traced_ui = default_ui\<lparr>ui_history_rows := [\<lparr>row_rip = 0, row_text = ''nop'', row_offset = 0, row_length = 1,
     row_kind = NotReached, row_event = None\<rparr>]\<rparr>"

definition example_floats :: FloatHost where
  "example_floats = \<lparr>float_x87 = \<lparr>x87_control = 0x037F, x87_flags = 0, x87_c1 = False, x87_stack = []\<rparr>, float_double_text = (\<lambda>_. ''0''), float_single_text = (\<lambda>_. ''0'')\<rparr>"

theorem shown_registers_reseed_witness:
  "snd (compose_seed (pane_gpr_seeds (render_registers example_tui_host example_traced_ui)) 0
      (pane_xmm_seeds (render_xmm example_floats example_traced_ui)) (pane_st_seeds (render_x87 example_floats example_traced_ui))
      \<lparr>seed_mxcsr = pane_text (render_xmm example_floats example_traced_ui) MXCSRField,
       seed_fpu_control_word = pane_text (render_x87 example_floats example_traced_ui) ControlWordField\<rparr> []) = []"
proof -
  have "current_registers example_traced_ui = default_registers"
    by (simp add: current_registers_def history_state_at_def history_rows_at_def example_traced_ui_def default_ui_def default_trace_def)
  then have "has_trace example_traced_ui" "wf_registers (current_registers example_traced_ui)"
    "unat (mxcsr (current_registers example_traced_ui)) \<le> 0xFFFF"
    by (simp_all add: has_trace_def example_traced_ui_def wf_registers_def default_registers_def DEFAULT_MXCSR_def)
  from shown_registers_reseed[OF this, of example_tui_host 0 example_floats] show ?thesis by simp
qed

end
