(* ===== verification/Rounding.thy ===== *)
theory Rounding
  imports St80
begin

text \<open>
  What the assembly of src/src/st80.S computes: the 80-bit value, rounded to a double or a float in the mode of the
  traced control word. The specification speaks about real numbers and the representable values next to them;
  the conversions of \<open>St80\<close> meet it, in every state in which the host's x87 unit is ready.
\<close>

section \<open>The representable values\<close>

lemma bits_real_place:
  assumes "emin \<le> e" "m \<le> 2 ^ p" "2 ^ (p - 1) \<le> m \<or> e = emin" "0 < p"
  shows "bits_real p emin (nat (e - emin) * 2 ^ (p - 1) + m) = real m * 2 powi e"
proof -
  consider "m = 0" | "0 < m" "m < 2 ^ p" | "m = 2 ^ p" using assms(2) by linarith
  then show ?thesis
  proof cases
    case 1
    then have "e = emin" using assms(3) by auto
    then show ?thesis using 1 by (simp add: bits_real_def binary_parts_def)
  next
    case 2
    then show ?thesis using assms by (intro bits_real_encoded) (auto simp: in_format_def)
  next
    case 3
    have two: "(2 :: nat) ^ p = 2 * 2 ^ (p - 1)" using assms(4) by (cases p) simp_all
    have "nat (e + 1 - emin) = nat (e - emin) + 1" using assms(1) by simp
    then have "nat (e - emin) * 2 ^ (p - 1) + m = nat (e + 1 - emin) * 2 ^ (p - 1) + 2 ^ (p - 1)"
      unfolding 3 two by (simp add: algebra_simps)
    moreover have "in_format p emin (2 ^ (p - 1)) (e + 1)" using assms(1) two by (simp add: in_format_def)
    ultimately have "bits_real p emin (nat (e - emin) * 2 ^ (p - 1) + m) = real (2 ^ (p - 1)) * 2 powi (e + 1)"
      using bits_real_encoded[OF _ assms(4)] by metis
    also have "\<dots> = real (2 ^ p) * 2 powi e" unfolding two by (simp add: power_int_add)
    finally show ?thesis using 3 by simp
  qed
qed

lemma bits_real_Suc: "0 < p \<Longrightarrow> bits_real p emin b < bits_real p emin (Suc b)"
proof (cases "b = 0")
  case True
  assume "0 < p"
  then show ?thesis
    using True bits_real_place[of emin emin 0 p] bits_real_place[of emin emin 1 p] by simp
next
  case False
  assume p: "0 < p"
  obtain m e where me: "binary_parts p emin b = (m, e)" by fastforce
  have fmt: "in_format p emin m e" "b = nat (e - emin) * 2 ^ (p - 1) + m"
    using binary_parts_in_format[OF _ p me] False by auto
  then have "bits_real p emin (nat (e - emin) * 2 ^ (p - 1) + Suc m) = real (Suc m) * 2 powi e"
    using p by (intro bits_real_place) (auto simp: in_format_def)
  then have "bits_real p emin (Suc b) = real (Suc m) * 2 powi e" using fmt(2) by simp
  moreover have "bits_real p emin b = real m * 2 powi e" by (simp add: bits_real_def me)
  moreover have "real m * 2 powi e < real (Suc m) * 2 powi e" by (intro mult_strict_right_mono) simp_all
  ultimately show ?thesis by simp
qed

lemma bits_real_0 [simp]: "bits_real p emin 0 = 0"
  by (simp add: bits_real_def binary_parts_def)

lemma bits_real_less: "0 < p \<Longrightarrow> bits_real p emin a < bits_real p emin b \<longleftrightarrow> a < b"
  using lift_Suc_mono_less_iff[of "bits_real p emin"] bits_real_Suc by blast

lemma bits_real_le: "0 < p \<Longrightarrow> bits_real p emin a \<le> bits_real p emin b \<longleftrightarrow> a \<le> b"
  using bits_real_less[of p emin b a] by (simp add: not_less[symmetric])

lemma bits_real_nonneg: "0 < p \<Longrightarrow> 0 \<le> bits_real p emin b"
  using bits_real_le[of p emin 0 b] by simp

text \<open>
  The quotient \<open>n / d\<close> lies between two neighbours, at whole places \<open>q\<close> and \<open>q + 1\<close> of its last place; the remainder tells
  how far.
\<close>

lemma last_place_quotient:
  fixes emin :: int
  assumes "0 < n" "0 < d" "0 < p"
  defines "e \<equiv> last_place p emin n d"
  defines "q \<equiv> (n * 2 ^ nat (- e)) div (d * 2 ^ nat e)"
  shows "emin \<le> e" "q < 2 ^ p" "2 ^ (p - 1) \<le> q \<or> e = emin"
    and "real n / real d = (real q + real ((n * 2 ^ nat (- e)) mod (d * 2 ^ nat e)) / real (d * 2 ^ nat e)) * 2 powi e"
proof -
  let ?num = "n * 2 ^ nat (- e)" and ?den = "d * 2 ^ nat e"
  have den: "0 < ?den" using assms(2) by simp
  have e: "e = max (leading_bit n d - int p + 1) emin" by (simp add: e_def last_place_leading)
  then show "emin \<le> e" by simp
  have ratio: "real ?num / real ?den = real n / real d / 2 powi e"
    using assms(2) by (cases "0 \<le> e") (auto simp: power_int_def field_simps)
  have split: "real ?num / real ?den = real q + real (?num mod ?den) / real ?den"
  proof -
    have "real ?num = real (q * ?den + ?num mod ?den)" unfolding q_def by (simp only: div_mult_mod_eq)
    then have "real ?num = real q * real ?den + real (?num mod ?den)" by (simp only: of_nat_add of_nat_mult)
    then show ?thesis using den by (simp add: add_divide_distrib del: of_nat_mult of_nat_power)
  qed
  show "real n / real d = (real q + real (?num mod ?den) / real ?den) * 2 powi e"
    unfolding split[symmetric] ratio by simp
  have frac: "0 \<le> real (?num mod ?den) / real ?den" "real (?num mod ?den) / real ?den < 1"
    using den by (simp_all add: divide_less_eq_1 of_nat_less_iff del: of_nat_mult of_nat_power)
  note lead = leading_bit_bounds[OF assms(1,2)]
  have "(2 :: real) powi (leading_bit n d + 1) \<le> 2 powi (int p + e)" using e powi_less_iff[of "int p + e" "leading_bit n d + 1"] by linarith
  then have "real n / real d < 2 powi int p * 2 powi e" using lead(2) by (simp only: powi_add)
  then have "real n / real d / 2 powi e < 2 powi int p" by (simp only: pos_divide_less_eq zero_less_power_int zero_less_numeral)
  then have "real q < 2 powi int p" using split ratio frac(1) by linarith
  then have "real q < 2 ^ p" by (simp only: power_int_of_nat)
  then show "q < 2 ^ p" by (metis of_nat_less_iff of_nat_numeral of_nat_power)
  show "2 ^ (p - 1) \<le> q \<or> e = emin"
  proof (cases "e = emin")
    case False
    then have "leading_bit n d = int p - 1 + e" using e by simp
    then have "2 powi (int p - 1) * 2 powi e \<le> real n / real d" using lead(1) by (simp only: powi_add)
    then have "2 powi (int p - 1) \<le> real n / real d / 2 powi e" by (simp only: pos_le_divide_eq zero_less_power_int zero_less_numeral)
    moreover have "(2 :: real) powi (int p - 1) = 2 ^ (p - 1)" using assms(3) by (simp add: power_int_def nat_diff_distrib)
    ultimately have "real (2 ^ (p - 1)) < real (Suc q)" using split ratio frac(2) by simp
    then show ?thesis by (simp only: of_nat_less_iff) simp
  qed simp
qed

lemma fraction_compare:
  fixes r den :: nat
  assumes "0 < den" "r < den"
  shows "0 \<le> real r / real den" "real r / real den < 1" "1 / 2 < real r / real den \<longleftrightarrow> den < 2 * r"
    "real r / real den = 1 / 2 \<longleftrightarrow> 2 * r = den" "0 < real r / real den \<longleftrightarrow> 0 < r"
proof -
  show "0 \<le> real r / real den" "0 < real r / real den \<longleftrightarrow> 0 < r" using assms(1) by (simp_all add: zero_less_divide_iff)
  show "real r / real den < 1" using assms by simp
  have "1 / 2 < real r / real den \<longleftrightarrow> real den < real (2 * r)" "real r / real den = 1 / 2 \<longleftrightarrow> real (2 * r) = real den"
    using assms(1) by (simp_all add: divide_simps mult.commute[of _ 2])
  then show "1 / 2 < real r / real den \<longleftrightarrow> den < 2 * r" "real r / real den = 1 / 2 \<longleftrightarrow> 2 * r = den"
    by (simp_all only: of_nat_less_iff of_nat_eq_iff)
qed

lemma round_magnitude_neighbours:
  assumes "0 < n" "0 < d" "2 \<le> p"
  obtains lo where "bits_real p emin lo \<le> real n / real d" "real n / real d < bits_real p emin (Suc lo)"
    "\<And>mode negative. round_magnitude p emin mode negative n d
      = (if (if mode = RoundNearest
             then bits_real p emin lo + bits_real p emin (Suc lo) < 2 * (real n / real d)
               \<or> (bits_real p emin lo + bits_real p emin (Suc lo) = 2 * (real n / real d) \<and> odd lo)
             else away_from_zero mode negative \<and> bits_real p emin lo < real n / real d)
         then Suc lo else lo)"
proof -
  define e where "e = last_place p emin n d"
  define num where "num = n * 2 ^ nat (- e)"
  define den where "den = d * 2 ^ nat e"
  define F where "F = real (num mod den) / real den"
  define u :: real where "u = 2 powi e"
  let ?q = "num div den"
  let ?lo = "nat (e - emin) * 2 ^ (p - 1) + ?q"
  have p: "0 < p" using assms(3) by simp
  note place = last_place_quotient[OF assms(1,2) p, of emin, folded e_def, folded num_def den_def, folded F_def, folded u_def]
  have den: "0 < den" using assms(2) by (simp add: den_def)
  have u: "0 < u" by (simp add: u_def)
  have lo: "bits_real p emin ?lo = real ?q * u" "bits_real p emin (nat (e - emin) * 2 ^ (p - 1) + Suc ?q) = real (Suc ?q) * u"
    unfolding u_def by (rule bits_real_place[OF place(1) _ _ p]; use place(2,3) in linarith)+
  have F: "0 \<le> F" "F < 1" "1 / 2 < F \<longleftrightarrow> den < 2 * (num mod den)" "F = 1 / 2 \<longleftrightarrow> 2 * (num mod den) = den" "0 < F \<longleftrightarrow> 0 < num mod den"
    unfolding F_def using fraction_compare[OF den mod_less_divisor[OF den]] by simp_all
  have X: "real n / real d = bits_real p emin ?lo + F * u" using place(4) lo(1) by (simp add: algebra_simps)
  have hi: "bits_real p emin (Suc ?lo) = bits_real p emin ?lo + u" using lo by (simp add: algebra_simps)
  have odd: "odd ?lo \<longleftrightarrow> odd ?q" using assms(3) by (cases "p - 1") simp_all
  have "u < 2 * (F * u) \<longleftrightarrow> 1 / 2 < F" "u = 2 * (F * u) \<longleftrightarrow> F = 1 / 2" "0 < F * u \<longleftrightarrow> 0 < F"
    using u mult_less_cancel_right_pos[of u "1 / 2" F] mult_cancel_right[of "1 / 2" u F] by (auto simp: zero_less_mult_iff)
  note up = this[unfolded F(3-5)]
  show thesis
  proof (rule that[of ?lo])
    show "bits_real p emin ?lo \<le> real n / real d" unfolding X using F(1) u by simp
    show "real n / real d < bits_real p emin (Suc ?lo)" unfolding X hi using F(2) u by simp
    show "round_magnitude p emin mode negative n d
      = (if (if mode = RoundNearest
             then bits_real p emin ?lo + bits_real p emin (Suc ?lo) < 2 * (real n / real d)
               \<or> (bits_real p emin ?lo + bits_real p emin (Suc ?lo) = 2 * (real n / real d) \<and> odd ?lo)
             else away_from_zero mode negative \<and> bits_real p emin ?lo < real n / real d)
         then Suc ?lo else ?lo)" for mode negative
      unfolding X hi round_magnitude_def Let_def e_def[symmetric] num_def[symmetric] den_def[symmetric] odd
      using up by (simp add: distrib_left)
  qed
qed

section \<open>Correct rounding\<close>

text \<open>
  The real number with a sign and magnitude bits, and what it means that bits are the rounding of a number in a mode: a
  finite result is the nearest representable value (of two the one with even bits), the greatest that is not
  above, the least that is not below, or the largest that is not farther from zero; an infinite result means
  that no finite value qualifies, or in the nearest mode that the number is at least half a place beyond the largest.
\<close>

definition signed_real :: "nat \<Rightarrow> int \<Rightarrow> bool \<Rightarrow> nat \<Rightarrow> real" where
  "signed_real p emin negative b = (if negative then - bits_real p emin b else bits_real p emin b)"

definition correctly_rounded :: "nat \<Rightarrow> int \<Rightarrow> nat \<Rightarrow> rounding \<Rightarrow> real \<Rightarrow> bool \<Rightarrow> nat \<Rightarrow> bool" where
  "correctly_rounded p emin infinity mode x negative b \<longleftrightarrow>
     (let v = signed_real p emin
      in if b < infinity
         then (case mode of
             RoundNearest \<Rightarrow> \<forall>s c. c < infinity \<longrightarrow> \<bar>v negative b - x\<bar> \<le> \<bar>v s c - x\<bar>
               \<and> (\<bar>v negative b - x\<bar> = \<bar>v s c - x\<bar> \<and> v s c \<noteq> v negative b \<longrightarrow> even b)
           | RoundDown \<Rightarrow> v negative b \<le> x \<and> (\<forall>s c. c < infinity \<and> v s c \<le> x \<longrightarrow> v s c \<le> v negative b)
           | RoundUp \<Rightarrow> x \<le> v negative b \<and> (\<forall>s c. c < infinity \<and> x \<le> v s c \<longrightarrow> v negative b \<le> v s c)
           | RoundTruncate \<Rightarrow> \<bar>v negative b\<bar> \<le> \<bar>x\<bar> \<and> (\<forall>s c. c < infinity \<and> \<bar>v s c\<bar> \<le> \<bar>x\<bar> \<longrightarrow> \<bar>v s c\<bar> \<le> \<bar>v negative b\<bar>))
         else b = infinity
           \<and> (case mode of
               RoundNearest \<Rightarrow> (bits_real p emin (infinity - 1) + bits_real p emin infinity) / 2 \<le> \<bar>x\<bar>
             | RoundDown \<Rightarrow> negative \<and> (\<forall>s c. c < infinity \<longrightarrow> x < v s c)
             | RoundUp \<Rightarrow> \<not> negative \<and> (\<forall>s c. c < infinity \<longrightarrow> v s c < x)
             | RoundTruncate \<Rightarrow> False))"

text \<open>The modes that round the magnitude down, up and to the nearest value.\<close>

lemma round_toward_zero:
  assumes "0 < p" "bits_real p emin lo \<le> X" "X < bits_real p emin (Suc lo)" "mode \<noteq> RoundNearest" "\<not> away_from_zero mode negative" "0 < infinity"
  shows "correctly_rounded p emin infinity mode (if negative then - X else X) negative (if lo < infinity then lo else infinity - 1)"
proof -
  let ?f = "bits_real p emin" and ?b = "if lo < infinity then lo else infinity - 1"
  have b: "?b < infinity" "?f ?b \<le> X" using assms(2,6) bits_real_le[OF assms(1), of emin ?b lo] by auto
  have max: "?f c \<le> ?f ?b" if "c < infinity" "?f c \<le> X" for c
  proof -
    have "?f c < ?f (Suc lo)" using that(2) assms(3) by linarith
    then have "c \<le> lo" by (simp add: bits_real_less[OF assms(1)])
    then show ?thesis using that(1) by (auto simp: bits_real_le[OF assms(1)])
  qed
  have nonneg: "0 \<le> ?f c" for c by (rule bits_real_nonneg[OF assms(1)])
  have X: "0 \<le> X" using nonneg[of lo] assms(2) by linarith
  have above: "- ?f c \<le> ?f a" for a c using nonneg[of a] nonneg[of c] by linarith
  show ?thesis
    using assms(4,5) b(1,2) X nonneg max above unfolding correctly_rounded_def Let_def signed_real_def
    by (cases mode; cases negative) (auto simp: away_from_zero_def)
qed

lemma round_away_from_zero:
  assumes "0 < p" "X \<le> bits_real p emin hi" "\<And>c. c < hi \<Longrightarrow> bits_real p emin c < X" "0 < X" "away_from_zero mode negative"
  shows "correctly_rounded p emin infinity mode (if negative then - X else X) negative (if hi < infinity then hi else infinity)"
proof -
  let ?f = "bits_real p emin"
  have nonneg: "0 \<le> ?f c" for c by (rule bits_real_nonneg[OF assms(1)])
  have min: "?f hi \<le> ?f c" if "X \<le> ?f c" for c
    using assms(3)[of c] that bits_real_le[OF assms(1), of emin hi c] by (meson not_le)
  have neg: "- ?f c < X" for c using nonneg[of c] assms(4) by linarith
  have far: "?f c < X" if "c < infinity" "\<not> hi < infinity" for c using assms(3)[of c] that by simp
  consider "mode = RoundDown" "negative" | "mode = RoundUp" "\<not> negative"
    using assms(5) by (auto simp: away_from_zero_def split: if_splits)
  then show ?thesis
  proof cases
    case 1
    have below: "- X < signed_real p emin s c \<or> - X \<ge> signed_real p emin s c \<and> s \<and> X \<le> ?f c" for s c
      using neg[of c] by (auto simp: signed_real_def)
    show ?thesis
    proof (cases "hi < infinity")
      case True
      have "signed_real p emin s c \<le> - ?f hi" if "signed_real p emin s c \<le> - X" for s c
        using below[of s c] that min[of c] by (auto simp: signed_real_def)
      then show ?thesis using 1 True assms(2) by (simp add: correctly_rounded_def) (simp add: signed_real_def)
    next
      case False
      have "- X < signed_real p emin s c" if "c < infinity" for s c
        using far[OF that False] neg[of c] by (auto simp: signed_real_def)
      then show ?thesis using 1 False by (simp add: correctly_rounded_def)
    qed
  next
    case 2
    show ?thesis
    proof (cases "hi < infinity")
      case True
      have "?f hi \<le> signed_real p emin s c" if "X \<le> signed_real p emin s c" for s c
        using that neg[of c] min[of c] by (auto simp: signed_real_def split: if_splits)
      then show ?thesis using 2 True assms(2) by (simp add: correctly_rounded_def) (simp add: signed_real_def)
    next
      case False
      have "signed_real p emin s c < X" if "c < infinity" for s c
        using far[OF that False] neg[of c] by (auto simp: signed_real_def)
      then show ?thesis using 2 False by (simp add: correctly_rounded_def)
    qed
  qed
qed

lemma round_nearest:
  assumes "0 < p" "bits_real p emin lo \<le> X" "X < bits_real p emin (Suc lo)" "0 < infinity"
  defines "b \<equiv> if bits_real p emin lo + bits_real p emin (Suc lo) < 2 * X \<or> (bits_real p emin lo + bits_real p emin (Suc lo) = 2 * X \<and> odd lo)
    then Suc lo else lo"
  shows "correctly_rounded p emin infinity RoundNearest (if negative then - X else X) negative (if b < infinity then b else infinity)"
proof (cases "b < infinity")
  case True
  let ?f = "bits_real p emin"
  have nonneg: "0 \<le> ?f c" for c by (rule bits_real_nonneg[OF assms(1)])
  have same: "\<bar>?f b - X\<bar> \<le> \<bar>?f c - X\<bar> \<and> (\<bar>?f b - X\<bar> = \<bar>?f c - X\<bar> \<and> ?f c \<noteq> ?f b \<longrightarrow> even b)" for c
  proof -
    consider "?f c < ?f lo" | "c = lo" | "c = Suc lo" | "?f (Suc lo) < ?f c"
      unfolding bits_real_less[OF assms(1)] by linarith
    then show ?thesis using assms(2,3) unfolding b_def by cases (auto simp: abs_if)
  qed
  have other: "\<bar>?f b - X\<bar> \<le> ?f c + X \<and> (\<bar>?f b - X\<bar> = ?f c + X \<and> - ?f c \<noteq> ?f b \<longrightarrow> even b)" for c
    using assms(2,3) nonneg[of c] nonneg[of lo] unfolding b_def by (auto simp: abs_if)
  have "\<bar>signed_real p emin negative b - (if negative then - X else X)\<bar> = \<bar>?f b - X\<bar>" by (auto simp: signed_real_def)
  moreover have "\<bar>signed_real p emin s c - (if negative then - X else X)\<bar> = (if s = negative then \<bar>?f c - X\<bar> else ?f c + X)" for s c
    using nonneg[of c] nonneg[of lo] assms(2) by (auto simp: signed_real_def)
  moreover have "signed_real p emin s c \<noteq> signed_real p emin negative b \<longleftrightarrow> (if s = negative then ?f c \<noteq> ?f b else - ?f c \<noteq> ?f b)" for s c
    by (auto simp: signed_real_def)
  ultimately show ?thesis using True same other by (simp add: correctly_rounded_def) blast
next
  case False
  let ?f = "bits_real p emin"
  have "?f (infinity - 1) + ?f infinity \<le> 2 * X"
  proof (cases "infinity \<le> lo")
    case True
    then have "?f (infinity - 1) \<le> ?f lo" "?f infinity \<le> ?f lo" unfolding bits_real_le[OF assms(1)] by simp_all
    then show ?thesis using assms(2) by linarith
  next
    case less: False
    then have "infinity = Suc lo" "?f lo + ?f (Suc lo) \<le> 2 * X" using False unfolding b_def by (auto split: if_splits)
    then show ?thesis by simp
  qed
  moreover have "\<bar>if negative then - X else X\<bar> = X" using assms(2) bits_real_nonneg[OF assms(1), of emin lo] by simp
  ultimately show ?thesis using False by (simp add: correctly_rounded_def)
qed

text \<open>The rounding of a quotient is correct in every mode.\<close>

lemma round_result_correct:
  assumes "0 < n" "0 < d" "2 \<le> p" "0 < infinity"
  shows "correctly_rounded p emin infinity mode (if negative then - (real n / real d) else real n / real d) negative
    (round_result p emin infinity mode negative n d)"
proof -
  let ?f = "bits_real p emin"
  define X where "X = real n / real d"
  obtain lo where lo: "?f lo \<le> X" "X < ?f (Suc lo)"
    and mag: "\<And>mode negative. round_magnitude p emin mode negative n d
      = (if (if mode = RoundNearest then ?f lo + ?f (Suc lo) < 2 * X \<or> (?f lo + ?f (Suc lo) = 2 * X \<and> odd lo)
             else away_from_zero mode negative \<and> ?f lo < X) then Suc lo else lo)"
    unfolding X_def by (rule round_magnitude_neighbours[OF assms(1-3), of emin]) blast
  have p: "0 < p" using assms(3) by simp
  consider (nearest) "mode = RoundNearest" | (zero) "mode \<noteq> RoundNearest" "\<not> away_from_zero mode negative"
    | (away) "mode \<noteq> RoundNearest" "away_from_zero mode negative" by blast
  then have "correctly_rounded p emin infinity mode (if negative then - X else X) negative (round_result p emin infinity mode negative n d)"
  proof cases
    case nearest
    have "round_result p emin infinity mode negative n d = (let b = round_magnitude p emin RoundNearest negative n d in if b < infinity then b else infinity)"
      by (simp add: round_result_def nearest Let_def)
    then show ?thesis using round_nearest[OF p lo assms(4), of negative] by (simp only: nearest mag Let_def simp_thms if_True)
  next
    case zero
    then have "round_result p emin infinity mode negative n d = (if lo < infinity then lo else infinity - 1)"
      by (simp add: round_result_def mag)
    then show ?thesis using round_toward_zero[OF p lo zero assms(4)] by simp
  next
    case away
    define hi where "hi = (if ?f lo < X then Suc lo else lo)"
    have "X \<le> ?f hi" using lo unfolding hi_def by auto
    moreover have "?f c < X" if "c < hi" for c
      using that lo bits_real_le[OF p, of emin c lo] bits_real_less[OF p, of emin c lo] unfolding hi_def by (auto split: if_splits)
    moreover have "0 < X" using assms(1,2) by (simp add: X_def)
    moreover have "round_result p emin infinity mode negative n d = (if hi < infinity then hi else infinity)"
      using away by (simp add: round_result_def mag hi_def)
    ultimately show ?thesis using round_away_from_zero[OF p _ _ _ away(2), of X emin hi infinity] by simp
  qed
  then show ?thesis unfolding X_def .
qed

section \<open>The conversions\<close>

text \<open>
  The number that ten bytes encode, and what the narrower bits have to be: a finite number is rounded
  correctly under its sign, an infinity keeps its sign, and everything else gives a NaN.
\<close>

definition st80_real :: "u8 list \<Rightarrow> real" where
  "st80_real bytes =
     (let x = real (unat (st_mantissa bytes)) * 2 powi (int (max (unat (st_exponent bytes)) 1) - 16446)
      in if 128 \<le> unat (bytes ! 9) then - x else x)"

definition st80_finite :: "u8 list \<Rightarrow> bool" where
  "st80_finite bytes \<longleftrightarrow> st_exponent bytes = 0 \<or> (unat (st_exponent bytes) \<noteq> 32767 \<and> 2 ^ 63 \<le> unat (st_mantissa bytes))"

definition narrowed :: "nat \<Rightarrow> int \<Rightarrow> nat \<Rightarrow> rounding \<Rightarrow> u8 list \<Rightarrow> bool \<Rightarrow> nat \<Rightarrow> bool" where
  "narrowed p emin infinity mode bytes negative bits \<longleftrightarrow>
     (if st80_finite bytes
      then (negative \<longleftrightarrow> 128 \<le> unat (bytes ! 9)) \<and> correctly_rounded p emin infinity mode (st80_real bytes) negative bits
      else if unat (st_exponent bytes) = 32767 \<and> unat (st_mantissa bytes) = 2 ^ 63
      then (negative \<longleftrightarrow> 128 \<le> unat (bytes ! 9)) \<and> bits = infinity
      else infinity < bits)"

lemma correctly_rounded_zero:
  assumes "0 < p" "0 < infinity"
  shows "correctly_rounded p emin infinity mode 0 negative 0"
  using assms bits_real_nonneg[OF assms(1)] by (cases mode) (auto simp: correctly_rounded_def signed_real_def)

lemma correctly_rounded_le: "correctly_rounded p emin infinity mode x negative b \<Longrightarrow> b \<le> infinity"
  by (auto simp: correctly_rounded_def Let_def split: if_splits)

lemma nan_bits:
  assumes "2 \<le> p"
  shows "2 ^ (p - 2) + m mod 2 ^ (p - 2) < (2 :: nat) ^ (p - 1)"
proof -
  have "p - 1 = Suc (p - 2)" using assms by simp
  moreover have "m mod 2 ^ (p - 2) < 2 ^ (p - 2)" by simp
  ultimately show ?thesis by simp
qed

lemma store_bits_finite:
  assumes "2 \<le> p" "0 < infinity" "unat (st_exponent bytes) \<noteq> 32767" "unat (st_exponent bytes) = 0 \<or> 2 ^ 63 \<le> unat (st_mantissa bytes)"
  defines "neg \<equiv> 128 \<le> unat (bytes ! 9)"
  obtains b where "store_bits p emin infinity sign mode bytes = (if neg then sign else 0) + b"
    "correctly_rounded p emin infinity mode (st80_real bytes) neg b"
proof -
  let ?m = "unat (st_mantissa bytes)" and ?e = "unat (st_exponent bytes)"
  let ?x = "int (max ?e 1) - 16446"
  define b where "b = (if ?m = 0 then 0 else round_result p emin infinity mode neg (?m * 2 ^ nat ?x) (2 ^ nat (- ?x)))"
  have "store_bits p emin infinity sign mode bytes = (if neg then sign else 0) + b"
  proof -
    have "\<not> (?e \<noteq> 0 \<and> ?m < 2 ^ 63)" using assms(4) by linarith
    note fields = if_not_P[OF this] if_not_P[OF assms(3)]
    show ?thesis
      unfolding store_bits_def Let_def neg_def[symmetric] b_def fields
      by (cases "?m = 0"; cases neg) (simp_all only: simp_thms if_True if_False add_0 add_0_right)
  qed
  moreover have "correctly_rounded p emin infinity mode (st80_real bytes) neg b"
  proof (cases "?m = 0")
    case True
    then show ?thesis using correctly_rounded_zero[of p infinity] assms(1,2) by (simp add: b_def st80_real_def)
  next
    case False
    then have "0 < ?m * 2 ^ nat ?x" by simp
    from round_result_correct[OF this _ assms(1,2), of "2 ^ nat (- ?x)" emin mode neg] show ?thesis
      unfolding powi_ratio st80_real_def b_def Let_def neg_def[symmetric] by (simp only: False if_False zero_less_power zero_less_numeral)
  qed
  ultimately show thesis by (rule that)
qed

lemma store_bits_narrowed:
  assumes "2 \<le> p" "0 < infinity" "infinity + 2 ^ (p - 1) \<le> sign"
  obtains negative b where "store_bits p emin infinity sign mode bytes = (if negative then sign else 0) + b" "b < sign"
    "narrowed p emin infinity mode bytes negative b"
proof -
  let ?m = "unat (st_mantissa bytes)" and ?e = "unat (st_exponent bytes)"
  define neg where "neg \<longleftrightarrow> 128 \<le> unat (bytes ! 9)"
  have exp0: "st_exponent bytes = 0 \<longleftrightarrow> ?e = 0" by (simp add: unat_eq_0)
  consider (unsupported) "?e \<noteq> 0" "?m < 2 ^ 63" | (special) "?e = 32767" "2 ^ 63 \<le> ?m"
    | (finite) "?e \<noteq> 32767" "?e = 0 \<or> 2 ^ 63 \<le> ?m" by linarith
  then show thesis
  proof cases
    case unsupported
    then have "store_bits p emin infinity sign mode bytes = (if True then sign else 0) + (infinity + (2 ^ (p - 2) + 0 mod 2 ^ (p - 2)))"
      by (simp add: store_bits_def Let_def)
    moreover have "infinity + (2 ^ (p - 2) + 0 mod 2 ^ (p - 2)) < sign" using nan_bits[OF assms(1), of 0] assms(3) by linarith
    moreover have "narrowed p emin infinity mode bytes True (infinity + (2 ^ (p - 2) + 0 mod 2 ^ (p - 2)))"
      using unsupported by (simp add: narrowed_def st80_finite_def exp0)
    ultimately show thesis by (rule that)
  next
    case special
    define b where "b = (if ?m = 2 ^ 63 then infinity else infinity + (2 ^ (p - 2) + (?m - 2 ^ 63) div 2 ^ (64 - p) mod 2 ^ (p - 2)))"
    have "store_bits p emin infinity sign mode bytes = (if neg then sign else 0) + b"
      using special by (simp add: store_bits_def Let_def neg_def b_def)
    moreover have "b < sign" using assms(3) nan_bits[OF assms(1), of "(?m - 2 ^ 63) div 2 ^ (64 - p)"] by (simp add: b_def)
    moreover have "narrowed p emin infinity mode bytes neg b"
      using special by (simp add: narrowed_def st80_finite_def exp0 neg_def b_def)
    ultimately show thesis by (rule that)
  next
    case finite
    then obtain b where "store_bits p emin infinity sign mode bytes = (if neg then sign else 0) + b"
      and ok: "correctly_rounded p emin infinity mode (st80_real bytes) neg b"
      unfolding neg_def using store_bits_finite[OF assms(1,2)] by blast
    moreover have "b < sign" using correctly_rounded_le[OF ok] assms(3) zero_less_power[of "2 :: nat" "p - 1", OF zero_less_numeral] by linarith
    moreover have "narrowed p emin infinity mode bytes neg b"
      using finite ok by (auto simp: narrowed_def st80_finite_def exp0 neg_def)
    ultimately show thesis by (intro that)
  qed
qed

text \<open>The sign and the magnitude of a word that was put together from them.\<close>

lemma unat_signed:
  fixes b :: nat and negative :: bool
  assumes "b < 2 ^ k" "LENGTH('w :: len) = Suc k"
  defines "w \<equiv> word_of_nat ((if negative then 2 ^ k else 0) + b) :: 'w word"
  shows "2 ^ k \<le> unat w \<longleftrightarrow> negative" "unat w mod 2 ^ k = b"
proof -
  have "unat w = (if negative then 2 ^ k else 0) + b"
    unfolding w_def by (rule unat_word_of_nat) (use assms(1,2) in auto)
  then show "2 ^ k \<le> unat w \<longleftrightarrow> negative" "unat w mod 2 ^ k = b" using assms(1) by (cases negative; simp)+
qed

definition x87_kept :: "X87 \<Rightarrow> X87 \<Rightarrow> bool" where
  "x87_kept s s' \<longleftrightarrow> x87_control s' = x87_control s \<and> x87_stack s' = x87_stack s \<and> x87_flags s AND x87_flags s' = x87_flags s"

lemma converted_kept: "x87_kept s (converted p emin infinity sign bytes control s)"
  by (simp add: x87_kept_def converted_def bit_eq_iff bit_simps)

text \<open>
  C35: what the assembly computes. On a host whose x87 unit has all exceptions masked and a free register, the conversions
  of an 80-bit register to a double and to a float return, for every ten bytes and every traced control word. The result
  is the rounding of the encoded number in the mode of the traced control word: the nearest value (ties to even), the greatest below, the
  least above, or the one towards zero, with overflow to infinity or to the largest value as the mode demands;
  an infinity keeps its sign and anything else gives a NaN. In between the control word of the host is changed in
  the two rounding bits only; afterwards it is what it was, as is the stack, and no exception flag is lost.
\<close>

theorem st80_conversions_round:
  assumes "x87_ready s"
  shows "(\<exists>w s'. st80_to_double bytes control s = Some (w, s') \<and> x87_kept s s'
        \<and> narrowed 53 (- 1074) DOUBLE_INF (rounding_control control) bytes (2 ^ 63 \<le> unat w) (unat w mod 2 ^ 63))
    \<and> (\<exists>w s'. st80_to_float bytes control s = Some (w, s') \<and> x87_kept s s'
        \<and> narrowed 24 (- 149) FLOAT_INF (rounding_control control) bytes (2 ^ 31 \<le> unat w) (unat w mod 2 ^ 31))
    \<and> (\<forall>i. bit (conversion_control_word (x87_control s) control) i
        \<longleftrightarrow> (if i = 10 \<or> i = 11 then bit control i else bit (x87_control s) i))"
proof (intro conjI)
  obtain neg b where "store_bits 53 (- 1074) DOUBLE_INF (2 ^ 63) (rounding_control control) bytes = (if neg then 2 ^ 63 else 0) + b"
      "b < 2 ^ 63" "narrowed 53 (- 1074) DOUBLE_INF (rounding_control control) bytes neg b"
    by (rule store_bits_narrowed[of 53 DOUBLE_INF "2 ^ 63"]) (simp_all add: DOUBLE_INF_def)
  then show "\<exists>w s'. st80_to_double bytes control s = Some (w, s') \<and> x87_kept s s'
      \<and> narrowed 53 (- 1074) DOUBLE_INF (rounding_control control) bytes (2 ^ 63 \<le> unat w) (unat w mod 2 ^ 63)"
    using st80_to_double_eq[OF assms, of bytes control] converted_kept unat_signed[of b 63 neg, where 'w = 64] by fastforce
  obtain neg b where "store_bits 24 (- 149) FLOAT_INF (2 ^ 31) (rounding_control control) bytes = (if neg then 2 ^ 31 else 0) + b"
      "b < 2 ^ 31" "narrowed 24 (- 149) FLOAT_INF (rounding_control control) bytes neg b"
    by (rule store_bits_narrowed[of 24 FLOAT_INF "2 ^ 31"]) (simp_all add: FLOAT_INF_def)
  then show "\<exists>w s'. st80_to_float bytes control s = Some (w, s') \<and> x87_kept s s'
      \<and> narrowed 24 (- 149) FLOAT_INF (rounding_control control) bytes (2 ^ 31 \<le> unat w) (unat w mod 2 ^ 31)"
    using st80_to_float_eq[OF assms, of bytes control] converted_kept unat_signed[of b 31 neg, where 'w = 32] by fastforce
qed (simp add: conversion_control_word_bits)

text \<open>A third in all 64 bits of its mantissa, rounded up, by a host that rounds down and carries a sticky flag.\<close>

definition example_x87 :: X87 where
  "example_x87 = \<lparr>x87_control = 0x077F, x87_flags = 0x20, x87_c1 = True, x87_stack = []\<rparr>"

definition example_third :: "u8 list" where
  "example_third = [0xAB, 0xAA, 0xAA, 0xAA, 0xAA, 0xAA, 0xAA, 0xAA, 0xFD, 0x3F]"

theorem st80_conversions_round_witness:
  "x87_ready example_x87
    \<and> (\<exists>w s'. st80_to_double example_third 0x0B7F example_x87 = Some (w, s') \<and> x87_kept example_x87 s'
        \<and> narrowed 53 (- 1074) DOUBLE_INF RoundUp example_third (2 ^ 63 \<le> unat w) (unat w mod 2 ^ 63))"
proof -
  have ready: "x87_ready example_x87" by code_simp
  moreover have "rounding_control 0x0B7F = RoundUp" by code_simp
  ultimately show ?thesis using st80_conversions_round[OF ready, of example_third "0x0B7F"] by simp
qed

end
